(* ===== verification/Vrtm_Prelude.thy ===== *)
theory Vrtm_Prelude
  imports
    Main
    "HOL-Library.Word"
    "HOL-Library.Char_ord"
    "HOL-Library.List_Lexorder"
    "HOL-Library.Monad_Syntax"
begin

text \<open>
  Prelude of the development: the C and C++ library functions the sources call, as HOL
  functions on strings, and the generic lemmas every component shares.

  A C string is the list of the characters before its terminating NUL.  A \<open>char\<close> array of
  capacity \<open>n\<close> that the code fills with a bounds-checked function (\<open>strcpy_s\<close>,
  \<open>strncpy_s\<close>, \<open>strcat_s\<close> of C11 Annex K, as declared in
  \<open>util/SafeStringLibrary/include/safe_str_lib.h\<close>) is modelled by the C string it holds.
  The functions take the capacity, and on a violated runtime constraint leave the empty
  string, as Annex K prescribes.  A result of type \<open>option\<close> that is \<open>None\<close> stands for
  undefined behaviour of the source, unless a definition says otherwise.
\<close>

section \<open>Collections of rewrite rules\<close>

named_theorems cstr_simps \<open>C string functions on arguments that fit\<close>
named_theorems table_simps \<open>the process table operations\<close>
named_theorems wire_simps \<open>encoders and decoders of the wire format\<close>

type_synonym cstr = string
type_synonym u8 = "8 word"
type_synonym u32 = "32 word"

abbreviation MAX_LEN :: nat where "MAX_LEN \<equiv> 4096"
abbreviation RSIZE_MAX_STR :: nat where "RSIZE_MAX_STR \<equiv> 4096"
abbreviation newline :: char where "newline \<equiv> CHR 0x0A"
abbreviation nul :: char where "nul \<equiv> CHR 0x00"

section \<open>Strings in buffers\<close>

text \<open>The C string at the start of a byte buffer.\<close>

definition cstr_of :: "string \<Rightarrow> cstr" where
  "cstr_of buf = takeWhile (\<lambda>c. c \<noteq> nul) buf"

definition nul_free :: "string \<Rightarrow> bool" where
  "nul_free s \<longleftrightarrow> nul \<notin> set s"

definition strnlen_s :: "cstr \<Rightarrow> nat \<Rightarrow> nat" where
  "strnlen_s s n = min (length s) n"

definition strcpy_s :: "nat \<Rightarrow> cstr \<Rightarrow> cstr" where
  "strcpy_s dmax src = (if length src < dmax then src else [])"

definition strncpy_s :: "nat \<Rightarrow> cstr \<Rightarrow> nat \<Rightarrow> cstr" where
  "strncpy_s dmax src n =
     (if RSIZE_MAX_STR < n then []
      else if min (length src) n < dmax then take n src else [])"

definition strcat_s :: "nat \<Rightarrow> cstr \<Rightarrow> cstr \<Rightarrow> cstr" where
  "strcat_s dmax dest src = (if length dest + length src < dmax then dest @ src else [])"

definition snprintf :: "nat \<Rightarrow> cstr \<Rightarrow> cstr" where
  "snprintf dmax s = take (dmax - 1) s"

text \<open>\<open>memcpy_s\<close> on byte arrays: a count above the capacity clears the destination.\<close>

definition memcpy_s :: "nat \<Rightarrow> 'a::zero list \<Rightarrow> 'a list \<Rightarrow> nat \<Rightarrow> 'a list" where
  "memcpy_s dmax dest src n =
     (if dmax < n then replicate dmax 0 @ drop dmax dest else take n src @ drop n dest)"

lemma cstr_of_nul_free [simp]: "nul_free s \<Longrightarrow> cstr_of s = s"
  unfolding cstr_of_def nul_free_def by (induction s) auto

lemma nul_free_cstr_of [simp]: "nul_free (cstr_of s)"
  unfolding cstr_of_def nul_free_def by (induction s) auto

lemma cstr_of_append_nul [simp]: "nul_free s \<Longrightarrow> cstr_of (s @ nul # t) = s"
  unfolding cstr_of_def nul_free_def by (induction s) auto

lemma nul_free_Nil [simp]: "nul_free []"
  and nul_free_Cons [simp]: "nul_free (c # s) \<longleftrightarrow> c \<noteq> nul \<and> nul_free s"
  and nul_free_append [simp]: "nul_free (s @ t) \<longleftrightarrow> nul_free s \<and> nul_free t"
  by (auto simp: nul_free_def)

lemma nul_free_take [intro]: "nul_free s \<Longrightarrow> nul_free (take n s)"
  unfolding nul_free_def by (meson in_set_takeD)

lemma strcpy_s_length [simp]: "0 < dmax \<Longrightarrow> length (strcpy_s dmax s) < dmax"
  by (simp add: strcpy_s_def)

lemma strcpy_s_fits [simp, cstr_simps]: "length s < dmax \<Longrightarrow> strcpy_s dmax s = s"
  by (simp add: strcpy_s_def)

lemma strcpy_s_Nil [simp]: "strcpy_s dmax [] = []"
  by (simp add: strcpy_s_def)

lemma strncpy_s_length [simp]: "0 < dmax \<Longrightarrow> length (strncpy_s dmax s n) < dmax"
  by (auto simp: strncpy_s_def)

lemma strncpy_s_fits [cstr_simps]:
  "length s < dmax \<Longrightarrow> n \<le> RSIZE_MAX_STR \<Longrightarrow> strncpy_s dmax s n = take n s"
  by (auto simp: strncpy_s_def)

lemma strcat_s_length: "length dest < dmax \<Longrightarrow> length (strcat_s dmax dest src) < dmax"
  by (auto simp: strcat_s_def)

lemma strcat_s_fits [cstr_simps]:
  "length dest + length src < dmax \<Longrightarrow> strcat_s dmax dest src = dest @ src"
  by (simp add: strcat_s_def)

lemma snprintf_length [simp]: "0 < dmax \<Longrightarrow> length (snprintf dmax s) < dmax"
  by (simp add: snprintf_def min_def) linarith

lemma snprintf_fits [simp, cstr_simps]: "length s < dmax \<Longrightarrow> snprintf dmax s = s"
  by (simp add: snprintf_def)

lemma strnlen_s_fits [simp, cstr_simps]: "length s \<le> n \<Longrightarrow> strnlen_s s n = length s"
  by (simp add: strnlen_s_def)

lemma strnlen_s_le: "strnlen_s s n \<le> n" and strnlen_s_le_length: "strnlen_s s n \<le> length s"
  by (simp_all add: strnlen_s_def)

lemma memcpy_s_length:
  "length dest = dmax \<Longrightarrow> n \<le> length src \<Longrightarrow> length (memcpy_s dmax dest src n) = dmax"
  by (auto simp: memcpy_s_def)

section \<open>Decimal numbers: \<open>%d\<close> and \<open>atoi\<close>\<close>

text \<open>The digits \<open>printf\<close> writes for \<open>%d\<close>.\<close>

fun show_nat :: "nat \<Rightarrow> string" where
  "show_nat n = (if n < 10 then [char_of (48 + n)]
                 else show_nat (n div 10) @ [char_of (48 + n mod 10)])"

declare show_nat.simps [simp del]

definition show_int :: "int \<Rightarrow> string" where
  "show_int i = (if i < 0 then CHR ''-'' # show_nat (nat (- i)) else show_nat (nat i))"

definition is_space :: "char \<Rightarrow> bool" where
  "is_space c \<longleftrightarrow> c \<in> {CHR 0x09, CHR 0x0A, CHR 0x0B, CHR 0x0C, CHR 0x0D, CHR '' ''}"

definition is_digit :: "char \<Rightarrow> bool" where
  "is_digit c \<longleftrightarrow> 48 \<le> (of_char c :: nat) \<and> (of_char c :: nat) \<le> 57"

fun read_digits :: "int \<Rightarrow> string \<Rightarrow> int" where
  "read_digits acc [] = acc"
| "read_digits acc (c # cs) =
     (if is_digit c then read_digits (10 * acc + (int (of_char c) - 48)) cs else acc)"

text \<open>
  \<open>atoi\<close> as the C library implements it: \<open>strtol\<close> to a 64-bit \<open>long\<close>, saturating, then
  the conversion to a 32-bit \<open>int\<close>.
\<close>

definition long_to_int :: "int \<Rightarrow> int" where
  "long_to_int v = signed_take_bit 31 (max (- (2 ^ 63)) (min (2 ^ 63 - 1) v))"

definition atoi :: "cstr \<Rightarrow> int" where
  "atoi s = (case dropWhile is_space s of
       [] \<Rightarrow> 0
     | c # cs \<Rightarrow> if c = CHR ''-'' then long_to_int (- read_digits 0 cs)
                else if c = CHR ''+'' then long_to_int (read_digits 0 cs)
                else long_to_int (read_digits 0 (c # cs)))"

definition int32 :: "int \<Rightarrow> bool" where
  "int32 i \<longleftrightarrow> - (2 ^ 31) \<le> i \<and> i < 2 ^ 31"

lemma digit_char: "d < 10 \<Longrightarrow> of_char (char_of (48 + d) :: char) = (48 + d :: nat)"
  by simp

lemma is_digit_char [simp]: "d < 10 \<Longrightarrow> is_digit (char_of (48 + d :: nat))"
  unfolding is_digit_def by (simp only: digit_char) simp

lemma show_nat_nonempty [simp]: "show_nat n \<noteq> []"
  by (subst show_nat.simps) simp

lemma show_nat_digits: "c \<in> set (show_nat n) \<Longrightarrow> is_digit c"
proof (induction n rule: show_nat.induct)
  case (1 n)
  show ?case
  proof (cases "n < 10")
    case True
    with "1.prems" show ?thesis by (simp add: show_nat.simps [of n])
  next
    case False
    with "1.prems" have "c \<in> set (show_nat (n div 10)) \<or> c = char_of (48 + n mod 10)"
      by (auto simp: show_nat.simps [of n])
    with "1.IH" False show ?thesis by auto
  qed
qed

lemma read_digits_append:
  "(\<And>c. c \<in> set s \<Longrightarrow> is_digit c) \<Longrightarrow> read_digits a (s @ t) = read_digits (read_digits a s) t"
  by (induction s arbitrary: a) auto

lemma read_digits_show_nat: "read_digits 0 (show_nat n) = int n"
proof (induction n rule: show_nat.induct)
  case (1 n)
  show ?case
  proof (cases "n < 10")
    case True
    then show ?thesis by (simp add: show_nat.simps [of n] digit_char)
  next
    case False
    then have "show_nat n = show_nat (n div 10) @ [char_of (48 + n mod 10)]"
      by (simp add: show_nat.simps [of n])
    moreover have "read_digits 0 (show_nat (n div 10)) = int (n div 10)"
      by (rule "1.IH" [OF False])
    ultimately show ?thesis
      by (simp add: read_digits_append show_nat_digits digit_char)
        (metis add.commute mult_div_mod_eq of_nat_add of_nat_mult of_nat_numeral)
  qed
qed

lemma length_show_nat: "n < 10 ^ k \<Longrightarrow> 0 < k \<Longrightarrow> length (show_nat n) \<le> k"
proof (induction n arbitrary: k rule: show_nat.induct)
  case (1 n)
  show ?case
  proof (cases "n < 10")
    case True
    with "1.prems" show ?thesis by (simp add: show_nat.simps [of n])
  next
    case False
    with "1.prems" obtain j where k: "k = Suc j" "0 < j"
      by (cases k; cases "k - 1") auto
    with "1.prems" have "n div 10 < 10 ^ j" by simp
    with "1.IH" [OF False this k(2)] False k show ?thesis
      by (simp add: show_nat.simps [of n])
  qed
qed

lemma digit_not_space: "is_digit c \<Longrightarrow> \<not> is_space c"
  and digit_not_sign: "is_digit c \<Longrightarrow> c \<noteq> CHR ''-''" "is_digit c \<Longrightarrow> c \<noteq> CHR ''+''"
  and digit_not_nul: "is_digit c \<Longrightarrow> c \<noteq> nul"
  by (auto simp: is_digit_def is_space_def)

lemma long_to_int_int32 [simp]: "int32 i \<Longrightarrow> long_to_int i = i"
  unfolding long_to_int_def int32_def by (simp add: signed_take_bit_int_eq_self)

lemma show_nat_Cons: "\<exists>c cs. show_nat n = c # cs \<and> is_digit c"
  by (metis list.exhaust list.set_intros(1) show_nat_digits show_nat_nonempty)

lemma atoi_show_int: "int32 i \<Longrightarrow> atoi (show_int i) = i"
proof (cases "i < 0")
  case True
  moreover assume "int32 i"
  ultimately show ?thesis
    by (simp add: atoi_def show_int_def is_space_def read_digits_show_nat)
next
  case False
  moreover assume i: "int32 i"
  obtain c cs where c: "show_nat (nat i) = c # cs" "is_digit c" using show_nat_Cons by blast
  moreover have "read_digits 0 (c # cs) = i"
    using False read_digits_show_nat [of "nat i"] c by simp
  ultimately show ?thesis
    using i by (simp add: atoi_def show_int_def digit_not_space digit_not_sign)
qed

lemma show_int_nonempty [simp]: "show_int i \<noteq> []"
  by (simp add: show_int_def)

lemma nul_free_show_int [simp]: "nul_free (show_int i)"
  by (auto simp: nul_free_def show_int_def dest!: show_nat_digits dest: digit_not_nul)

lemma length_show_int: "int32 i \<Longrightarrow> length (show_int i) \<le> 11"
proof -
  assume "int32 i"
  then have "nat \<bar>i\<bar> < 10 ^ 10" by (auto simp: int32_def)
  then have "length (show_nat (nat \<bar>i\<bar>)) \<le> 10" by (rule length_show_nat) simp
  then show ?thesis by (auto simp: show_int_def)
qed

lemma length_show_int_pos: "int32 i \<Longrightarrow> 0 < length (show_int i)"
  by simp

lemma atoi_int32: "int32 (atoi s)"
proof -
  have "int32 (long_to_int v)" for v
    using signed_take_bit_int_greater_eq_minus_exp [of 31 "max (- (2 ^ 63)) (min (2 ^ 63 - 1) v)"]
      signed_take_bit_int_less_exp [of 31 "max (- (2 ^ 63)) (min (2 ^ 63 - 1) v)"]
    unfolding int32_def long_to_int_def by blast
  moreover have "int32 0" by (simp add: int32_def)
  ultimately show ?thesis by (auto simp: atoi_def split: list.splits)
qed

section \<open>Reading a text stream line by line\<close>

text \<open>
  \<open>fgets(buf, n + 1, fp)\<close> on a stream whose unread content is \<open>s\<close>: the characters read,
  the rest, and whether the read met the end of the file (\<open>feof\<close>).
\<close>

fun fgets :: "nat \<Rightarrow> string \<Rightarrow> string \<times> string \<times> bool" where
  "fgets 0 s = ([], s, False)"
| "fgets (Suc n) [] = ([], [], True)"
| "fgets (Suc n) (c # cs) =
     (if c = newline then ([c], cs, False)
      else (case fgets n cs of (l, r, e) \<Rightarrow> (c # l, r, e)))"

lemma fgets_append: "fgets n s = (l, r, e) \<Longrightarrow> s = l @ r"
  by (induction n s arbitrary: l r e rule: fgets.induct) (auto split: if_splits prod.splits)

lemma fgets_progress: "fgets (Suc n) s = (l, r, False) \<Longrightarrow> length r < length s"
  by (cases s) (auto split: if_splits prod.splits dest: fgets_append)

lemma fgets_length: "fgets n s = (l, r, e) \<Longrightarrow> length l \<le> n"
  by (induction n s arbitrary: l r e rule: fgets.induct) (auto split: if_splits prod.splits)

lemma fgets_line:
  "newline \<notin> set s \<Longrightarrow> length s < n \<Longrightarrow> fgets n (s @ newline # t) = (s @ [newline], t, False)"
proof (induction s arbitrary: n)
  case Nil
  then show ?case by (cases n) auto
next
  case (Cons c s)
  then obtain m where "n = Suc m" by (cases n) auto
  with Cons show ?case by auto
qed

lemma fgets_last:
  "newline \<notin> set s \<Longrightarrow> length s < n \<Longrightarrow> fgets n s = (s, [], True)"
proof (induction s arbitrary: n)
  case Nil
  then show ?case by (cases n) auto
next
  case (Cons c s)
  then obtain m where "n = Suc m" by (cases n) auto
  with Cons show ?case by auto
qed

text \<open>An equation for evaluation, without counting down from the limit.\<close>

lemma fgets_code [code]:
  "fgets n s =
     (let l = takeWhile (\<lambda>c. c \<noteq> newline) s; k = length l
      in if k < n then (if k = length s then (l, [], True) else (l @ [newline], drop (Suc k) s, False))
         else (take n s, drop n s, False))"
proof (induction n s rule: fgets.induct)
  case (3 n c cs)
  then show ?case by (cases "c = newline") (auto simp: Let_def split: prod.splits)
qed simp_all

section \<open>Generic lemmas on lists and options\<close>

lemma find_None: "find P xs = None \<longleftrightarrow> (\<forall>x\<in>set xs. \<not> P x)"
  by (induction xs) auto

lemma find_Some_in: "find P xs = Some x \<Longrightarrow> x \<in> set xs \<and> P x"
  by (auto simp: find_Some_iff)

end
