(* ===== verification/Std_Map.thy ===== *)
theory Std_Map
  imports Vrtm_Prelude
begin

text \<open>
  \<open>std::map\<close> as the sources use it: a finite map iterated in the order of its keys, whose
  \<open>insert\<close> leaves an existing key alone.  The interface is the locale \<open>std_map\<close>; it is
  interpreted on association lists sorted by key, which every component uses (the process
  table with \<open>int\<close> keys, the configuration and the Hyper-V maps with \<open>std::string\<close> keys,
  whose order is that of \<open>HOL-Library.List_Lexorder\<close>).
\<close>

section \<open>The interface\<close>

locale std_map =
  fixes lookup :: "'m \<Rightarrow> 'k::linorder \<Rightarrow> 'v option"
    and insert_new :: "'k \<Rightarrow> 'v \<Rightarrow> 'm \<Rightarrow> 'm"
    and erase :: "'k \<Rightarrow> 'm \<Rightarrow> 'm"
    and modify :: "'k \<Rightarrow> ('v \<Rightarrow> 'v) \<Rightarrow> 'm \<Rightarrow> 'm"
    and entries :: "'m \<Rightarrow> ('k \<times> 'v) list"
    and invar :: "'m \<Rightarrow> bool"
  assumes lookup_insert: "invar m \<Longrightarrow> lookup (insert_new k v m) j =
        (if j = k then (case lookup m k of None \<Rightarrow> Some v | Some u \<Rightarrow> Some u) else lookup m j)"
    and lookup_erase: "invar m \<Longrightarrow> lookup (erase k m) j = (if j = k then None else lookup m j)"
    and lookup_modify: "invar m \<Longrightarrow> lookup (modify k f m) j =
        (if j = k then map_option f (lookup m k) else lookup m j)"
    and entries_lookup: "invar m \<Longrightarrow> (j, v) \<in> set (entries m) \<longleftrightarrow> lookup m j = Some v"
    and entries_sorted: "invar m \<Longrightarrow> sorted_wrt (<) (map fst (entries m))"
    and invar_insert: "invar m \<Longrightarrow> invar (insert_new k v m)"
    and invar_erase: "invar m \<Longrightarrow> invar (erase k m)"
    and invar_modify: "invar m \<Longrightarrow> invar (modify k f m)"
begin

lemma entries_distinct: "invar m \<Longrightarrow> distinct (map fst (entries m))"
  using entries_sorted strict_sorted_iff by blast

lemma in_entries_insert: "invar m \<Longrightarrow> (j, u) \<in> set (entries (insert_new k v m)) \<longleftrightarrow>
    (j, u) \<in> set (entries m) \<or> lookup m k = None \<and> j = k \<and> u = v"
  by (auto simp: entries_lookup invar_insert lookup_insert split: option.splits)

lemma in_entries_erase: "invar m \<Longrightarrow> (j, u) \<in> set (entries (erase k m)) \<longleftrightarrow>
    (j, u) \<in> set (entries m) \<and> j \<noteq> k"
  by (auto simp: entries_lookup invar_erase lookup_erase)

lemma in_entries_modify: "invar m \<Longrightarrow> (j, u) \<in> set (entries (modify k f m)) \<longleftrightarrow>
    (if j = k then \<exists>v. (k, v) \<in> set (entries m) \<and> u = f v else (j, u) \<in> set (entries m))"
  by (auto simp: entries_lookup invar_modify lookup_modify)

text \<open>A property of all entries survives each operation that keeps it on the touched entry.\<close>

lemma all_entries_insert:
  "invar m \<Longrightarrow> (\<forall>(j, u) \<in> set (entries m). P j u) \<Longrightarrow> P k v \<Longrightarrow>
     \<forall>(j, u) \<in> set (entries (insert_new k v m)). P j u"
  by (auto simp: in_entries_insert)

lemma all_entries_erase:
  "invar m \<Longrightarrow> (\<forall>(j, u) \<in> set (entries m). P j u) \<Longrightarrow>
     \<forall>(j, u) \<in> set (entries (erase k m)). P j u"
  by (auto simp: in_entries_erase)

lemma all_entries_modify:
  "invar m \<Longrightarrow> (\<forall>(j, u) \<in> set (entries m). P j u) \<Longrightarrow> (\<And>u. P k u \<Longrightarrow> P k (f u)) \<Longrightarrow>
     \<forall>(j, u) \<in> set (entries (modify k f m)). P j u"
  by (fastforce simp: in_entries_modify split: if_splits)

lemma erase_erase_lookup: "invar m \<Longrightarrow> lookup (erase j (erase k m)) i = lookup (erase k (erase j m)) i"
  by (simp add: lookup_erase invar_erase)

end

section \<open>Association lists sorted by key\<close>

type_synonym ('k, 'v) smap = "('k \<times> 'v) list"

fun map_insert :: "'k::linorder \<Rightarrow> 'v \<Rightarrow> ('k, 'v) smap \<Rightarrow> ('k, 'v) smap" where
  "map_insert k v [] = [(k, v)]"
| "map_insert k v ((j, u) # m) =
     (if k < j then (k, v) # (j, u) # m
      else if k = j then (j, u) # m else (j, u) # map_insert k v m)"

definition map_erase :: "'k \<Rightarrow> ('k, 'v) smap \<Rightarrow> ('k, 'v) smap" where
  "map_erase k m = filter (\<lambda>(j, u). j \<noteq> k) m"

definition map_modify :: "'k \<Rightarrow> ('v \<Rightarrow> 'v) \<Rightarrow> ('k, 'v) smap \<Rightarrow> ('k, 'v) smap" where
  "map_modify k f m = map (\<lambda>(j, u). (j, if j = k then f u else u)) m"

text \<open>\<open>m[k]\<close>: the value, default-constructed for a missing key.\<close>

definition map_get :: "'v \<Rightarrow> ('k, 'v) smap \<Rightarrow> 'k \<Rightarrow> 'v" where
  "map_get d m k = (case map_of m k of None \<Rightarrow> d | Some v \<Rightarrow> v)"

definition map_ok :: "('k::linorder, 'v) smap \<Rightarrow> bool" where
  "map_ok m \<longleftrightarrow> sorted_wrt (<) (map fst m)"

lemma map_ok_Nil [simp]: "map_ok []"
  by (simp add: map_ok_def)

lemma map_ok_distinct: "map_ok m \<Longrightarrow> distinct (map fst m)"
  unfolding map_ok_def using strict_sorted_iff by blast

lemma keys_map_insert: "fst ` set (map_insert k v m) = insert k (fst ` set m)"
  by (induction k v m rule: map_insert.induct) auto

lemma map_ok_insert: "map_ok m \<Longrightarrow> map_ok (map_insert k v m)"
proof (induction k v m rule: map_insert.induct)
  case (2 k v j u m)
  then have m: "map_ok m" "\<And>i. i \<in> fst ` set m \<Longrightarrow> j < i"
    by (auto simp: map_ok_def)
  have "\<And>i. i \<in> fst ` set (map_insert k v m) \<Longrightarrow> j < i \<or> i = k"
    using m(2) by (auto simp: keys_map_insert)
  with 2 m show ?case
    by (fastforce simp: map_ok_def keys_map_insert)
qed (simp add: map_ok_def)

lemma map_ok_erase: "map_ok m \<Longrightarrow> map_ok (map_erase k m)"
  unfolding map_ok_def map_erase_def
  by (induction m) (auto simp: image_iff)

lemma fst_map_modify [simp]: "map fst (map_modify k f m) = map fst m"
  by (induction m) (auto simp: map_modify_def)

lemma map_ok_modify: "map_ok m \<Longrightarrow> map_ok (map_modify k f m)"
  by (simp add: map_ok_def)

lemma map_of_insert_ok:
  "map_ok m \<Longrightarrow> map_of (map_insert k v m) j =
     (if j = k then (case map_of m k of None \<Rightarrow> Some v | Some u \<Rightarrow> Some u) else map_of m j)"
proof (induction k v m rule: map_insert.induct)
  case (2 k v i u m)
  have ok: "map_ok m" and above: "\<And>x. x \<in> fst ` set m \<Longrightarrow> i < x"
    using 2 by (auto simp: map_ok_def)
  have "k < i \<Longrightarrow> map_of m k = None"
    using above by (metis map_of_eq_None_iff not_less_iff_gr_or_eq order.strict_trans)
  with 2 ok show ?case by (auto split: option.splits)
qed simp

lemma map_insert_existing: "map_ok m \<Longrightarrow> map_of m k \<noteq> None \<Longrightarrow> map_insert k v m = m"
proof (induction k v m rule: map_insert.induct)
  case (2 k v j u m)
  then have ok: "map_ok m" and above: "\<And>x. x \<in> fst ` set m \<Longrightarrow> j < x"
    by (auto simp: map_ok_def)
  have "k < j \<Longrightarrow> map_of m k = None"
    using above by (metis map_of_eq_None_iff not_less_iff_gr_or_eq order.strict_trans)
  with 2 ok show ?case by (auto split: if_splits)
qed simp

lemma map_of_erase: "map_of (map_erase k m) j = (if j = k then None else map_of m j)"
  by (induction m) (auto simp: map_erase_def)

lemma map_of_modify:
  "map_of (map_modify k f m) j = (if j = k then map_option f (map_of m k) else map_of m j)"
  by (induction m) (auto simp: map_modify_def)

lemma in_set_map_of: "map_ok m \<Longrightarrow> (j, v) \<in> set m \<longleftrightarrow> map_of m j = Some v"
  by (simp add: map_ok_distinct)

interpretation smap: std_map map_of map_insert map_erase map_modify "\<lambda>m. m" map_ok
  by unfold_locales
    (auto simp: map_of_insert_ok map_of_erase map_of_modify in_set_map_of map_ok_insert
      map_ok_erase map_ok_modify, simp add: map_ok_def)

lemmas map_lookup_simps =
  smap.lookup_insert smap.lookup_erase smap.lookup_modify

lemmas map_ok_intros [intro] =
  smap.invar_insert smap.invar_erase smap.invar_modify

end
