(* ===== verification/Host.thy ===== *)
theory Host
  imports Std_Map
begin

text \<open>
  The world outside the program and the helpers of \<open>util/vrtmCommon.cpp\<close> that act on it.

  The operating system and the tools the program starts with \<open>system(3)\<close> are not part of
  the sources.  They are the parameter \<open>'w host\<close>: one function per system or library call,
  over a state \<open>'w\<close> of the world that the model threads through every call in the order of
  the source.  Nothing is assumed about these functions here; a theorem that needs a law of
  one of them states it as a hypothesis.
\<close>

datatype platform = Linux | Windows

datatype mkdir_result = MkdirOk | MkdirExists | MkdirFailed

datatype stat_result = StatFails | StatDir | StatOther

datatype fmode = ForRead | ForWrite | ForAppend

record 'w host =
  h_system :: "cstr \<Rightarrow> 'w \<Rightarrow> int \<times> 'w"
  h_mkdir :: "cstr \<Rightarrow> 'w \<Rightarrow> mkdir_result \<times> 'w"
  h_stat :: "cstr \<Rightarrow> 'w \<Rightarrow> stat_result"
  h_access :: "cstr \<Rightarrow> 'w \<Rightarrow> bool"
  h_chmod :: "cstr \<Rightarrow> 'w \<Rightarrow> 'w"
  h_fopen :: "cstr \<Rightarrow> fmode \<Rightarrow> 'w \<Rightarrow> bool \<times> 'w"
  h_content :: "cstr \<Rightarrow> 'w \<Rightarrow> string"
  h_fwrite :: "cstr \<Rightarrow> string \<Rightarrow> 'w \<Rightarrow> 'w"
  h_time :: "'w \<Rightarrow> int \<times> 'w"
  h_localtime_ok :: "int \<Rightarrow> bool"
  h_setdetach_ok :: "'w \<Rightarrow> bool"
  h_pthread_create :: "'w \<Rightarrow> bool \<times> 'w"

section \<open>Directories and files (\<open>util/vrtmCommon.cpp\<close>, Linux)\<close>

definition make_dir :: "'w host \<Rightarrow> cstr \<Rightarrow> 'w \<Rightarrow> int \<times> 'w" where
  "make_dir H dir_name w =
     (case h_mkdir H dir_name w of
        (MkdirOk, w') \<Rightarrow> (0, w')
      | (MkdirExists, w') \<Rightarrow> (0, w')
      | (MkdirFailed, w') \<Rightarrow> (- 1, w'))"

definition remove_dir :: "'w host \<Rightarrow> cstr \<Rightarrow> 'w \<Rightarrow> int \<times> 'w" where
  "remove_dir H dir_name w = h_system H (snprintf 2048 (''rm -rf '' @ dir_name)) w"

definition copy_file :: "'w host \<Rightarrow> cstr \<Rightarrow> cstr \<Rightarrow> 'w \<Rightarrow> int \<times> 'w" where
  "copy_file H existing_file_name new_file_name w =
     h_system H (snprintf 2048 (''cp -p '' @ existing_file_name @ '' '' @ new_file_name)) w"

lemma make_dir_result: "fst (make_dir H d w) \<in> {0, - 1}"
  by (auto simp: make_dir_def split: prod.splits mkdir_result.splits)

lemma make_dir_ok_iff:
  "fst (make_dir H d w) = 0 \<longleftrightarrow> fst (h_mkdir H d w) \<noteq> MkdirFailed"
  by (auto simp: make_dir_def split: prod.splits mkdir_result.splits)

section \<open>The configuration globals (\<open>vrtmcore/vrtmcoremain.cpp\<close>)\<close>

record globals =
  g_vrtmcore_ip :: cstr
  g_vrtmcore_port :: int
  g_max_thread_limit :: int
  g_vrtm_root :: cstr
  g_trust_report_dir :: cstr
  g_entry_cleanup_interval :: int
  g_cancelled_vm_max_age :: int
  g_deployment_type :: cstr
  g_mount_path :: cstr

definition default_globals :: "platform \<Rightarrow> globals" where
  "default_globals plat =
     \<lparr>g_vrtmcore_ip = ''127.0.0.1'', g_vrtmcore_port = 16005, g_max_thread_limit = 64,
      g_vrtm_root = ''../'',
      g_trust_report_dir =
        (case plat of Linux \<Rightarrow> ''/var/log/trustreports/''
         | Windows \<Rightarrow> ''C:/OpenStack/Log/trustreports''),
      g_entry_cleanup_interval = 30, g_cancelled_vm_max_age = 86400,
      g_deployment_type = ''vm'', g_mount_path = ''/mnt/vrtm/''\<rparr>"

section \<open>A reference host\<close>

text \<open>
  A small executable world for the witnesses: files by name, the directories that exist,
  the commands run so far (most recent first) with a table of their exit statuses, and a
  clock.  It is an instance of the parameter, not a model of any source file.
\<close>

record ref_world =
  rw_files :: "(cstr, string) smap"
  rw_dirs :: "cstr list"
  rw_commands :: "cstr list"
  rw_exit :: "(cstr, int) smap"
  rw_clock :: int

definition ref_set_file :: "cstr \<Rightarrow> string \<Rightarrow> (cstr, string) smap \<Rightarrow> (cstr, string) smap" where
  "ref_set_file p c fs = (p, c) # filter (\<lambda>(q, _). q \<noteq> p) fs"

definition ref_file :: "ref_world \<Rightarrow> cstr \<Rightarrow> string" where
  "ref_file w p = map_get [] (rw_files w) p"

definition ref_host :: "ref_world host" where
  "ref_host =
     \<lparr>h_system = (\<lambda>c w. (map_get 0 (rw_exit w) c, w\<lparr>rw_commands := c # rw_commands w\<rparr>)),
      h_mkdir = (\<lambda>d w. if d \<in> set (rw_dirs w) then (MkdirExists, w)
                       else (MkdirOk, w\<lparr>rw_dirs := d # rw_dirs w\<rparr>)),
      h_stat = (\<lambda>d w. if d \<in> set (rw_dirs w) then StatDir else StatFails),
      h_access = (\<lambda>f w. map_of (rw_files w) f \<noteq> None),
      h_chmod = (\<lambda>f w. w),
      h_fopen = (\<lambda>f m w. case m of
          ForRead \<Rightarrow> (map_of (rw_files w) f \<noteq> None, w)
        | ForWrite \<Rightarrow> (True, w\<lparr>rw_files := ref_set_file f [] (rw_files w)\<rparr>)
        | ForAppend \<Rightarrow> (True, w\<lparr>rw_files := ref_set_file f (ref_file w f) (rw_files w)\<rparr>)),
      h_content = (\<lambda>f w. ref_file w f),
      h_fwrite = (\<lambda>f c w. w\<lparr>rw_files := ref_set_file f (ref_file w f @ c) (rw_files w)\<rparr>),
      h_time = (\<lambda>w. (rw_clock w, w)),
      h_localtime_ok = (\<lambda>_. True),
      h_setdetach_ok = (\<lambda>_. True),
      h_pthread_create = (\<lambda>w. (True, w))\<rparr>"

definition ref_world0 :: ref_world where
  "ref_world0 = \<lparr>rw_files = [], rw_dirs = [], rw_commands = [], rw_exit = [], rw_clock = 1000\<rparr>"

end
