(* ===== verification/Proc_Table.thy ===== *)
theory Proc_Table
  imports Host
begin

text \<open>
  The process table of the vRTM core: \<open>serviceprocEnt\<close> and \<open>serviceprocTable\<close> of
  \<open>vrtmcore/modtcService.h\<close> and \<open>.cpp\<close>, one definition per method, plus the service
  clean-up trigger \<open>cleanupService\<close> that \<open>updateprocEntry\<close> ends with.  Each method holds
  the table's mutex for its whole body, so one application of a definition is one atomic
  step of the program.
\<close>

section \<open>Constants of \<open>modtcService.h\<close>\<close>

abbreviation VM_STATUS_UNKNOWN :: int where "VM_STATUS_UNKNOWN \<equiv> - 1"
abbreviation VM_STATUS_CANCELLED :: int where "VM_STATUS_CANCELLED \<equiv> 0"
abbreviation VM_STATUS_STARTED :: int where "VM_STATUS_STARTED \<equiv> 1"
abbreviation VM_STATUS_STOPPED :: int where "VM_STATUS_STOPPED \<equiv> 2"
abbreviation VM_STATUS_DELETED :: int where "VM_STATUS_DELETED \<equiv> 3"
abbreviation INSTANCE_TYPE_VM :: int where "INSTANCE_TYPE_VM \<equiv> 0"
abbreviation INSTANCE_TYPE_DOCKER :: int where "INSTANCE_TYPE_DOCKER \<equiv> 1"

abbreviation RG_HASH_SIZE :: nat where "RG_HASH_SIZE \<equiv> 32"
abbreviation UUID_SIZE :: nat where "UUID_SIZE \<equiv> 65"
abbreviation IMAGE_ID_SIZE :: nat where "IMAGE_ID_SIZE \<equiv> 256"
abbreviation CUSTOMER_ID_SIZE :: nat where "CUSTOMER_ID_SIZE \<equiv> 256"
abbreviation MANIFEST_HASH_SIZE :: nat where "MANIFEST_HASH_SIZE \<equiv> 65"
abbreviation MANIFEST_SIGNATURE_SIZE :: nat where "MANIFEST_SIGNATURE_SIZE \<equiv> 512"
abbreviation LAUNCH_POLICY_SIZE :: nat where "LAUNCH_POLICY_SIZE \<equiv> 15"
abbreviation MANIFEST_DIR_SIZE :: nat where "MANIFEST_DIR_SIZE \<equiv> 1024"
abbreviation INSTANCENAME_SIZE :: nat where "INSTANCENAME_SIZE \<equiv> 512"
abbreviation g_max_uuid :: nat where "g_max_uuid \<equiv> 65"
abbreviation g_sz_uuid :: nat where "g_sz_uuid \<equiv> 36"

section \<open>Entries\<close>

record serviceprocEnt =
  m_procid :: int
  m_sizeHash :: int
  m_size_vm_image_id :: int
  m_size_vm_customer_id :: int
  m_size_vm_manifest_hash :: int
  m_size_vm_manifest_signature :: int
  m_size_vm_launch_policy :: int
  m_size_vm_manifest_dir :: int
  m_rgHash :: "u8 list"
  m_uuid :: cstr
  m_instance_name :: cstr
  m_vdi_uuid :: cstr
  m_szexeFile :: "cstr option"
  m_nArgs :: int
  m_vm_image_id :: cstr
  m_vm_customer_id :: cstr
  m_vm_manifest_hash :: cstr
  m_vm_manifest_signature :: cstr
  m_vm_launch_policy :: cstr
  m_vm_verfication_status :: bool
  m_vm_manifest_dir :: cstr
  m_vm_status :: int
  m_status_upadation_time :: int
  m_instance_type :: int

text \<open>The constructor; \<open>now\<close> is what its call of \<open>time(NULL)\<close> returned.\<close>

definition new_serviceprocEnt :: "int \<Rightarrow> serviceprocEnt" where
  "new_serviceprocEnt now =
     \<lparr>m_procid = 0, m_sizeHash = 0, m_size_vm_image_id = 0, m_size_vm_customer_id = 0,
      m_size_vm_manifest_hash = 0, m_size_vm_manifest_signature = 0,
      m_size_vm_launch_policy = 0, m_size_vm_manifest_dir = 0,
      m_rgHash = replicate RG_HASH_SIZE 0, m_uuid = [], m_instance_name = [],
      m_vdi_uuid = [], m_szexeFile = None, m_nArgs = 0, m_vm_image_id = [],
      m_vm_customer_id = [], m_vm_manifest_hash = [], m_vm_manifest_signature = [],
      m_vm_launch_policy = [], m_vm_verfication_status = False, m_vm_manifest_dir = [],
      m_vm_status = VM_STATUS_STOPPED, m_status_upadation_time = now,
      m_instance_type = INSTANCE_TYPE_VM\<rparr>"

type_synonym ptab = "(int, serviceprocEnt) smap"

text \<open>
  The state of the core that outlives a request: the table, the flag
  \<open>g_cleanup_service_status\<close>, the number of clean-up threads that have been started and
  have not returned, and the world.
\<close>

record 'w core =
  proc_table :: ptab
  cleanup_status :: int
  cleaners :: nat
  os :: 'w

section \<open>Reading the table\<close>

definition getEntfromprocId :: "int \<Rightarrow> ptab \<Rightarrow> serviceprocEnt option" where
  "getEntfromprocId procid t = map_of t procid"

text \<open>
  The loop over the table, in key order; \<open>NULL\<close> (0) when no entry matches, which the
  callers cannot tell from an entry with the key 0.
\<close>

fun getprocIdfromuuid :: "cstr \<Rightarrow> ptab \<Rightarrow> int" where
  "getprocIdfromuuid uuid [] = 0"
| "getprocIdfromuuid uuid ((k, e) # t) =
     (if m_uuid e = uuid then k else getprocIdfromuuid uuid t)"

fun find_instance_name :: "cstr \<Rightarrow> ptab \<Rightarrow> int" where
  "find_instance_name nm [] = 0"
| "find_instance_name nm ((k, e) # t) =
     (if m_instance_name e = nm then k else find_instance_name nm t)"

definition getprocIdfrominstance_name :: "cstr option \<Rightarrow> ptab \<Rightarrow> int" where
  "getprocIdfrominstance_name docker_instance_name t =
     (case docker_instance_name of None \<Rightarrow> 0 | Some nm \<Rightarrow> find_instance_name nm t)"

definition getproctablesize :: "ptab \<Rightarrow> int" where
  "getproctablesize t = int (length t)"

fun getcancelledvmcount :: "ptab \<Rightarrow> int" where
  "getcancelledvmcount [] = 0"
| "getcancelledvmcount ((k, e) # t) =
     (if m_vm_status e = VM_STATUS_CANCELLED then 1 + getcancelledvmcount t
      else getcancelledvmcount t)"

text \<open>Inserts into the caller's \<open>std::set\<close>, and returns the size of that set.\<close>

fun insert_active :: "(cstr, unit) smap \<Rightarrow> ptab \<Rightarrow> (cstr, unit) smap" where
  "insert_active vms [] = vms"
| "insert_active vms ((k, e) # t) =
     insert_active
       (if m_instance_type e = INSTANCE_TYPE_VM \<and> m_vm_status e \<noteq> VM_STATUS_CANCELLED
        then map_insert (m_uuid e) () vms else vms) t"

definition getactivevmsuuid :: "(cstr, unit) smap \<Rightarrow> ptab \<Rightarrow> int \<times> (cstr, unit) smap" where
  "getactivevmsuuid active_vms t =
     (let vms = insert_active active_vms t in (int (length vms), vms))"

section \<open>Changing the table\<close>

text \<open>
  The entry \<open>addprocEntry\<close> builds.  \<open>av0\<close> is its argument \<open>av[0]\<close>; a negative size reaches
  \<open>memcpy_s\<close> as a huge unsigned count, which clears the destination.
\<close>

definition fresh_entry ::
  "platform \<Rightarrow> int \<Rightarrow> cstr \<Rightarrow> cstr \<Rightarrow> int \<Rightarrow> u8 list \<Rightarrow> int \<Rightarrow> serviceprocEnt"
where
  "fresh_entry plat now file av0 sizeHash hash instance_type =
     (let e = new_serviceprocEnt now;
          e = e\<lparr>m_szexeFile := Some file, m_sizeHash := sizeHash\<rparr>;
          e = (if instance_type = INSTANCE_TYPE_VM
               then e\<lparr>m_vm_status :=
                      (case plat of Windows \<Rightarrow> VM_STATUS_STARTED | Linux \<Rightarrow> VM_STATUS_STOPPED)\<rparr>
               else e\<lparr>m_vm_status := VM_STATUS_STARTED\<rparr>)
      in e\<lparr>m_uuid := strcpy_s UUID_SIZE av0,
           m_rgHash := (if sizeHash < 0 then replicate RG_HASH_SIZE 0
                        else memcpy_s RG_HASH_SIZE (m_rgHash e) hash (nat sizeHash)),
           m_instance_type := instance_type\<rparr>)"

definition addprocEntry ::
  "'w host \<Rightarrow> platform \<Rightarrow> int \<Rightarrow> cstr \<Rightarrow> cstr \<Rightarrow> int \<Rightarrow> u8 list \<Rightarrow> int \<Rightarrow> 'w core \<Rightarrow> bool \<times> 'w core"
where
  "addprocEntry H plat procid file av0 sizeHash hash instance_type s =
     (if sizeHash > 32 then (False, s)
      else let (now, w) = h_time H (os s);
               e = fresh_entry plat now file av0 sizeHash hash instance_type
           in (True, s\<lparr>proc_table := map_insert procid e (proc_table s), os := w\<rparr>))"

definition removeprocEntry :: "'w host \<Rightarrow> int \<Rightarrow> 'w core \<Rightarrow> bool \<times> 'w core" where
  "removeprocEntry H procid s =
     (case map_of (proc_table s) procid of
        None \<Rightarrow> (False, s)
      | Some e \<Rightarrow>
          (let (_, w) = remove_dir H (m_vm_manifest_dir e) (os s)
           in (True, s\<lparr>proc_table := map_erase procid (proc_table s), os := w\<rparr>)))"

definition removeprocEntry_uuid :: "'w host \<Rightarrow> cstr \<Rightarrow> 'w core \<Rightarrow> bool \<times> 'w core" where
  "removeprocEntry_uuid H uuid s =
     (let proc_id = getprocIdfromuuid uuid (proc_table s)
      in if proc_id = 0 then (False, s) else removeprocEntry H proc_id s)"

definition updateprocEntry_uuid :: "int \<Rightarrow> cstr \<Rightarrow> cstr \<Rightarrow> 'w core \<Rightarrow> bool \<times> 'w core" where
  "updateprocEntry_uuid procid uuid vdi_uuid s =
     (case map_of (proc_table s) procid of
        None \<Rightarrow> (False, s)
      | Some _ \<Rightarrow>
          (True, s\<lparr>proc_table := map_modify procid
             (\<lambda>e. e\<lparr>m_uuid := take g_sz_uuid uuid, m_vdi_uuid := take g_sz_uuid vdi_uuid\<rparr>)
             (proc_table s)\<rparr>))"

text \<open>
  \<open>cleanupService\<close>: the Linux part (lines 2168-2187).  The result of \<open>pthread_create\<close> is
  not looked at; \<open>g_cleanup_service_status\<close> becomes 1 in either case.
\<close>

definition cleanupService :: "'w host \<Rightarrow> 'w core \<Rightarrow> 'w core" where
  "cleanupService H s =
     (if cleanup_status s = 1 then s
      else if getcancelledvmcount (proc_table s) = 0 then s
      else if h_setdetach_ok H (os s)
           then let (created, w) = h_pthread_create H (os s)
                in s\<lparr>cleaners := (if created then Suc (cleaners s) else cleaners s),
                     cleanup_status := 1, os := w\<rparr>
           else s)"

text \<open>The data an update writes into an entry.\<close>

record vm_meta =
  vm_image_id :: cstr
  vm_customer_id :: cstr
  vm_manifest_hash :: cstr
  vm_manifest_signature :: cstr
  launch_policy :: cstr
  verification_status :: bool
  vm_manifest_dir :: cstr

definition set_meta :: "vm_meta \<Rightarrow> serviceprocEnt \<Rightarrow> serviceprocEnt" where
  "set_meta d e =
     (let image_id = strcpy_s IMAGE_ID_SIZE (vm_image_id d);
          customer_id = strcpy_s CUSTOMER_ID_SIZE (vm_customer_id d);
          signature = strcpy_s MANIFEST_SIGNATURE_SIZE (vm_manifest_signature d);
          hash = strcpy_s MANIFEST_HASH_SIZE (vm_manifest_hash d);
          dir = strcpy_s MANIFEST_DIR_SIZE (vm_manifest_dir d);
          policy = strcpy_s LAUNCH_POLICY_SIZE (launch_policy d)
      in e\<lparr>m_vm_image_id := image_id,
           m_size_vm_image_id := int (strnlen_s image_id IMAGE_ID_SIZE),
           m_vm_customer_id := customer_id,
           m_size_vm_customer_id := int (strnlen_s customer_id CUSTOMER_ID_SIZE),
           m_vm_manifest_signature := signature,
           m_size_vm_manifest_signature := int (strnlen_s signature MANIFEST_SIGNATURE_SIZE),
           m_vm_manifest_hash := hash,
           m_size_vm_manifest_hash := int (strnlen_s hash MANIFEST_HASH_SIZE),
           m_vm_manifest_dir := dir,
           m_size_vm_manifest_dir := int (strnlen_s dir MANIFEST_DIR_SIZE),
           m_vm_launch_policy := policy,
           m_size_vm_launch_policy := int (strnlen_s policy LAUNCH_POLICY_SIZE),
           m_vm_verfication_status := verification_status d\<rparr>)"

definition set_launch_status :: "platform \<Rightarrow> vm_meta \<Rightarrow> serviceprocEnt \<Rightarrow> serviceprocEnt" where
  "set_launch_status plat d e =
     (if \<not> verification_status d \<and> launch_policy d = ''Enforce''
      then e\<lparr>m_vm_status := VM_STATUS_CANCELLED\<rparr>
      else if m_instance_type e = INSTANCE_TYPE_DOCKER
           then e\<lparr>m_vm_status := VM_STATUS_STARTED\<rparr>
      else case plat of Windows \<Rightarrow> e\<lparr>m_vm_status := VM_STATUS_STARTED\<rparr> | Linux \<Rightarrow> e)"

definition set_instance_name :: "cstr option \<Rightarrow> serviceprocEnt \<Rightarrow> serviceprocEnt" where
  "set_instance_name nm e =
     (case nm of None \<Rightarrow> e
      | Some n \<Rightarrow> e\<lparr>m_instance_name := strcpy_s INSTANCENAME_SIZE n\<rparr>)"

definition updateprocEntry ::
  "'w host \<Rightarrow> platform \<Rightarrow> int \<Rightarrow> vm_meta \<Rightarrow> cstr option \<Rightarrow> 'w core \<Rightarrow> bool \<times> 'w core"
where
  "updateprocEntry H plat procid d instance_name s =
     (case map_of (proc_table s) procid of
        None \<Rightarrow> (False, s)
      | Some _ \<Rightarrow>
          (let t = map_modify procid
                     (\<lambda>e. set_instance_name instance_name (set_launch_status plat d (set_meta d e)))
                     (proc_table s)
           in (True, cleanupService H (s\<lparr>proc_table := t\<rparr>))))"

end
