(* ===== verification/Proc_Invariants.thy ===== *)
theory Proc_Invariants
  imports Proc_Table
begin

text \<open>
  What every operation of the process table keeps.

  The locale \<open>entry_invariant\<close> is the contract of a property of single entries: it holds
  of the entry \<open>addprocEntry\<close> builds and survives each of the four ways an entry is
  rewritten.  Inside the locale the property is lifted to the whole table for every
  operation.  It is interpreted twice: on the buffer bounds \<open>ent_ok\<close>, and on \<open>enforced\<close>, the
  security property that an entry whose verification failed under the policy \<open>Enforce\<close> is
  in the state CANCELLED.
\<close>

section \<open>Properties of all entries\<close>

definition table_all :: "(serviceprocEnt \<Rightarrow> bool) \<Rightarrow> ptab \<Rightarrow> bool" where
  "table_all P t \<longleftrightarrow> map_ok t \<and> (\<forall>(k, e) \<in> set t. P e)"

lemma table_all_Nil [simp]: "table_all P []"
  by (simp add: table_all_def)

lemma table_all_map_ok: "table_all P t \<Longrightarrow> map_ok t"
  by (simp add: table_all_def)

lemma table_allD: "table_all P t \<Longrightarrow> map_of t k = Some e \<Longrightarrow> P e"
  unfolding table_all_def by (metis case_prodD map_of_SomeD)

lemma table_all_insert: "table_all P t \<Longrightarrow> P e \<Longrightarrow> table_all P (map_insert k e t)"
  unfolding table_all_def
  using smap.all_entries_insert [of t "\<lambda>_. P" k e] by (auto intro: smap.invar_insert)

lemma table_all_erase: "table_all P t \<Longrightarrow> table_all P (map_erase k t)"
  unfolding table_all_def
  using smap.all_entries_erase [of t "\<lambda>_. P" k] by (auto intro: smap.invar_erase)

lemma table_all_modify:
  "table_all P t \<Longrightarrow> (\<And>e. P e \<Longrightarrow> map_of t k = Some e \<Longrightarrow> P (f e)) \<Longrightarrow> table_all P (map_modify k f t)"
  unfolding table_all_def
  by (fastforce simp: smap.in_entries_modify smap.entries_lookup split: if_splits
      intro: smap.invar_modify)

lemma cleanupService_proc_table [simp, table_simps]:
  "proc_table (cleanupService H s) = proc_table s"
  by (simp add: cleanupService_def Let_def split: prod.splits)

section \<open>The contract of an invariant of entries\<close>

text \<open>How \<open>UpdateAppStatus\<close> rewrites an entry that is not cancelled.\<close>

abbreviation set_status :: "int \<Rightarrow> int \<Rightarrow> serviceprocEnt \<Rightarrow> serviceprocEnt" where
  "set_status t st e \<equiv> e\<lparr>m_status_upadation_time := t, m_vm_status := st\<rparr>"

locale entry_invariant =
  fixes P :: "serviceprocEnt \<Rightarrow> bool"
  assumes P_new: "sizeHash \<le> 32 \<Longrightarrow> nat sizeHash \<le> length hash \<Longrightarrow>
        P (fresh_entry plat now file av0 sizeHash hash itype)"
    and P_meta: "P e \<Longrightarrow> P (set_launch_status plat d (set_meta d e))"
    and P_name: "P e \<Longrightarrow> P (set_instance_name nm e)"
    and P_uuid: "P e \<Longrightarrow> P (e\<lparr>m_uuid := take g_sz_uuid u, m_vdi_uuid := take g_sz_uuid v\<rparr>)"
    and P_time: "P e \<Longrightarrow> P (e\<lparr>m_status_upadation_time := t\<rparr>)"
    and P_status: "P e \<Longrightarrow> m_vm_status e \<noteq> VM_STATUS_CANCELLED \<Longrightarrow> P (set_status t st e)"
begin

lemma addprocEntry_all:
  "table_all P (proc_table s) \<Longrightarrow> nat sizeHash \<le> length hash \<Longrightarrow>
   table_all P (proc_table (snd (addprocEntry H plat procid file av0 sizeHash hash itype s)))"
  by (auto simp: addprocEntry_def Let_def split: prod.splits intro!: table_all_insert P_new)

lemma removeprocEntry_all:
  "table_all P (proc_table s) \<Longrightarrow> table_all P (proc_table (snd (removeprocEntry H procid s)))"
  by (auto simp: removeprocEntry_def Let_def split: prod.splits option.splits
      intro!: table_all_erase)

lemma removeprocEntry_uuid_all:
  "table_all P (proc_table s) \<Longrightarrow> table_all P (proc_table (snd (removeprocEntry_uuid H uuid s)))"
  by (simp add: removeprocEntry_uuid_def Let_def removeprocEntry_all)

lemma updateprocEntry_uuid_all:
  "table_all P (proc_table s) \<Longrightarrow>
   table_all P (proc_table (snd (updateprocEntry_uuid procid uuid vdi s)))"
  by (auto simp: updateprocEntry_uuid_def split: option.splits intro!: table_all_modify P_uuid)

lemma updateprocEntry_all:
  "table_all P (proc_table s) \<Longrightarrow>
   table_all P (proc_table (snd (updateprocEntry H plat procid d nm s)))"
  by (auto simp: updateprocEntry_def Let_def split: option.splits
      intro!: table_all_modify P_name P_meta)

lemma set_status_all:
  "table_all P t \<Longrightarrow> map_of t k = Some e \<Longrightarrow> m_vm_status e \<noteq> VM_STATUS_CANCELLED \<Longrightarrow>
   table_all P (map_modify k (set_status now st) t)"
  by (rule table_all_modify) (auto intro: P_status)

lemma set_time_all:
  "table_all P t \<Longrightarrow> table_all P (map_modify k (\<lambda>e. e\<lparr>m_status_upadation_time := now\<rparr>) t)"
  by (rule table_all_modify) (auto intro: P_time)

end

section \<open>Buffer bounds of an entry\<close>

text \<open>
  Every string fits its array with its terminating NUL, and each size field is the length
  of its string.
\<close>

definition ent_ok :: "serviceprocEnt \<Rightarrow> bool" where
  "ent_ok e \<longleftrightarrow>
     length (m_rgHash e) = RG_HASH_SIZE \<and>
     length (m_uuid e) < UUID_SIZE \<and> length (m_vdi_uuid e) < UUID_SIZE \<and>
     length (m_instance_name e) < INSTANCENAME_SIZE \<and>
     length (m_vm_image_id e) < IMAGE_ID_SIZE \<and>
     m_size_vm_image_id e = int (length (m_vm_image_id e)) \<and>
     length (m_vm_customer_id e) < CUSTOMER_ID_SIZE \<and>
     m_size_vm_customer_id e = int (length (m_vm_customer_id e)) \<and>
     length (m_vm_manifest_hash e) < MANIFEST_HASH_SIZE \<and>
     m_size_vm_manifest_hash e = int (length (m_vm_manifest_hash e)) \<and>
     length (m_vm_manifest_signature e) < MANIFEST_SIGNATURE_SIZE \<and>
     m_size_vm_manifest_signature e = int (length (m_vm_manifest_signature e)) \<and>
     length (m_vm_launch_policy e) < LAUNCH_POLICY_SIZE \<and>
     m_size_vm_launch_policy e = int (length (m_vm_launch_policy e)) \<and>
     length (m_vm_manifest_dir e) < MANIFEST_DIR_SIZE \<and>
     m_size_vm_manifest_dir e = int (length (m_vm_manifest_dir e))"

lemma ent_ok_fresh:
  "sizeHash \<le> 32 \<Longrightarrow> nat sizeHash \<le> length hash \<Longrightarrow>
   ent_ok (fresh_entry plat now file av0 sizeHash hash itype)"
  by (auto simp: ent_ok_def fresh_entry_def new_serviceprocEnt_def Let_def memcpy_s_length)

lemma strnlen_s_strcpy_s [simp]:
  "0 < dmax \<Longrightarrow> strnlen_s (strcpy_s dmax s) dmax = length (strcpy_s dmax s)"
  using less_imp_le [OF strcpy_s_length] by simp

lemma ent_ok_set_meta: "ent_ok e \<Longrightarrow> ent_ok (set_meta d e)"
  by (simp add: ent_ok_def set_meta_def Let_def)

lemma ent_ok_launch_status: "ent_ok e \<Longrightarrow> ent_ok (set_launch_status plat d e)"
  by (simp add: ent_ok_def set_launch_status_def split: platform.splits)

lemma ent_ok_instance_name: "ent_ok e \<Longrightarrow> ent_ok (set_instance_name nm e)"
  by (simp add: ent_ok_def set_instance_name_def split: option.splits)

lemma ent_ok_uuid:
  "ent_ok e \<Longrightarrow> ent_ok (e\<lparr>m_uuid := take g_sz_uuid u, m_vdi_uuid := take g_sz_uuid v\<rparr>)"
  by (auto simp: ent_ok_def)

interpretation ent: entry_invariant ent_ok
  by unfold_locales
    (simp_all add: ent_ok_fresh ent_ok_set_meta ent_ok_launch_status ent_ok_instance_name
      ent_ok_uuid, simp_all add: ent_ok_def)

section \<open>Failed verification under \<open>Enforce\<close> is recorded as CANCELLED\<close>

definition enforced :: "serviceprocEnt \<Rightarrow> bool" where
  "enforced e \<longleftrightarrow>
     (\<not> m_vm_verfication_status e \<and> m_vm_launch_policy e = ''Enforce'' \<longrightarrow>
      m_vm_status e = VM_STATUS_CANCELLED)"

lemma enforced_fresh: "enforced (fresh_entry plat now file av0 sizeHash hash itype)"
  by (simp add: enforced_def fresh_entry_def new_serviceprocEnt_def Let_def)

lemma strcpy_s_eq_nonempty: "strcpy_s dmax s = c # cs \<Longrightarrow> s = c # cs"
  by (simp add: strcpy_s_def split: if_splits)

lemma enforced_launch: "enforced (set_launch_status plat d (set_meta d e))"
  by (auto simp: enforced_def set_launch_status_def set_meta_def Let_def
      dest: strcpy_s_eq_nonempty split: platform.splits)

lemma enforced_instance_name: "enforced e \<Longrightarrow> enforced (set_instance_name nm e)"
  by (simp add: enforced_def set_instance_name_def split: option.splits)

interpretation enf: entry_invariant enforced
  by unfold_locales
    (simp_all add: enforced_fresh enforced_launch enforced_instance_name,
      auto simp: enforced_def)

section \<open>UUIDs identify entries\<close>

definition uuids_distinct :: "ptab \<Rightarrow> bool" where
  "uuids_distinct t \<longleftrightarrow> distinct (map (\<lambda>(k, e). m_uuid e) t)"

definition keys_nonzero :: "ptab \<Rightarrow> bool" where
  "keys_nonzero t \<longleftrightarrow> (\<forall>(k, e) \<in> set t. k \<noteq> 0)"

lemma getprocIdfromuuid_found:
  "getprocIdfromuuid uuid t = k \<Longrightarrow> k \<noteq> 0 \<Longrightarrow> \<exists>e. (k, e) \<in> set t \<and> m_uuid e = uuid"
  by (induction uuid t rule: getprocIdfromuuid.induct) (auto split: if_splits)

lemma getprocIdfromuuid_lookup:
  "map_ok t \<Longrightarrow> getprocIdfromuuid uuid t = k \<Longrightarrow> k \<noteq> 0 \<Longrightarrow>
   \<exists>e. map_of t k = Some e \<and> m_uuid e = uuid"
  using getprocIdfromuuid_found [of uuid t k] by (auto simp: in_set_map_of)

lemma getprocIdfromuuid_none:
  "keys_nonzero t \<Longrightarrow> getprocIdfromuuid uuid t = 0 \<longleftrightarrow> (\<forall>(k, e) \<in> set t. m_uuid e \<noteq> uuid)"
  by (induction uuid t rule: getprocIdfromuuid.induct) (auto simp: keys_nonzero_def)

lemma getprocIdfromuuid_unique:
  "uuids_distinct t \<Longrightarrow> (k, e) \<in> set t \<Longrightarrow> getprocIdfromuuid (m_uuid e) t = k"
proof (induction t)
  case (Cons a t)
  obtain j f where a: "a = (j, f)" by force
  from Cons show ?case by (force simp: uuids_distinct_def a image_iff split_beta)
qed simp

lemma find_instance_name_found:
  "find_instance_name nm t = k \<Longrightarrow> k \<noteq> 0 \<Longrightarrow> \<exists>e. (k, e) \<in> set t \<and> m_instance_name e = nm"
  by (induction nm t rule: find_instance_name.induct) (auto split: if_splits)

lemma uuids_modify:
  "(\<And>e. m_uuid (f e) = m_uuid e) \<Longrightarrow>
   map (\<lambda>(k, e). m_uuid e) (map_modify k f t) = map (\<lambda>(k, e). m_uuid e) t"
  by (induction t) (auto simp: map_modify_def)

lemma uuids_distinct_modify:
  "(\<And>e. m_uuid (f e) = m_uuid e) \<Longrightarrow> uuids_distinct (map_modify k f t) = uuids_distinct t"
  by (simp add: uuids_distinct_def uuids_modify)

lemma uuids_distinct_erase: "uuids_distinct t \<Longrightarrow> uuids_distinct (map_erase k t)"
  by (induction t) (auto simp: uuids_distinct_def map_erase_def)

lemma set_map_insert_subset: "set (map_insert k e t) \<subseteq> insert (k, e) (set t)"
  by (induction k e t rule: map_insert.induct) auto

lemma uuids_distinct_insert:
  "uuids_distinct t \<Longrightarrow> (\<forall>(j, u) \<in> set t. m_uuid u \<noteq> m_uuid e) \<Longrightarrow>
   uuids_distinct (map_insert k e t)"
proof (induction k e t rule: map_insert.induct)
  case (2 k e j u t)
  have "m_uuid u \<notin> (\<lambda>(k, e). m_uuid e) ` set (map_insert k e t)"
    using 2(2,3) set_map_insert_subset [of k e t] by (fastforce simp: uuids_distinct_def)
  with 2 show ?case by (fastforce simp: uuids_distinct_def)
qed (simp add: uuids_distinct_def)

lemma keys_nonzero_insert: "keys_nonzero t \<Longrightarrow> k \<noteq> 0 \<Longrightarrow> keys_nonzero (map_insert k e t)"
  using set_map_insert_subset [of k e t] by (fastforce simp: keys_nonzero_def)

lemma keys_nonzero_erase: "keys_nonzero t \<Longrightarrow> keys_nonzero (map_erase k t)"
  by (auto simp: keys_nonzero_def map_erase_def)

lemma keys_nonzero_modify: "keys_nonzero (map_modify k f t) = keys_nonzero t"
  by (auto simp: keys_nonzero_def map_modify_def split_beta)

lemma m_uuid_set_meta [simp]: "m_uuid (set_meta d e) = m_uuid e"
  and m_uuid_set_launch_status [simp]: "m_uuid (set_launch_status plat d e) = m_uuid e"
  and m_uuid_set_instance_name [simp]: "m_uuid (set_instance_name nm e) = m_uuid e"
  by (simp_all add: set_meta_def set_launch_status_def set_instance_name_def Let_def
      split: platform.splits option.splits)

lemma m_uuid_fresh [simp]:
  "m_uuid (fresh_entry plat now file av0 sizeHash hash itype) = strcpy_s UUID_SIZE av0"
  by (simp add: fresh_entry_def Let_def)

section \<open>The invariant of the table\<close>

definition table_inv :: "ptab \<Rightarrow> bool" where
  "table_inv t \<longleftrightarrow>
     table_all ent_ok t \<and> table_all enforced t \<and> uuids_distinct t \<and> keys_nonzero t"

lemma table_inv_Nil [simp]: "table_inv []"
  by (simp add: table_inv_def uuids_distinct_def keys_nonzero_def)

lemma table_invD:
  assumes "table_inv t"
  shows "table_all ent_ok t" "table_all enforced t" "uuids_distinct t" "keys_nonzero t" "map_ok t"
  using assms by (auto simp: table_inv_def table_all_def)

lemma table_inv_add:
  assumes inv: "table_inv (proc_table s)" and id: "procid \<noteq> 0"
    and new: "getprocIdfromuuid av0 (proc_table s) = 0"
    and len: "length av0 < UUID_SIZE" "nat sizeHash \<le> length hash"
  shows "table_inv (proc_table (snd (addprocEntry H plat procid file av0 sizeHash hash itype s)))"
proof -
  note d = table_invD [OF inv]
  have "\<forall>(j, u) \<in> set (proc_table s). m_uuid u \<noteq> av0"
    using new getprocIdfromuuid_none [OF d(4)] by simp
  then have
    "uuids_distinct (proc_table (snd (addprocEntry H plat procid file av0 sizeHash hash itype s)))"
    "keys_nonzero (proc_table (snd (addprocEntry H plat procid file av0 sizeHash hash itype s)))"
    using d len id
    by (auto simp: addprocEntry_def Let_def uuids_distinct_insert keys_nonzero_insert
        split: prod.splits)
  with d len show ?thesis
    by (simp add: table_inv_def ent.addprocEntry_all enf.addprocEntry_all)
qed

lemma table_inv_remove:
  assumes "table_inv (proc_table s)"
  shows "table_inv (proc_table (snd (removeprocEntry H procid s)))"
proof -
  note i = table_invD [OF assms]
  have "uuids_distinct (proc_table (snd (removeprocEntry H procid s)))"
    "keys_nonzero (proc_table (snd (removeprocEntry H procid s)))"
    using i by (auto simp: removeprocEntry_def Let_def uuids_distinct_erase
        keys_nonzero_erase split: option.splits prod.splits)
  with i show ?thesis
    by (simp add: table_inv_def ent.removeprocEntry_all enf.removeprocEntry_all)
qed

lemma table_inv_remove_uuid:
  "table_inv (proc_table s) \<Longrightarrow> table_inv (proc_table (snd (removeprocEntry_uuid H uuid s)))"
  by (simp add: removeprocEntry_uuid_def Let_def table_inv_remove)

lemma table_inv_update:
  assumes "table_inv (proc_table s)"
  shows "table_inv (proc_table (snd (updateprocEntry H plat procid d nm s)))"
proof -
  note i = table_invD [OF assms]
  have "uuids_distinct (proc_table (snd (updateprocEntry H plat procid d nm s)))"
    "keys_nonzero (proc_table (snd (updateprocEntry H plat procid d nm s)))"
    using i by (auto simp: updateprocEntry_def Let_def uuids_distinct_modify
        keys_nonzero_modify split: option.splits)
  with i show ?thesis
    by (simp add: table_inv_def ent.updateprocEntry_all enf.updateprocEntry_all)
qed

lemma table_inv_set_time:
  assumes "table_inv t"
  shows "table_inv (map_modify k (\<lambda>e. e\<lparr>m_status_upadation_time := now\<rparr>) t)"
  using table_invD [OF assms]
  by (simp add: table_inv_def ent.set_time_all enf.set_time_all uuids_distinct_modify
      keys_nonzero_modify)

lemma table_inv_set_status:
  assumes "table_inv t" "map_of t k = Some e" "m_vm_status e \<noteq> VM_STATUS_CANCELLED"
  shows "table_inv (map_modify k (set_status now st) t)"
  using table_invD [OF assms(1)] assms(2,3)
  by (simp add: table_inv_def ent.set_status_all enf.set_status_all uuids_distinct_modify
      keys_nonzero_modify)

end
