(* ===== verification/Tc_Service.thy ===== *)
theory Tc_Service
  imports Proc_Invariants
begin

text \<open>
  The operations of \<open>tcServiceInterface\<close> (\<open>vrtmcore/modtcService.cpp\<close>) on the process
  table: look-ups, status updates, removal and the two clean-up passes.  A failing call is
  \<open>Inl\<close> of its result code.  \<open>GetVmMeta\<close> copies out of fixed-size arrays; where a copy
  would miss the terminating NUL the result is \<open>None\<close>.
\<close>

abbreviation TCSERVICE_RESULT_SUCCESS :: int where "TCSERVICE_RESULT_SUCCESS \<equiv> 0"
abbreviation TCSERVICE_RESULT_FAILED :: int where "TCSERVICE_RESULT_FAILED \<equiv> 10"
abbreviation EXIT_FAILURE :: int where "EXIT_FAILURE \<equiv> 1"

section \<open>Look-ups\<close>

definition GetRpId :: "cstr \<Rightarrow> ptab \<Rightarrow> int + cstr \<times> int" where
  "GetRpId vm_uuid t =
     (let proc_id = getprocIdfromuuid vm_uuid t
      in if proc_id = 0 then Inl TCSERVICE_RESULT_FAILED
         else let rpidbuf = snprintf MAX_LEN (show_int proc_id)
              in Inr (rpidbuf, int (strnlen_s rpidbuf MAX_LEN)))"

text \<open>
  \<open>memcpy_s(dest, dmax, src, n)\<close> from an array that holds the C string \<open>src\<close>: the string
  \<open>dest\<close> holds afterwards.  \<open>None\<close> when the NUL is not among the \<open>n\<close> bytes.
\<close>

definition memcpy_str :: "nat \<Rightarrow> cstr \<Rightarrow> int \<Rightarrow> cstr option" where
  "memcpy_str dmax src n =
     (if n < 0 \<or> int dmax < n then Some []
      else if n \<le> int (length src) then None else Some src)"

definition GetVmMeta ::
  "int \<Rightarrow> ptab \<Rightarrow> (int + (cstr \<times> int) \<times> (cstr \<times> int) \<times> (cstr \<times> int) \<times> (cstr \<times> int)) option"
where
  "GetVmMeta procId t =
     (case getEntfromprocId procId t of
        None \<Rightarrow> Some (Inl TCSERVICE_RESULT_FAILED)
      | Some e \<Rightarrow> do {
          imageId \<leftarrow> memcpy_str IMAGE_ID_SIZE (m_vm_image_id e) (m_size_vm_image_id e + 1);
          customerId \<leftarrow> memcpy_str CUSTOMER_ID_SIZE (m_vm_customer_id e)
                                  (m_size_vm_customer_id e + 1);
          hash \<leftarrow> memcpy_str MANIFEST_HASH_SIZE (m_vm_manifest_hash e)
                            (m_size_vm_manifest_hash e + 1);
          signature \<leftarrow> memcpy_str MANIFEST_SIGNATURE_SIZE (m_vm_manifest_signature e)
                                 (m_size_vm_manifest_signature e + 1);
          Some (Inr ((imageId, m_size_vm_image_id e), (customerId, m_size_vm_customer_id e),
                     (hash, m_size_vm_manifest_hash e),
                     (signature, m_size_vm_manifest_signature e))) })"

fun IsVerified :: "cstr \<Rightarrow> ptab \<Rightarrow> int + int" where
  "IsVerified vm_uuid [] = Inl TCSERVICE_RESULT_FAILED"
| "IsVerified vm_uuid ((k, e) # t) =
     (if m_uuid e = vm_uuid then Inr (if m_vm_verfication_status e then 1 else 0)
      else IsVerified vm_uuid t)"

section \<open>Updates\<close>

text \<open>
  \<open>TerminateApp\<close> and \<open>UpdateAppID\<close>: \<open>None\<close> is a NULL pointer; \<open>out_given\<close> says that the
  output pointers the code tests are not NULL.  The reply is the 4-byte integer 1.
\<close>

definition TerminateApp ::
  "'w host \<Rightarrow> cstr option \<Rightarrow> bool \<Rightarrow> 'w core \<Rightarrow> (int + int) \<times> 'w core"
where
  "TerminateApp H uuid out_given s =
     (case uuid of
        None \<Rightarrow> (Inl TCSERVICE_RESULT_FAILED, s)
      | Some u \<Rightarrow>
          if \<not> out_given then (Inl TCSERVICE_RESULT_FAILED, s)
          else let (ok, s') = removeprocEntry_uuid H u s
               in if ok then (Inr 1, s') else (Inl TCSERVICE_RESULT_FAILED, s'))"

definition UpdateAppID ::
  "cstr option \<Rightarrow> cstr option \<Rightarrow> cstr option \<Rightarrow> bool \<Rightarrow> 'w core \<Rightarrow> (int + int) \<times> 'w core"
where
  "UpdateAppID str_rp_id in_uuid vdi_uuid out_given s =
     (case (str_rp_id, in_uuid) of
        (Some r, Some u) \<Rightarrow>
          if \<not> out_given then (Inl TCSERVICE_RESULT_FAILED, s)
          else let rp_id = atoi r;
                   uuid = take (strnlen_s u g_max_uuid) u;
                   vuuid = (case vdi_uuid of None \<Rightarrow> [] | Some v \<Rightarrow> take (strnlen_s v g_max_uuid) v);
                   (ok, s') = updateprocEntry_uuid rp_id uuid vuuid s
               in if ok then (Inr 1, s') else (Inl TCSERVICE_RESULT_FAILED, s')
      | _ \<Rightarrow> (Inl TCSERVICE_RESULT_FAILED, s))"

text \<open>
  \<open>UpdateAppStatus\<close>: the entry of the UUID is rewritten in place; a cancelled entry is left
  alone with result SUCCESS, the status DELETED removes the entry, and the update time is
  stored before \<open>localtime\<close> is tried.
\<close>

definition UpdateAppStatus :: "'w host \<Rightarrow> cstr \<Rightarrow> int \<Rightarrow> 'w core \<Rightarrow> int \<times> 'w core" where
  "UpdateAppStatus H uuid status s =
     (let procid = getprocIdfromuuid uuid (proc_table s)
      in if procid = 0 then (TCSERVICE_RESULT_FAILED, s)
         else case getEntfromprocId procid (proc_table s) of
           None \<Rightarrow> (TCSERVICE_RESULT_FAILED, s)
         | Some e \<Rightarrow>
             if m_vm_status e = VM_STATUS_CANCELLED then (TCSERVICE_RESULT_SUCCESS, s)
             else if status = VM_STATUS_DELETED
             then let (ok, s') = removeprocEntry_uuid H uuid s
                  in (if ok then TCSERVICE_RESULT_SUCCESS else TCSERVICE_RESULT_FAILED, s')
             else let (now, w) = h_time H (os s)
                  in if h_localtime_ok H now
                     then (TCSERVICE_RESULT_SUCCESS,
                           s\<lparr>proc_table := map_modify procid (set_status now status) (proc_table s),
                             os := w\<rparr>)
                     else (TCSERVICE_RESULT_FAILED,
                           s\<lparr>proc_table := map_modify procid
                               (\<lambda>e. e\<lparr>m_status_upadation_time := now\<rparr>) (proc_table s),
                             os := w\<rparr>))"

section \<open>Clean-up of cancelled entries\<close>

text \<open>
  The age of an entry is \<open>difftime(time(NULL), \<dots>)\<close> stored in an \<open>unsigned long\<close>: a 64-bit
  word.  For an entry dated in the future the C++ conversion is undefined; the word here is
  the wrapped value x86-64 code computes.
\<close>

definition entry_age :: "int \<Rightarrow> serviceprocEnt \<Rightarrow> 64 word" where
  "entry_age now e = word_of_int (now - m_status_upadation_time e)"

fun collect_expired :: "'w host \<Rightarrow> 64 word \<Rightarrow> int \<Rightarrow> ptab \<Rightarrow> 'w \<Rightarrow> int list \<times> 'w" where
  "collect_expired H max_age vm_status [] w = ([], w)"
| "collect_expired H max_age vm_status ((k, e) # t) w =
     (if m_vm_status e = vm_status
      then let (now, w1) = h_time H w;
               (keys, w2) = collect_expired H max_age vm_status t w1
           in (if max_age \<le> entry_age now e then k # keys else keys, w2)
      else collect_expired H max_age vm_status t w)"

fun remove_keys :: "'w host \<Rightarrow> int list \<Rightarrow> 'w core \<Rightarrow> int \<times> 'w core" where
  "remove_keys H [] s = (0, s)"
| "remove_keys H (k # ks) s =
     (let (ok, s1) = removeprocEntry H k s;
          (n, s2) = remove_keys H ks s1
      in ((if ok then 1 + n else n), s2))"

definition CleanVrtmTable :: "'w host \<Rightarrow> 64 word \<Rightarrow> int \<Rightarrow> 'w core \<Rightarrow> int \<times> 'w core" where
  "CleanVrtmTable H entry_max_age vm_status s =
     (let (keys_to_del, w) = collect_expired H entry_max_age vm_status (proc_table s) (os s)
      in remove_keys H keys_to_del (s\<lparr>os := w\<rparr>))"

section \<open>Synchronisation with Hyper-V (Windows)\<close>

text \<open>
  \<open>get_hyperv_vms_status\<close> of \<open>util/hypervWMIcaller.cpp\<close>.  The WMI query itself is a
  parameter: \<open>None\<close> when COM or the query fails, else the rows (element name, enabled
  state) it enumerates.
\<close>

fun vm_list_of :: "(cstr \<times> int) list \<Rightarrow> (cstr, int) smap \<Rightarrow> (cstr, int) smap" where
  "vm_list_of [] m = m"
| "vm_list_of ((name, enabled_state) # rows) m = vm_list_of rows (map_insert name enabled_state m)"

definition hyperv_state :: "(cstr, int) smap \<Rightarrow> cstr \<Rightarrow> int" where
  "hyperv_state vm_list uuid =
     (case map_of vm_list uuid of
        Some st \<Rightarrow> if st \<in> {2, 6, 8, 9} then VM_STATUS_STARTED else VM_STATUS_STOPPED
      | None \<Rightarrow> VM_STATUS_DELETED)"

definition get_hyperv_vms_status ::
  "(cstr \<times> int) list option \<Rightarrow> (cstr, int) smap \<Rightarrow> int \<times> (cstr, int) smap"
where
  "get_hyperv_vms_status rows hyperv_vms =
     (case rows of
        None \<Rightarrow> (1, hyperv_vms)
      | Some rs \<Rightarrow> (let vm_list = vm_list_of rs []
                    in (0, map (\<lambda>(u, _). (u, hyperv_state vm_list u)) hyperv_vms)))"

fun apply_hyperv :: "'w host \<Rightarrow> (cstr, int) smap \<Rightarrow> int \<Rightarrow> int \<Rightarrow> 'w core \<Rightarrow> int \<times> int \<times> 'w core" where
  "apply_hyperv H [] deleted inactive s = (deleted, inactive, s)"
| "apply_hyperv H ((u, st) # vms) deleted inactive s =
     (if st = VM_STATUS_DELETED
      then let (ok, s') = removeprocEntry_uuid H u s
           in apply_hyperv H vms (if ok then deleted + 1 else deleted) inactive s'
      else if st = VM_STATUS_STOPPED
      then let (r, s') = UpdateAppStatus H u VM_STATUS_STOPPED s
           in apply_hyperv H vms deleted
                (if r = TCSERVICE_RESULT_SUCCESS then inactive + 1 else inactive) s'
      else apply_hyperv H vms deleted inactive s)"

definition CleanVrtmTable_and_update_vm_status ::
  "'w host \<Rightarrow> platform \<Rightarrow> (cstr \<times> int) list option \<Rightarrow> (cstr, unit) smap \<Rightarrow> int \<Rightarrow> int \<Rightarrow> 'w core
     \<Rightarrow> int \<times> int \<times> int \<times> 'w core"
where
  "CleanVrtmTable_and_update_vm_status H plat rows vms deleted_vm_count inactive s =
     (case plat of
        Linux \<Rightarrow> (TCSERVICE_RESULT_SUCCESS, deleted_vm_count, inactive, s)
      | Windows \<Rightarrow>
          (let (r, hyperv_vms) =
                 get_hyperv_vms_status rows (map (\<lambda>(u, _). (u, VM_STATUS_UNKNOWN)) vms)
           in if r = 0
              then let (d, i, s') = apply_hyperv H hyperv_vms deleted_vm_count inactive s
                   in (TCSERVICE_RESULT_SUCCESS, d, i, s')
              else (TCSERVICE_RESULT_FAILED, deleted_vm_count, inactive, s)))"

section \<open>Every operation keeps the table invariant\<close>

lemma table_inv_UpdateAppStatus:
  assumes "table_inv (proc_table s)"
  shows "table_inv (proc_table (snd (UpdateAppStatus H uuid status s)))"
  using assms
  by (auto simp: UpdateAppStatus_def getEntfromprocId_def Let_def table_inv_set_status
      table_inv_set_time split: option.splits prod.splits
      dest: table_inv_remove_uuid [where H = H and uuid = uuid])

lemma table_inv_TerminateApp:
  "table_inv (proc_table s) \<Longrightarrow> table_inv (proc_table (snd (TerminateApp H uuid og s)))"
  by (auto simp: TerminateApp_def Let_def split: option.splits prod.splits
      dest: table_inv_remove_uuid [where H = H and uuid = "the uuid"])

lemma table_inv_remove_keys:
  "table_inv (proc_table s) \<Longrightarrow> table_inv (proc_table (snd (remove_keys H ks s)))"
proof (induction ks arbitrary: s)
  case (Cons k ks)
  from Cons.IH [OF table_inv_remove [OF Cons.prems, of H k]] show ?case
    by (auto simp: Let_def split: prod.splits)
qed simp

lemma table_inv_CleanVrtmTable:
  "table_inv (proc_table s) \<Longrightarrow> table_inv (proc_table (snd (CleanVrtmTable H age st s)))"
  by (auto simp: CleanVrtmTable_def split: prod.splits intro!: table_inv_remove_keys)

lemma table_inv_apply_hyperv:
  "table_inv (proc_table s) \<Longrightarrow>
   table_inv (proc_table (snd (snd (apply_hyperv H vms d i s))))"
proof (induction H vms d i s rule: apply_hyperv.induct)
  case (2 H u st vms d i s)
  then show ?case
    using table_inv_remove_uuid [OF "2.prems", of H u]
      table_inv_UpdateAppStatus [OF "2.prems", of H u VM_STATUS_STOPPED]
    by (auto simp: Let_def split: prod.splits)
qed simp

lemma table_inv_hyperv_clean:
  "table_inv (proc_table s) \<Longrightarrow>
   table_inv (proc_table (snd (snd (snd (CleanVrtmTable_and_update_vm_status H plat rows vms d i s)))))"
  using table_inv_apply_hyperv
  by (fastforce simp: CleanVrtmTable_and_update_vm_status_def Let_def
      split: platform.splits prod.splits)

section \<open>What the operations compute\<close>

lemma removeprocEntry_result [table_simps]:
  "fst (removeprocEntry H k s) \<longleftrightarrow> map_of (proc_table s) k \<noteq> None"
  "proc_table (snd (removeprocEntry H k s)) = map_erase k (proc_table s)"
proof -
  have "map_of t k = None \<Longrightarrow> map_erase k t = t" for t :: ptab
    by (induction t) (auto simp: map_erase_def split: if_splits)
  then show "fst (removeprocEntry H k s) \<longleftrightarrow> map_of (proc_table s) k \<noteq> None"
    "proc_table (snd (removeprocEntry H k s)) = map_erase k (proc_table s)"
    by (auto simp: removeprocEntry_def Let_def split: option.splits prod.splits)
qed

lemma map_erase_erase: "map_erase j (map_erase k t) = filter (\<lambda>(i, u). i \<noteq> j \<and> i \<noteq> k) t"
  unfolding map_erase_def by (induction t) auto

text \<open>Removing a list of keys is one filter; the count is the number of keys found.\<close>

lemma remove_keys_table:
  "proc_table (snd (remove_keys H ks s)) = filter (\<lambda>(k, u). k \<notin> set ks) (proc_table s)"
proof (induction ks arbitrary: s)
  case (Cons k ks)
  have "proc_table (snd (remove_keys H (k # ks) s)) =
      filter (\<lambda>(j, u). j \<notin> set ks) (map_erase k (proc_table s))"
    using Cons.IH [of "snd (removeprocEntry H k s)"]
    by (simp add: Let_def case_prod_unfold removeprocEntry_result)
  also have "\<dots> = filter (\<lambda>(j, u). j \<notin> set (k # ks)) (proc_table s)"
    unfolding map_erase_def by (simp, rule filter_cong) auto
  finally show ?case .
qed simp

lemma remove_keys_count:
  "distinct ks \<Longrightarrow> set ks \<subseteq> fst ` set (proc_table s) \<Longrightarrow>
   fst (remove_keys H ks s) = int (length ks)"
proof (induction ks arbitrary: s)
  case (Cons k ks)
  have "set ks \<subseteq> fst ` set (map_erase k (proc_table s))"
    using Cons.prems by (force simp: map_erase_def)
  then have "fst (remove_keys H ks (snd (removeprocEntry H k s))) = int (length ks)"
    using Cons.prems by (intro Cons.IH) (simp_all add: removeprocEntry_result)
  moreover have "fst (removeprocEntry H k s)"
    using Cons.prems by (auto simp: removeprocEntry_result map_of_eq_None_iff)
  ultimately show ?case by (simp add: Let_def split_beta)
qed simp

text \<open>When the clock does not move during the pass, exactly the expired entries are collected.\<close>

definition expired :: "64 word \<Rightarrow> int \<Rightarrow> int \<Rightarrow> serviceprocEnt \<Rightarrow> bool" where
  "expired max_age vm_status now e \<longleftrightarrow> m_vm_status e = vm_status \<and> max_age \<le> entry_age now e"

definition stable_clock :: "'w host \<Rightarrow> int \<Rightarrow> bool" where
  "stable_clock H now \<longleftrightarrow> (\<forall>w. fst (h_time H w) = now)"

lemma collect_expired_keys:
  "stable_clock H now \<Longrightarrow>
   fst (collect_expired H age st t w) = map fst (filter (\<lambda>(k, e). expired age st now e) t)"
proof (induction H age st t w rule: collect_expired.induct)
  case (2 H age st k e t w)
  obtain w1 where w1: "h_time H w = (now, w1)"
    using 2(3) by (metis prod.collapse stable_clock_def)
  show ?case
    using 2(1) [OF _ w1 [symmetric]] 2(2,3) w1
    by (cases "collect_expired H age st t w1") (auto simp: expired_def)
qed simp

lemma CleanVrtmTable_filter:
  assumes ok: "map_ok (proc_table s)"
    and keys: "collect_expired H age st (proc_table s) (os s) =
      (map fst (filter (\<lambda>(k, e). expired age st now e) (proc_table s)), w)"
  shows "proc_table (snd (CleanVrtmTable H age st s)) =
           filter (\<lambda>(k, e). \<not> expired age st now e) (proc_table s)"
    and "fst (CleanVrtmTable H age st s) =
           int (length (filter (\<lambda>(k, e). expired age st now e) (proc_table s)))"
proof -
  let ?t = "proc_table s"
  let ?ks = "map fst (filter (\<lambda>(k, e). expired age st now e) ?t)"
  have clean: "CleanVrtmTable H age st s = remove_keys H ?ks (s\<lparr>os := w\<rparr>)"
    by (simp add: CleanVrtmTable_def keys)
  have iff: "k \<in> set ?ks \<longleftrightarrow> expired age st now e" if "(k, e) \<in> set ?t" for k e
    using that in_set_map_of [OF ok] by force
  have "proc_table (snd (CleanVrtmTable H age st s)) = filter (\<lambda>(k, u). k \<notin> set ?ks) ?t"
    by (simp only: clean remove_keys_table) simp
  also have "\<dots> = filter (\<lambda>(k, e). \<not> expired age st now e) ?t"
    using iff by (intro filter_cong) auto
  finally show "proc_table (snd (CleanVrtmTable H age st s)) =
      filter (\<lambda>(k, e). \<not> expired age st now e) ?t" .
  have "distinct ?ks"
    using map_ok_distinct [OF ok] by (metis distinct_map_filter)
  moreover have "set ?ks \<subseteq> fst ` set (proc_table (s\<lparr>os := w\<rparr>))"
    by auto
  ultimately show "fst (CleanVrtmTable H age st s) =
      int (length (filter (\<lambda>(k, e). expired age st now e) ?t))"
    using remove_keys_count by (metis clean length_map)
qed

lemma CleanVrtmTable_exact:
  assumes ok: "map_ok (proc_table s)" and clock: "stable_clock H now"
  shows "proc_table (snd (CleanVrtmTable H age st s)) =
           filter (\<lambda>(k, e). \<not> expired age st now e) (proc_table s)"
    and "fst (CleanVrtmTable H age st s) =
           int (length (filter (\<lambda>(k, e). expired age st now e) (proc_table s)))"
proof -
  obtain w where w: "collect_expired H age st (proc_table s) (os s) =
      (map fst (filter (\<lambda>(k, e). expired age st now e) (proc_table s)), w)"
    using collect_expired_keys [OF clock] by (metis prod.collapse)
  show "proc_table (snd (CleanVrtmTable H age st s)) =
           filter (\<lambda>(k, e). \<not> expired age st now e) (proc_table s)"
    "fst (CleanVrtmTable H age st s) =
           int (length (filter (\<lambda>(k, e). expired age st now e) (proc_table s)))"
    by (rule CleanVrtmTable_filter [OF ok w])+
qed

lemma UpdateAppStatus_cancelled:
  assumes "getprocIdfromuuid uuid (proc_table s) = k" "k \<noteq> 0"
    and "map_of (proc_table s) k = Some e" "m_vm_status e = VM_STATUS_CANCELLED"
  shows "UpdateAppStatus H uuid status s = (TCSERVICE_RESULT_SUCCESS, s)"
  using assms by (simp add: UpdateAppStatus_def getEntfromprocId_def)

lemma UpdateAppStatus_frame:
  assumes ok: "map_ok (proc_table s)" and j: "j \<noteq> getprocIdfromuuid uuid (proc_table s)"
  shows "map_of (proc_table (snd (UpdateAppStatus H uuid status s))) j = map_of (proc_table s) j"
  using ok j
  by (auto simp: UpdateAppStatus_def removeprocEntry_uuid_def Let_def split_beta
      map_lookup_simps removeprocEntry_result map_of_erase split: option.splits)

lemma memcpy_str_ok: "length s < dmax \<Longrightarrow> memcpy_str dmax s (int (length s) + 1) = Some s"
  by (simp add: memcpy_str_def)

lemma GetVmMeta_total:
  assumes "table_all ent_ok t"
  shows "GetVmMeta k t = Some (case map_of t k of
      None \<Rightarrow> Inl TCSERVICE_RESULT_FAILED
    | Some e \<Rightarrow> Inr ((m_vm_image_id e, int (length (m_vm_image_id e))),
                    (m_vm_customer_id e, int (length (m_vm_customer_id e))),
                    (m_vm_manifest_hash e, int (length (m_vm_manifest_hash e))),
                    (m_vm_manifest_signature e, int (length (m_vm_manifest_signature e)))))"
proof (cases "map_of t k")
  case (Some e)
  with assms have "ent_ok e" by (rule table_allD)
  with Some show ?thesis
    by (simp add: GetVmMeta_def getEntfromprocId_def ent_ok_def memcpy_str_ok)
qed (simp add: GetVmMeta_def getEntfromprocId_def)

lemma IsVerified_iff:
  "uuids_distinct t \<Longrightarrow> (k, e) \<in> set t \<Longrightarrow>
   IsVerified (m_uuid e) t = Inr (if m_vm_verfication_status e then 1 else 0)"
proof (induction t)
  case (Cons a t)
  then show ?case by (cases a) (force simp: uuids_distinct_def)
qed simp

lemma IsVerified_missing: "(\<forall>(k, e) \<in> set t. m_uuid e \<noteq> u) \<longleftrightarrow> IsVerified u t = Inl 10"
  by (induction u t rule: IsVerified.induct) auto

lemma GetRpId_known:
  assumes "uuids_distinct t" "(k, e) \<in> set t" "k \<noteq> 0" "int32 k"
  shows "GetRpId (m_uuid e) t = Inr (show_int k, int (length (show_int k)))"
proof -
  have "length (show_int k) < MAX_LEN" using length_show_int [OF assms(4)] by simp
  then show ?thesis
    using getprocIdfromuuid_unique [OF assms(1,2)] assms(3)
    by (simp add: GetRpId_def Let_def)
qed

end
