(* ===== verification/Base64.thy ===== *)
theory Base64
  imports Vrtm_Prelude
begin

text \<open>
  \<open>util/base64.cpp\<close> (the Linux branches).  OpenSSL's base64 filter is not part of the
  sources: it is the parameter \<open>b64_lib\<close>, of which \<open>b64_law\<close> states the documented
  behaviour (RFC 4648 text without line breaks, and reading it back).  \<open>rfc4648\<close> at the end
  is an executable instance of the parameter, proved to obey the law.
  Memory allocation is taken to succeed.
\<close>

section \<open>The parameter\<close>

record b64_lib =
  b64_write :: "string \<Rightarrow> string"
  b64_read :: "string \<Rightarrow> nat \<Rightarrow> string"

definition b64_char :: "char \<Rightarrow> bool" where
  "b64_char c \<longleftrightarrow>
     (let n = (of_char c :: nat)
      in 65 \<le> n \<and> n \<le> 90 \<or> 97 \<le> n \<and> n \<le> 122 \<or> 47 \<le> n \<and> n \<le> 57 \<or> n = 43)"

definition b64_pad :: "nat \<Rightarrow> nat" where
  "b64_pad n = (if n mod 3 = 0 then 0 else 3 - n mod 3)"

definition b64_law :: "b64_lib \<Rightarrow> bool" where
  "b64_law B \<longleftrightarrow>
     (\<forall>s. \<exists>body. b64_write B s = body @ replicate (b64_pad (length s)) (CHR ''='') \<and>
          (\<forall>c \<in> set body. b64_char c) \<and>
          length (b64_write B s) = 4 * ((length s + 2) div 3)) \<and>
     (\<forall>s n. length (b64_write B s) \<le> n \<longrightarrow> b64_read B (b64_write B s) n = s)"

section \<open>The functions of \<open>base64.cpp\<close>\<close>

text \<open>The \<open>double\<close> \<open>len * 0.75 - padding\<close> is exact and is truncated on return.\<close>

definition calcDecodeLength :: "cstr \<Rightarrow> nat" where
  "calcDecodeLength b64input =
     (let len = strnlen_s b64input MAX_LEN
      in if len < 4 then 0
         else let padding = (if b64input ! (len - 1) = CHR ''='' \<and> b64input ! (len - 2) = CHR ''=''
                             then 2
                             else if b64input ! (len - 1) = CHR ''='' then 1 else 0)
              in 3 * len div 4 - padding)"

text \<open>The decoded bytes, or \<open>None\<close> for the error return.\<close>

definition Base64Decode :: "b64_lib \<Rightarrow> cstr option \<Rightarrow> string option" where
  "Base64Decode B b64message =
     (case b64message of
        None \<Rightarrow> None
      | Some msg \<Rightarrow>
          (let decodeLen = calcDecodeLength msg
           in if decodeLen = 0 then Some []
              else let data = b64_read B (take MAX_LEN msg) (strnlen_s msg MAX_LEN)
                   in if length data \<noteq> decodeLen then None else Some data))"

text \<open>The stream over the buffer has room for \<open>encodedSize\<close> characters and a NUL.\<close>

definition Base64EncodeWithLength :: "b64_lib \<Rightarrow> string \<Rightarrow> nat \<Rightarrow> cstr option" where
  "Base64EncodeWithLength B message len =
     (let encodedSize = 4 * ((len + 2) div 3)
      in Some (take encodedSize (b64_write B (take len message))))"

definition Base64Encode :: "b64_lib \<Rightarrow> cstr \<Rightarrow> cstr option" where
  "Base64Encode B message = Base64EncodeWithLength B message (strnlen_s message MAX_LEN)"

section \<open>Round trip\<close>

lemma b64_char_not_pad: "b64_char c \<Longrightarrow> c \<noteq> CHR ''=''"
  and b64_char_not_nul: "b64_char c \<Longrightarrow> c \<noteq> nul"
  by (auto simp: b64_char_def Let_def)

lemma b64_writeE:
  assumes "b64_law B"
  obtains body where "b64_write B s = body @ replicate (b64_pad (length s)) (CHR ''='')"
    and "\<forall>c \<in> set body. b64_char c"
    and "length (b64_write B s) = 4 * ((length s + 2) div 3)"
  using assms unfolding b64_law_def by blast

lemma Base64EncodeWithLength_law:
  assumes "b64_law B" "len \<le> length msg"
  shows "Base64EncodeWithLength B msg len = Some (b64_write B (take len msg))"
proof -
  have "length (b64_write B (take len msg)) = 4 * ((length (take len msg) + 2) div 3)"
    by (rule b64_writeE [OF assms(1)])
  with assms(2) show ?thesis by (simp add: Base64EncodeWithLength_def Let_def)
qed

lemma Base64Encode_law:
  "b64_law B \<Longrightarrow> length msg \<le> MAX_LEN \<Longrightarrow> Base64Encode B msg = Some (b64_write B msg)"
  by (simp add: Base64Encode_def Base64EncodeWithLength_law)

lemma b64_pad_cases: "b64_pad n = 0 \<or> b64_pad n = 1 \<or> b64_pad n = 2"
proof -
  have "n mod 3 < 3" by simp
  then consider "n mod 3 = 0" | "n mod 3 = 1" | "n mod 3 = 2" by linarith
  then show ?thesis by cases (simp_all add: b64_pad_def)
qed

lemma groups_of_3: "3 * ((n + 2) div 3) - b64_pad n = n" for n :: nat
proof -
  define q r where "q = n div 3" and "r = n mod 3"
  then have n: "n = 3 * q + r" and "r < 3" by simp_all
  then consider "r = 0" | "r = 1" | "r = 2" by linarith
  then show ?thesis
  proof cases
    case 1
    with n show ?thesis by (simp add: b64_pad_def)
  next
    case 2
    have "n mod 3 = 1" "(n + 2) div 3 = q + 1" using r_def 2 n by simp_all
    with 2 n show ?thesis by (simp add: b64_pad_def)
  next
    case 3
    have "n mod 3 = 2" using r_def 3 by simp
    moreover have "n + 2 = 1 + (q + 1) * 3" using 3 n by simp
    then have "(n + 2) div 3 = q + 1" by simp
    ultimately show ?thesis using 3 n by (simp add: b64_pad_def)
  qed
qed

lemma pad_count:
  assumes "x \<noteq> e" "y \<noteq> e" "p = 0 \<or> p = 1 \<or> p = (2 :: nat)"
    and w: "w = (b @ [x, y]) @ replicate p e"
  shows "(if w ! (length w - 1) = e \<and> w ! (length w - 2) = e then 2
          else if w ! (length w - 1) = e then 1 else 0) = p"
  using assms(3)
proof (elim disjE)
  assume "p = 0"
  with w have "w = b @ [x, y]" by simp
  with assms(1,2) show ?thesis using \<open>p = 0\<close> by (simp add: nth_append)
next
  assume "p = 1"
  with w have "w = b @ [x, y, e]" by simp
  with assms(1,2) show ?thesis using \<open>p = 1\<close> by (simp add: nth_append)
next
  assume "p = 2"
  with w have "w = b @ [x, y, e, e]" by (simp add: numeral_2_eq_2)
  then show ?thesis using \<open>p = 2\<close> by (simp add: nth_append)
qed

text \<open>The length computed from the text is the length of the encoded bytes.\<close>

lemma calcDecodeLength_write:
  assumes law: "b64_law B" and len: "length (b64_write B s) \<le> MAX_LEN"
  shows "calcDecodeLength (b64_write B s) = length s"
proof -
  let ?w = "b64_write B s" and ?p = "b64_pad (length s)"
  obtain body where w: "?w = body @ replicate ?p (CHR ''='')"
    and body: "\<forall>c \<in> set body. b64_char c" and l: "length ?w = 4 * ((length s + 2) div 3)"
    by (rule b64_writeE [OF law])
  show ?thesis
  proof (cases "s = []")
    case True
    with l show ?thesis by (simp add: calcDecodeLength_def Let_def)
  next
    case False
    then have big: "4 \<le> length ?w" using l by (cases s) auto
    have p: "?p = 0 \<or> ?p = 1 \<or> ?p = 2"
      by (rule b64_pad_cases)
    then have nb: "2 \<le> length body" using big w by auto
    then obtain b0 x y where b0: "body = b0 @ [x, y]"
      by (cases body rule: rev_cases; cases "butlast body" rule: rev_cases) auto
    then have xy: "x \<noteq> CHR ''=''" "y \<noteq> CHR ''=''"
      using body by (auto dest: b64_char_not_pad)
    have pad: "(if ?w ! (length ?w - 1) = CHR ''='' \<and> ?w ! (length ?w - 2) = CHR ''='' then 2
        else if ?w ! (length ?w - 1) = CHR ''='' then 1 else 0) = ?p"
      by (rule pad_count [OF xy p w [unfolded b0]])
    have "3 * length ?w div 4 = 3 * ((length s + 2) div 3)"
      by (simp add: l)
    with big len pad groups_of_3 show ?thesis
      by (simp add: calcDecodeLength_def Let_def)
  qed
qed

lemma write_length_bound:
  assumes "b64_law B" "length s \<le> 3072"
  shows "length (b64_write B s) \<le> MAX_LEN"
proof -
  have "length (b64_write B s) = 4 * ((length s + 2) div 3)"
    by (rule b64_writeE [OF assms(1)])
  with assms(2) show ?thesis by simp
qed

lemma Base64Decode_write:
  assumes law: "b64_law B" and len: "length s \<le> 3072"
  shows "Base64Decode B (Some (b64_write B s)) = Some s"
proof -
  have b: "length (b64_write B s) \<le> MAX_LEN"
    by (rule write_length_bound [OF law len])
  then have "calcDecodeLength (b64_write B s) = length s"
    by (rule calcDecodeLength_write [OF law])
  moreover have "b64_read B (b64_write B s) (length (b64_write B s)) = s"
    using law unfolding b64_law_def by blast
  ultimately show ?thesis
    using b by (simp add: Base64Decode_def Let_def)
qed

lemma b64_write_chars:
  assumes "b64_law B" "c \<in> set (b64_write B s)"
  shows "b64_char c \<or> c = CHR ''=''"
proof -
  obtain body where "b64_write B s = body @ replicate (b64_pad (length s)) (CHR ''='')"
    "\<forall>c \<in> set body. b64_char c"
    by (rule b64_writeE [OF assms(1)])
  with assms(2) show ?thesis by (auto split: if_splits)
qed

section \<open>An instance: RFC 4648\<close>

definition b64_digit :: "nat \<Rightarrow> char" where
  "b64_digit n =
     (if n < 26 then char_of (65 + n) else if n < 52 then char_of (71 + n)
      else if n < 62 then char_of (n - 4) else if n = 62 then CHR ''+'' else CHR ''/'')"

definition b64_value :: "char \<Rightarrow> nat" where
  "b64_value c =
     (let n = of_char c in
      if 65 \<le> n \<and> n \<le> 90 then n - 65 else if 97 \<le> n \<and> n \<le> 122 then n - 71
      else if 48 \<le> n \<and> n \<le> 57 then n + 4 else if c = CHR ''+'' then 62 else 63)"

fun rfc_encode :: "string \<Rightarrow> string" where
  "rfc_encode [] = []"
| "rfc_encode [a] =
     (let x = of_char a
      in [b64_digit (x div 4), b64_digit (x mod 4 * 16), CHR ''='', CHR ''=''])"
| "rfc_encode [a, b] =
     (let x = of_char a; y = of_char b
      in [b64_digit (x div 4), b64_digit (x mod 4 * 16 + y div 16), b64_digit (y mod 16 * 4),
          CHR ''=''])"
| "rfc_encode (a # b # c # s) =
     (let x = of_char a; y = of_char b; z = of_char c
      in b64_digit (x div 4) # b64_digit (x mod 4 * 16 + y div 16)
         # b64_digit (y mod 16 * 4 + z div 64) # b64_digit (z mod 64) # rfc_encode s)"

fun rfc_decode :: "string \<Rightarrow> string" where
  "rfc_decode (a # b # c # d # s) =
     (let w = b64_value a; x = b64_value b; y = b64_value c; z = b64_value d;
          b1 = char_of (w * 4 + x div 16); b2 = char_of (x mod 16 * 16 + y div 4);
          b3 = char_of (y mod 4 * 64 + z)
      in if d = CHR ''='' then (if c = CHR ''='' then [b1] else [b1, b2])
         else b1 # b2 # b3 # rfc_decode s)"
| "rfc_decode _ = []"

definition rfc4648 :: b64_lib where
  "rfc4648 = \<lparr>b64_write = rfc_encode, b64_read = (\<lambda>t n. take n (rfc_decode (take n t)))\<rparr>"

lemma byte_lt: "(of_char c :: nat) < 256"
  by (simp add: of_char_def)

lemma b64_digit:
  assumes "n < 64"
  shows "b64_value (b64_digit n) = n" "b64_char (b64_digit n)" "b64_digit n \<noteq> CHR ''=''"
proof -
  consider "n < 26" | "26 \<le> n" "n < 52" | "52 \<le> n" "n < 62" | "n = 62" | "n = 63"
    using assms by linarith
  then show 1: "b64_value (b64_digit n) = n"
    by cases (auto simp: b64_digit_def b64_value_def Let_def)
  show 2: "b64_char (b64_digit n)"
    using assms by (auto simp: b64_digit_def b64_char_def Let_def)
  show "b64_digit n \<noteq> CHR ''=''"
    using 2 by (rule b64_char_not_pad)
qed

lemma digit_ranges:
  assumes "x < 256" "y < 256" "z < 256"
  shows "x div 4 < 64" "x mod 4 * 16 < 64" "x mod 4 * 16 + y div 16 < 64"
    "y mod 16 * 4 < 64" "y mod 16 * 4 + z div 64 < 64" "z mod 64 < (64::nat)"
proof -
  have "x mod 4 < 4" "y mod 16 < 16" by simp_all
  moreover have "x div 4 < 64" "y div 16 < 16" "z div 64 < 4"
    using assms by (simp_all add: less_mult_imp_div_less)
  ultimately show "x div 4 < 64" "x mod 4 * 16 < 64" "x mod 4 * 16 + y div 16 < 64"
    "y mod 16 * 4 < 64" "y mod 16 * 4 + z div 64 < 64" "z mod 64 < (64::nat)"
    by linarith+
qed

lemmas char_digits = b64_digit [OF digit_ranges(1) [OF byte_lt byte_lt byte_lt]]
  b64_digit [OF digit_ranges(2) [OF byte_lt byte_lt byte_lt]]
  b64_digit [OF digit_ranges(3) [OF byte_lt byte_lt byte_lt]]
  b64_digit [OF digit_ranges(4) [OF byte_lt byte_lt byte_lt]]
  b64_digit [OF digit_ranges(5) [OF byte_lt byte_lt byte_lt]]
  b64_digit [OF digit_ranges(6) [OF byte_lt byte_lt byte_lt]]

lemma byte_parts:
  "(of_char c :: nat) div 16 div 16 = 0" "(of_char c :: nat) div 64 div 4 = 0"
  "(of_char c :: nat) div 16 mod 16 = of_char c div 16"
  "(of_char c :: nat) div 64 mod 4 = of_char c div 64"
proof -
  have "(of_char c :: nat) div 16 < 16" "(of_char c :: nat) div 64 < 4"
    using byte_lt [of c] by (simp_all add: less_mult_imp_div_less)
  then show "(of_char c :: nat) div 16 div 16 = 0" "(of_char c :: nat) div 64 div 4 = 0"
    "(of_char c :: nat) div 16 mod 16 = of_char c div 16"
    "(of_char c :: nat) div 64 mod 4 = of_char c div 64"
    by simp_all
qed

lemma rfc_roundtrip: "rfc_decode (rfc_encode s) = s"
  by (induction s rule: rfc_encode.induct)
    (simp_all add: Let_def char_digits byte_parts)

lemma rfc_shape:
  "\<exists>body. rfc_encode s = body @ replicate (b64_pad (length s)) (CHR ''='') \<and>
     (\<forall>c \<in> set body. b64_char c) \<and> length (rfc_encode s) = 4 * ((length s + 2) div 3)"
proof (induction s rule: rfc_encode.induct)
  case (2 a)
  show ?case
    by (rule exI [of _ "[b64_digit (of_char a div 4), b64_digit (of_char a mod 4 * 16)]"])
      (simp add: Let_def b64_pad_def char_digits numeral_2_eq_2)
next
  case (3 a b)
  show ?case
    by (rule exI [of _ "[b64_digit (of_char a div 4),
          b64_digit (of_char a mod 4 * 16 + of_char b div 16), b64_digit (of_char b mod 16 * 4)]"])
      (simp add: Let_def b64_pad_def char_digits)
next
  case (4 a b c s)
  then obtain body where b: "rfc_encode s = body @ replicate (b64_pad (length s)) (CHR ''='')"
    "\<forall>c \<in> set body. b64_char c" "length (rfc_encode s) = 4 * ((length s + 2) div 3)"
    by blast
  have "b64_pad (length (a # b # c # s)) = b64_pad (length s)"
    by (simp add: b64_pad_def Suc3_eq_add_3)
  moreover have "(5 + length s) div 3 = Suc ((length s + 2) div 3)" by simp
  ultimately show ?case using b
    by (intro exI [of _ "b64_digit (of_char a div 4)
          # b64_digit (of_char a mod 4 * 16 + of_char b div 16)
          # b64_digit (of_char b mod 16 * 4 + of_char c div 64)
          # b64_digit (of_char c mod 64) # body"])
      (simp add: Let_def char_digits)
qed (simp add: b64_pad_def)

lemma rfc_decode_length: "length (rfc_decode t) \<le> length t"
  by (induction t rule: rfc_decode.induct) (auto simp: Let_def intro: le_SucI)

lemma rfc4648_law: "b64_law rfc4648"
proof -
  have "length (rfc_encode s) \<le> n \<Longrightarrow> take n (rfc_decode (take n (rfc_encode s))) = s" for s n
    using rfc_decode_length [of "rfc_encode s"] by (simp add: rfc_roundtrip)
  then show ?thesis
    using rfc_shape by (simp add: b64_law_def rfc4648_def)
qed

end
