(* ===== verification/Xml_Rpc.thy ===== *)
theory Xml_Rpc
  imports Base64
begin

text \<open>
  \<open>vrtmchannel/parser.cpp\<close>: requests and replies as XML-RPC documents with Base64 text.
  libxml2 is not part of the sources.  A node of its tree is an \<open>xnode\<close>; printing a
  document, parsing a buffer and reading a node's text are the parameter \<open>xml_lib\<close>, of which
  \<open>xml_law\<close> states the documented behaviour on the documents this program builds.  The
  theory \<open>Ref_Xml\<close> proves the law for an executable printer and parser.

  An output buffer is the C string it holds.  \<open>cap\<close> is the number of bytes the caller has
  reserved (or of array slots), which the C code cannot see: writing past it is \<open>None\<close>.
\<close>

section \<open>The tree and its library\<close>

text \<open>\<open>XOther\<close> stands for the nodes that are neither elements nor text (comments, \<dots>).\<close>

datatype xnode = XElem string "xnode list" | XText string | XOther string

record xml_lib =
  x_dump :: "xnode \<Rightarrow> string"
  x_parse :: "string \<Rightarrow> xnode option"
  x_content :: "xnode \<Rightarrow> string"

fun xml_is_elem :: "string \<Rightarrow> xnode \<Rightarrow> bool" where
  "xml_is_elem nm (XElem n cs) = (n = nm)"
| "xml_is_elem nm x = False"

fun xmlNodeIsText :: "xnode \<Rightarrow> bool" where
  "xmlNodeIsText (XText t) = True"
| "xmlNodeIsText x = False"

fun xml_children :: "xnode \<Rightarrow> xnode list" where
  "xml_children (XElem n cs) = cs"
| "xml_children x = []"

text \<open>\<open>xmlNewChild\<close> with a text: an empty text makes no text node.\<close>

definition xmlNewChild :: "string \<Rightarrow> string \<Rightarrow> xnode" where
  "xmlNewChild name content = XElem name (if content = [] then [] else [XText content])"

text \<open>Names and texts the printer writes as they are.\<close>

definition inert_char :: "char \<Rightarrow> bool" where
  "inert_char c \<longleftrightarrow> b64_char c \<or> c = CHR ''='' \<or> c = CHR ''_''"

definition name_char :: "char \<Rightarrow> bool" where
  "name_char c \<longleftrightarrow> inert_char c \<and> c \<noteq> CHR ''/''"

definition xml_name :: "string \<Rightarrow> bool" where
  "xml_name s \<longleftrightarrow> s \<noteq> [] \<and> list_all name_char s"

definition xml_text :: "string \<Rightarrow> bool" where
  "xml_text s \<longleftrightarrow> s \<noteq> [] \<and> list_all inert_char s"

fun inert :: "xnode \<Rightarrow> bool" where
  "inert (XElem n cs) \<longleftrightarrow> xml_name n \<and> list_all inert cs \<and>
     (length cs \<le> 1 \<or> list_all (\<lambda>c. \<not> xmlNodeIsText c) cs)"
| "inert (XText t) \<longleftrightarrow> xml_text t"
| "inert (XOther t) \<longleftrightarrow> False"

fun xml_text_of :: "xnode \<Rightarrow> string" where
  "xml_text_of (XElem n cs) = concat (map xml_text_of cs)"
| "xml_text_of (XText t) = t"
| "xml_text_of (XOther t) = t"

text \<open>Elements and text only: of a comment among the children libxml2 takes no text.\<close>

fun plain_xml :: "xnode \<Rightarrow> bool" where
  "plain_xml (XElem n cs) \<longleftrightarrow> list_all plain_xml cs"
| "plain_xml (XText t) \<longleftrightarrow> True"
| "plain_xml (XOther t) \<longleftrightarrow> False"

definition xml_law :: "xml_lib \<Rightarrow> bool" where
  "xml_law X \<longleftrightarrow>
     (\<forall>n cs. inert (XElem n cs) \<longrightarrow> x_parse X (x_dump X (XElem n cs)) = Some (XElem n cs)) \<and>
     (\<forall>n cs. inert (XElem n cs) \<longrightarrow> x_dump X (XElem n cs) \<noteq> [] \<and> nul_free (x_dump X (XElem n cs))) \<and>
     (\<forall>x. plain_xml x \<longrightarrow> x_content X x = xml_text_of x)"

section \<open>Writing\<close>

text \<open>
  \<open>memcpy_s(buf, MAX_LEN, xmlbuf, bufsize + 1)\<close>: a document that does not fit with its NUL
  leaves a cleared buffer.
\<close>

definition store_xml :: "string \<Rightarrow> cstr" where
  "store_xml xmlbuf = (if MAX_LEN < length xmlbuf + 1 then [] else xmlbuf)"

definition rpc_param :: "cstr \<Rightarrow> xnode" where
  "rpc_param encoded_data =
     XElem ''param'' [XElem ''value'' [xmlNewChild ''string'' encoded_data]]"

definition rpc_doc :: "cstr \<Rightarrow> xnode list \<Rightarrow> xnode" where
  "rpc_doc method params =
     XElem ''methodCall'' [xmlNewChild ''methodName'' method, XElem ''params'' params]"

text \<open>The result is the returned size and what \<open>buf\<close> holds.\<close>

definition cbuf_to_xmlrpc ::
  "xml_lib \<Rightarrow> b64_lib \<Rightarrow> cstr \<Rightarrow> cstr \<Rightarrow> cstr \<Rightarrow> int \<times> cstr"
where
  "cbuf_to_xmlrpc X B method data buf =
     (case Base64Encode B data of
        None \<Rightarrow> (- 1, buf)
      | Some encoded_data \<Rightarrow>
          (let xmlbuf = x_dump X (rpc_doc method [rpc_param encoded_data])
           in (int (length xmlbuf), store_xml xmlbuf)))"

fun encode_params :: "b64_lib \<Rightarrow> cstr list \<Rightarrow> xnode list option" where
  "encode_params B [] = Some []"
| "encode_params B (a # args) =
     (case Base64Encode B a of
        None \<Rightarrow> None
      | Some encoded_data \<Rightarrow> map_option ((#) (rpc_param encoded_data)) (encode_params B args))"

definition args_to_xmlrpc ::
  "xml_lib \<Rightarrow> b64_lib \<Rightarrow> cstr \<Rightarrow> cstr list \<Rightarrow> cstr \<Rightarrow> int \<times> cstr"
where
  "args_to_xmlrpc X B method args buf =
     (case encode_params B args of
        None \<Rightarrow> (- 1, buf)
      | Some params \<Rightarrow>
          (let xmlbuf = x_dump X (rpc_doc method params)
           in (int (length xmlbuf), store_xml xmlbuf)))"

section \<open>Reading\<close>

text \<open>The state of \<open>xmlrpc_to_cbuf\<close>: \<open>xmldata_size\<close>, \<open>*psize\<close> and what \<open>data\<close> holds.\<close>

record cbuf_out =
  xmldata_size :: int
  psize :: int
  cbuf_data :: cstr

text \<open>One round over a \<open>params\<close> element; \<open>param\<close> is the text of the whole element.\<close>

fun read_cbuf_params ::
  "b64_lib \<Rightarrow> nat \<Rightarrow> cstr \<Rightarrow> xnode list \<Rightarrow> cbuf_out \<Rightarrow> cbuf_out option"
where
  "read_cbuf_params B cap param [] s = Some s"
| "read_cbuf_params B cap param (p # ps) s =
     (if xmlNodeIsText p then read_cbuf_params B cap param ps s
      else case Base64Decode B (Some param) of
             None \<Rightarrow> Some (s\<lparr>xmldata_size := - 1, psize := - 1\<rparr>)
           | Some decoded_data \<Rightarrow>
               (let d = cstr_of decoded_data; n = strnlen_s d MAX_LEN
                in if cap < min (n + 1) MAX_LEN then None
                   else read_cbuf_params B cap param ps
                     \<lparr>xmldata_size = int n, psize = int n,
                      cbuf_data = (if MAX_LEN < n + 1 then [] else d)\<rparr>))"

fun read_cbuf_children ::
  "xml_lib \<Rightarrow> b64_lib \<Rightarrow> nat \<Rightarrow> xnode list \<Rightarrow> cbuf_out \<Rightarrow> cbuf_out option"
where
  "read_cbuf_children X B cap [] s = Some s"
| "read_cbuf_children X B cap (c # cs) s =
     (if \<not> xml_is_elem ''methodName'' c \<and> xml_is_elem ''params'' c
      then case read_cbuf_params B cap (x_content X c) (xml_children c) s of
             None \<Rightarrow> None
           | Some s' \<Rightarrow> read_cbuf_children X B cap cs s'
      else read_cbuf_children X B cap cs s)"

definition xmlrpc_to_cbuf ::
  "xml_lib \<Rightarrow> b64_lib \<Rightarrow> nat \<Rightarrow> int \<Rightarrow> cstr \<Rightarrow> cstr \<Rightarrow> cbuf_out option"
where
  "xmlrpc_to_cbuf X B cap psize0 data buf =
     (if strnlen_s buf MAX_LEN = 0
      then Some \<lparr>xmldata_size = 0, psize = 0, cbuf_data = data\<rparr>
      else case x_parse X (take (strnlen_s buf MAX_LEN) buf) of
             None \<Rightarrow> Some \<lparr>xmldata_size = 0, psize = 0, cbuf_data = data\<rparr>
           | Some root \<Rightarrow>
               read_cbuf_children X B cap (xml_children root)
                 \<lparr>xmldata_size = - 1, psize = psize0, cbuf_data = data\<rparr>)"

text \<open>
  \<open>xmlrpc_to_args\<close>: the method name and the arguments, an error return (which has freed the
  arguments read so far and has not touched \<open>*psz\<close> and \<open>*pnargs\<close>), or a write behind the
  last slot of the caller's array.
\<close>

datatype args_result = Args "cstr option" "cstr list" | Args_error | Args_overflow

datatype params_result = Params "cstr list" | Params_error | Params_overflow

fun read_params :: "xml_lib \<Rightarrow> b64_lib \<Rightarrow> nat \<Rightarrow> cstr list \<Rightarrow> xnode list \<Rightarrow> params_result" where
  "read_params X B cap pargs [] = Params pargs"
| "read_params X B cap pargs (p # ps) =
     (if xmlNodeIsText p then read_params X B cap pargs ps
      else case Base64Decode B (Some (x_content X p)) of
             None \<Rightarrow> Params_error
           | Some decoded_data \<Rightarrow>
               if length pargs < cap
               then read_params X B cap (pargs @ [cstr_of decoded_data]) ps
               else Params_overflow)"

fun read_children ::
  "xml_lib \<Rightarrow> b64_lib \<Rightarrow> nat \<Rightarrow> cstr option \<Rightarrow> cstr list \<Rightarrow> xnode list \<Rightarrow> args_result"
where
  "read_children X B cap method pargs [] = Args method pargs"
| "read_children X B cap method pargs (c # cs) =
     (if xml_is_elem ''methodName'' c
      then read_children X B cap (Some (x_content X c)) pargs cs
      else if xml_is_elem ''params'' c
      then (case read_params X B cap pargs (xml_children c) of
              Params as \<Rightarrow> read_children X B cap method as cs
            | Params_error \<Rightarrow> Args_error
            | Params_overflow \<Rightarrow> Args_overflow)
      else read_children X B cap method pargs cs)"

definition xmlrpc_to_args :: "xml_lib \<Rightarrow> b64_lib \<Rightarrow> nat \<Rightarrow> cstr \<Rightarrow> args_result" where
  "xmlrpc_to_args X B cap buf =
     (if strnlen_s buf MAX_LEN = 0 then Args (Some []) []
      else case x_parse X (take (strnlen_s buf MAX_LEN) buf) of
             None \<Rightarrow> Args (Some []) []
           | Some root \<Rightarrow> read_children X B cap None [] (xml_children root))"

section \<open>Properties\<close>

lemma inert_charI:
  "b64_char c \<Longrightarrow> inert_char c" "inert_char (CHR ''='')" "inert_char (CHR ''_'')"
  by (simp_all add: inert_char_def)

lemma b64_text: "b64_law B \<Longrightarrow> list_all inert_char (b64_write B s)"
  by (auto simp: list_all_iff inert_char_def dest: b64_write_chars)

lemma xml_names [simp]:
  "xml_name ''methodCall''" "xml_name ''methodName''" "xml_name ''params''"
  "xml_name ''param''" "xml_name ''value''" "xml_name ''string''"
  by (simp_all add: xml_name_def name_char_def inert_char_def b64_char_def)

lemma inert_xmlNewChild: "xml_name n \<Longrightarrow> list_all inert_char t \<Longrightarrow> inert (xmlNewChild n t)"
  by (simp add: xmlNewChild_def xml_text_def)

lemma xml_text_of_NewChild [simp]: "xml_text_of (xmlNewChild n t) = t"
  by (simp add: xmlNewChild_def)

lemma is_elem_NewChild [simp]: "xml_is_elem m (xmlNewChild n t) \<longleftrightarrow> n = m"
  and not_text_NewChild [simp]: "\<not> xmlNodeIsText (xmlNewChild n t)"
  by (simp_all add: xmlNewChild_def)

lemma rpc_param_simps [simp]:
  "\<not> xmlNodeIsText (rpc_param e)" "xml_text_of (rpc_param e) = e"
  by (simp_all add: rpc_param_def)

lemma inert_rpc_param: "list_all inert_char e \<Longrightarrow> inert (rpc_param e)"
  by (simp add: rpc_param_def inert_xmlNewChild)

lemma inert_rpc_doc:
  assumes "list_all inert_char m" "\<forall>e \<in> set es. list_all inert_char e"
  shows "inert (rpc_doc m (map rpc_param es))"
  using assms inert_rpc_param
  by (simp add: rpc_doc_def inert_xmlNewChild list_all_iff)

lemma inert_rpc_doc_b64:
  "b64_law B \<Longrightarrow> list_all inert_char m \<Longrightarrow>
   inert (rpc_doc m (map rpc_param (map (b64_write B) args)))"
  by (rule inert_rpc_doc) (auto intro: b64_text)

lemma encode_params_law:
  "b64_law B \<Longrightarrow> \<forall>a \<in> set args. length a \<le> MAX_LEN \<Longrightarrow>
   encode_params B args = Some (map rpc_param (map (b64_write B) args))"
  by (induction args) (simp_all add: Base64Encode_law)

lemma xml_lawD:
  assumes "xml_law X" "inert (rpc_doc m ps)"
  shows "x_parse X (x_dump X (rpc_doc m ps)) = Some (rpc_doc m ps)"
    and "x_dump X (rpc_doc m ps) \<noteq> []" "nul_free (x_dump X (rpc_doc m ps))"
  using assms unfolding xml_law_def rpc_doc_def by blast+

lemma plain_rpc [simp]: "plain_xml (xmlNewChild n t)" "plain_xml (rpc_param t)"
  by (simp_all add: xmlNewChild_def rpc_param_def)

lemma x_content_law: "xml_law X \<Longrightarrow> plain_xml x \<Longrightarrow> x_content X x = xml_text_of x"
  by (simp add: xml_law_def)

text \<open>Parsing what was stored, when it fits the buffer.\<close>

lemma parse_stored:
  assumes "xml_law X" "inert (rpc_doc m ps)" and len: "length (x_dump X (rpc_doc m ps)) < MAX_LEN"
  shows "strnlen_s (store_xml (x_dump X (rpc_doc m ps))) MAX_LEN \<noteq> 0"
    and "x_parse X (take (strnlen_s (store_xml (x_dump X (rpc_doc m ps))) MAX_LEN)
            (store_xml (x_dump X (rpc_doc m ps)))) = Some (rpc_doc m ps)"
  using xml_lawD [OF assms(1,2)] len by (simp_all add: store_xml_def)

text \<open>The text of a short request: the size is the length of the document.\<close>

definition rpc_text :: "xml_lib \<Rightarrow> b64_lib \<Rightarrow> cstr \<Rightarrow> cstr list \<Rightarrow> string" where
  "rpc_text X B method args = x_dump X (rpc_doc method (map (rpc_param \<circ> b64_write B) args))"

definition wire_arg :: "cstr \<Rightarrow> bool" where
  "wire_arg a \<longleftrightarrow> nul_free a \<and> length a \<le> 3072"

lemma args_to_xmlrpc_law:
  assumes "b64_law B" "\<forall>a \<in> set args. wire_arg a"
  shows "args_to_xmlrpc X B m args buf =
           (int (length (rpc_text X B m args)), store_xml (rpc_text X B m args))"
proof -
  have "encode_params B args = Some (map rpc_param (map (b64_write B) args))"
    using assms by (intro encode_params_law) (auto simp: wire_arg_def)
  then show ?thesis by (simp add: args_to_xmlrpc_def rpc_text_def Let_def)
qed

lemma cbuf_to_xmlrpc_law:
  assumes "b64_law B" "wire_arg data"
  shows "cbuf_to_xmlrpc X B m data buf =
           (int (length (rpc_text X B m [data])), store_xml (rpc_text X B m [data]))"
  using assms by (simp add: cbuf_to_xmlrpc_def rpc_text_def Base64Encode_law wire_arg_def Let_def)

lemma read_params_law:
  assumes "xml_law X" "b64_law B"
  shows "\<forall>a \<in> set args. wire_arg a \<Longrightarrow> length acc + length args \<le> cap \<Longrightarrow>
     read_params X B cap acc (map rpc_param (map (b64_write B) args)) = Params (acc @ args)"
proof (induction args arbitrary: acc)
  case (Cons a args)
  then show ?case
    using assms by (simp add: x_content_law Base64Decode_write wire_arg_def)
qed simp

lemma read_params_overflow:
  assumes "xml_law X" "b64_law B"
  shows "\<forall>a \<in> set args. wire_arg a \<Longrightarrow> length acc \<le> cap \<Longrightarrow> cap < length acc + length args \<Longrightarrow>
     read_params X B cap acc (map rpc_param (map (b64_write B) args)) = Params_overflow"
proof (induction args arbitrary: acc)
  case (Cons a args)
  then show ?case
    using assms by (auto simp: x_content_law Base64Decode_write wire_arg_def)
qed simp

lemma read_children_rpc:
  assumes "xml_law X"
  shows "read_children X B cap None [] (xml_children (rpc_doc m ps)) =
     (case read_params X B cap [] ps of
        Params as \<Rightarrow> Args (Some m) as
      | Params_error \<Rightarrow> Args_error
      | Params_overflow \<Rightarrow> Args_overflow)"
  by (simp add: rpc_doc_def x_content_law [OF assms] split: params_result.splits)

text \<open>Round trip of a request, and the overflow of the argument array.\<close>

lemma args_roundtrip:
  assumes law: "xml_law X" "b64_law B" and m: "list_all inert_char m"
    and args: "\<forall>a \<in> set args. wire_arg a"
    and fits: "length (rpc_text X B m args) < MAX_LEN"
  shows "xmlrpc_to_args X B cap (snd (args_to_xmlrpc X B m args buf)) =
           (if length args \<le> cap then Args (Some m) args else Args_overflow)"
proof -
  let ?d = "rpc_doc m (map rpc_param (map (b64_write B) args))"
  have doc: "rpc_text X B m args = x_dump X ?d" by (simp add: rpc_text_def)
  have "xmlrpc_to_args X B cap (snd (args_to_xmlrpc X B m args buf)) =
      read_children X B cap None [] (xml_children ?d)"
    using parse_stored [OF law(1) inert_rpc_doc_b64 [OF law(2) m], of args] fits
      args_to_xmlrpc_law [OF law(2) args, of X m buf]
    by (simp add: xmlrpc_to_args_def doc)
  then show ?thesis
    using read_params_law [OF law args, of "[]" cap] read_params_overflow [OF law args, of "[]" cap]
    by (simp add: read_children_rpc [OF law(1)])
qed

text \<open>An oversized request is announced with its full size but carries no document.\<close>

lemma args_oversize:
  assumes "b64_law B" "\<forall>a \<in> set args. wire_arg a" "MAX_LEN \<le> length (rpc_text X B m args)"
  shows "args_to_xmlrpc X B m args buf = (int (length (rpc_text X B m args)), [])"
  using assms by (simp add: args_to_xmlrpc_law store_xml_def)

lemma xmlrpc_to_args_Nil [simp]: "xmlrpc_to_args X B cap [] = Args (Some []) []"
  by (simp add: xmlrpc_to_args_def strnlen_s_def)

text \<open>No input makes the decoder return more arguments than the array has slots.\<close>

lemma read_params_bound:
  "read_params X B cap acc ps = Params as \<Longrightarrow> length acc \<le> cap \<Longrightarrow> length as \<le> cap"
  by (induction X B cap acc ps rule: read_params.induct) (auto split: if_splits option.splits)

lemma read_children_bound:
  "read_children X B cap m acc cs = Args m' as \<Longrightarrow> length acc \<le> cap \<Longrightarrow> length as \<le> cap"
  by (induction X B cap m acc cs rule: read_children.induct)
    (auto split: if_splits params_result.splits dest: read_params_bound)

lemma xmlrpc_to_args_bound: "xmlrpc_to_args X B cap buf = Args m as \<Longrightarrow> length as \<le> cap"
  by (auto simp: xmlrpc_to_args_def split: if_splits option.splits dest: read_children_bound)

text \<open>Every argument the decoder returns is a C string of at most 3072 characters.\<close>

lemma Base64Decode_length: "Base64Decode B (Some m) = Some d \<Longrightarrow> length d \<le> 3072"
  by (auto simp: Base64Decode_def calcDecodeLength_def strnlen_s_def Let_def split: if_splits)

lemma cstr_of_length: "length (cstr_of s) \<le> length s"
  by (simp add: cstr_of_def length_takeWhile_le)

lemma read_params_wire:
  "read_params X B cap acc ps = Params as \<Longrightarrow> \<forall>a \<in> set acc. wire_arg a \<Longrightarrow>
   \<forall>a \<in> set as. wire_arg a"
proof (induction X B cap acc ps rule: read_params.induct)
  case (2 X B cap pargs p ps)
  have "wire_arg (cstr_of d)" if "Base64Decode B (Some (x_content X p)) = Some d" for d
    using le_trans [OF cstr_of_length Base64Decode_length [OF that]] by (simp add: wire_arg_def)
  with 2 show ?case by (auto split: if_splits option.splits)
qed simp

lemma read_children_wire:
  "read_children X B cap m acc cs = Args m' as \<Longrightarrow> \<forall>a \<in> set acc. wire_arg a \<Longrightarrow>
   \<forall>a \<in> set as. wire_arg a"
  by (induction X B cap m acc cs rule: read_children.induct)
    (auto split: if_splits params_result.splits dest: read_params_wire)

lemma xmlrpc_to_args_wire:
  "xmlrpc_to_args X B cap buf = Args m as \<Longrightarrow> \<forall>a \<in> set as. wire_arg a"
  by (auto simp: xmlrpc_to_args_def split: if_splits option.splits
      dest: read_children_wire [where acc = "[]", simplified])

text \<open>Round trip of a reply.\<close>

lemma cbuf_roundtrip:
  assumes law: "xml_law X" "b64_law B" and m: "list_all inert_char m" and d: "wire_arg d"
    and fits: "length (rpc_text X B m [d]) < MAX_LEN"
  shows "xmlrpc_to_cbuf X B cap n data (snd (cbuf_to_xmlrpc X B m d buf)) =
           (if length d < cap
            then Some \<lparr>xmldata_size = int (length d), psize = int (length d), cbuf_data = d\<rparr>
            else None)"
proof -
  let ?doc = "rpc_doc m (map rpc_param (map (b64_write B) [d]))"
  have doc: "rpc_text X B m [d] = x_dump X ?doc" by (simp add: rpc_text_def)
  have "Base64Decode B (Some (b64_write B d)) = Some d"
    using law(2) d by (simp add: Base64Decode_write wire_arg_def)
  then have "read_cbuf_children X B cap (xml_children ?doc) s =
      (if length d < cap
       then Some \<lparr>xmldata_size = int (length d), psize = int (length d), cbuf_data = d\<rparr>
       else None)" for s
    using d by (simp add: rpc_doc_def x_content_law [OF law(1)] wire_arg_def Let_def)
  then show ?thesis
    using parse_stored [OF law(1) inert_rpc_doc_b64 [OF law(2) m], of "[d]"] fits
      cbuf_to_xmlrpc_law [OF law(2) d, of X m buf]
    by (simp add: xmlrpc_to_cbuf_def doc)
qed

end
