(* ===== verification/Ref_Xml.thy ===== *)
theory Ref_Xml
  imports Xml_Rpc
begin

text \<open>
  An executable printer and parser that obeys \<open>xml_law\<close>: it shows that the hypothesis the
  XML-RPC properties carry can hold, and lets their witnesses compute.  It is an instance of
  the parameter \<open>xml_lib\<close>, not a model of libxml2.
\<close>

section \<open>Printing\<close>

fun xshow :: "xnode \<Rightarrow> string" where
  "xshow (XText t) = t"
| "xshow (XOther t) = []"
| "xshow (XElem n cs) =
     (if cs = [] then ''<'' @ n @ ''/>''
      else ''<'' @ n @ ''>'' @ concat (map xshow cs) @ ''</'' @ n @ ''>'')"

section \<open>Parsing\<close>

text \<open>
  One pass over the characters.  The stack holds the open elements, innermost first, each
  with its children in reverse; \<open>tag\<close> says whether the scanner is inside a tag, and \<open>acc\<close>
  holds the characters of the current tag or text in reverse.
\<close>

type_synonym frame = "string \<times> xnode list"

definition push_node :: "xnode \<Rightarrow> frame list \<Rightarrow> frame list" where
  "push_node x st = (case st of [] \<Rightarrow> [] | (n, cs) # st' \<Rightarrow> (n, x # cs) # st')"

definition push_text :: "string \<Rightarrow> frame list \<Rightarrow> frame list" where
  "push_text acc st = (if acc = [] then st else push_node (XText (rev acc)) st)"

definition end_tag :: "string \<Rightarrow> frame list \<Rightarrow> frame list" where
  "end_tag acc st =
     (case rev acc of
        [] \<Rightarrow> st
      | c # n \<Rightarrow>
          if c = CHR ''/'' then
            (case st of [] \<Rightarrow> [] | (m, cs) # st' \<Rightarrow> push_node (XElem m (rev cs)) st')
          else if hd acc = CHR ''/'' then push_node (XElem (rev (tl acc)) []) st
          else (c # n, []) # st)"

fun xscan :: "bool \<Rightarrow> string \<Rightarrow> frame list \<Rightarrow> string \<Rightarrow> frame list" where
  "xscan tag acc st [] = st"
| "xscan tag acc st (c # s) =
     (if tag then (if c = CHR ''>'' then xscan False [] (end_tag acc st) s
                   else xscan True (c # acc) st s)
      else if c = CHR ''<'' then xscan True [] (push_text acc st) s
      else xscan False (c # acc) st s)"

definition xread :: "string \<Rightarrow> xnode option" where
  "xread s = (case xscan False [] [([], [])] s of
       [([], [XElem n cs])] \<Rightarrow> Some (XElem n cs)
     | _ \<Rightarrow> None)"

definition ref_xml :: xml_lib where
  "ref_xml = \<lparr>x_dump = xshow, x_parse = xread, x_content = xml_text_of\<rparr>"

section \<open>The law\<close>

lemma inert_char_angle: "inert_char c \<Longrightarrow> c \<noteq> CHR ''<'' \<and> c \<noteq> CHR ''>'' \<and> c \<noteq> nul"
  by (auto simp: inert_char_def b64_char_def Let_def)

lemma scan_text:
  "list_all inert_char t \<Longrightarrow> xscan False acc st (t @ s) = xscan False (rev t @ acc) st s"
  by (induction t arbitrary: acc) (auto dest: inert_char_angle)

lemma scan_tag:
  "list_all inert_char t \<Longrightarrow> xscan True acc st (t @ s) = xscan True (rev t @ acc) st s"
  by (induction t arbitrary: acc) (auto dest: inert_char_angle)

lemma inert_slash: "inert_char (CHR ''/'')"
  by (simp add: inert_char_def b64_char_def)

lemma xml_nameD:
  "xml_name n \<Longrightarrow> n \<noteq> [] \<and> list_all inert_char n \<and> CHR ''/'' \<notin> set n"
  by (auto simp: xml_name_def name_char_def list_all_iff)

lemma open_tag:
  assumes "xml_name n"
  shows "xscan False acc st (''<'' @ n @ ''>'' @ s) = xscan False [] ((n, []) # push_text acc st) s"
proof -
  obtain c m where n: "n = c # m" using xml_nameD [OF assms] by (cases n) auto
  obtain d k where r: "rev n = d # k" using xml_nameD [OF assms] by (cases "rev n") auto
  have "d \<in> set n" by (metis list.set_intros(1) r set_rev)
  then have "d \<noteq> CHR ''/''" "c \<noteq> CHR ''/''" using xml_nameD [OF assms] n by auto
  then have "end_tag (rev n) st' = (n, []) # st'" for st'
    unfolding end_tag_def rev_rev_ident n using r by (simp add: n)
  then show ?thesis
    using scan_tag [of n "[]" "push_text acc st" "''>'' @ s"] xml_nameD [OF assms] by simp
qed

lemma close_tag:
  assumes "xml_name n"
  shows "xscan False acc st (''</'' @ n @ ''>'' @ s) =
     xscan False [] (case push_text acc st of [] \<Rightarrow> []
        | (m, cs) # st' \<Rightarrow> push_node (XElem m (rev cs)) st') s"
  using scan_tag [of "CHR ''/'' # n" "[]" "push_text acc st" "''>'' @ s"] xml_nameD [OF assms]
  by (simp add: inert_slash end_tag_def split: list.splits)

lemma empty_tag:
  assumes "xml_name n"
  shows "xscan False acc st (''<'' @ n @ ''/>'' @ s) =
     xscan False [] (push_node (XElem n []) (push_text acc st)) s"
proof -
  obtain c m where n: "n = c # m" "c \<noteq> CHR ''/''" using xml_nameD [OF assms] by (cases n) auto
  have "xscan True [] st' ((n @ ''/'') @ ''>'' @ s) =
      xscan False [] (end_tag (rev (n @ ''/'')) st') s" for st'
    using scan_tag [of "n @ ''/''" "[]" st' "''>'' @ s"] xml_nameD [OF assms]
    by (simp add: inert_slash)
  moreover have "end_tag (rev (n @ ''/'')) st' = push_node (XElem n []) st'" for st'
    using n by (simp add: end_tag_def)
  ultimately show ?thesis by simp
qed

text \<open>Scanning the print of an element puts it on the innermost open element.\<close>

lemma scan_elems:
  assumes "\<And>c st s. c \<in> set cs \<Longrightarrow>
      xscan False [] st (xshow c @ s) = xscan False [] (push_node c st) s"
  shows "xscan False [] ((n, acc) # st) (concat (map xshow cs) @ s) =
      xscan False [] ((n, rev cs @ acc) # st) s"
  using assms
proof (induction cs arbitrary: acc)
  case (Cons c cs)
  have "xscan False [] ((n, acc) # st) (xshow c @ concat (map xshow cs) @ s) =
      xscan False [] ((n, c # acc) # st) (concat (map xshow cs) @ s)"
    by (simp add: Cons.prems push_node_def)
  also have "\<dots> = xscan False [] ((n, rev cs @ c # acc) # st) s"
    by (rule Cons.IH) (auto intro: Cons.prems)
  finally show ?case by simp
qed simp

lemma inert_elem_children:
  assumes "inert (XElem n cs)"
  shows "(\<exists>t. cs = [XText t] \<and> xml_text t) \<or> (\<forall>c \<in> set cs. inert c \<and> (\<exists>m k. c = XElem m k))"
proof (cases "list_all (\<lambda>c. \<not> xmlNodeIsText c) cs")
  case True
  have "\<exists>m k. c = XElem m k" if "c \<in> set cs" for c
  proof -
    have "inert c" "\<not> xmlNodeIsText c" using that True assms by (auto simp: list_all_iff)
    then show ?thesis by (cases c) auto
  qed
  then show ?thesis using assms by (auto simp: list_all_iff)
next
  case False
  with assms have "length cs \<le> 1" "cs \<noteq> []" by auto
  then obtain c where c: "cs = [c]" by (cases cs) auto
  with False assms show ?thesis by (cases c) auto
qed

lemma scan_elem:
  "inert x \<Longrightarrow> x = XElem n cs \<Longrightarrow>
   xscan False [] st (xshow x @ s) = xscan False [] (push_node x st) s"
proof (induction x arbitrary: n cs st s)
  case (XElem m k)
  then have m: "xml_name m" by simp
  show ?case
  proof (cases "k = []")
    case True
    then show ?thesis using empty_tag [OF m, of "[]" st s] by (simp add: push_text_def)
  next
    case False
    have print: "xshow (XElem m k) @ s =
        ''<'' @ m @ ''>'' @ concat (map xshow k) @ ''</'' @ m @ ''>'' @ s"
      using False by simp
    have start: "xscan False [] st (xshow (XElem m k) @ s) =
        xscan False [] ((m, []) # st) (concat (map xshow k) @ ''</'' @ m @ ''>'' @ s)"
      unfolding print using open_tag [OF m, of "[]" st] by (simp add: push_text_def)
    from inert_elem_children [OF XElem.prems(1)] show ?thesis
    proof
      assume "\<exists>t. k = [XText t] \<and> xml_text t"
      then obtain t where t: "k = [XText t]" "list_all inert_char t" "t \<noteq> []"
        by (auto simp: xml_text_def)
      then show ?thesis
        unfolding start using scan_text [OF t(2), of "[]" "(m, []) # st"] close_tag [OF m, of "rev t" "(m, []) # st"]
        by (simp add: push_text_def push_node_def cong: list.case_cong)
    next
      assume k: "\<forall>c \<in> set k. inert c \<and> (\<exists>m k. c = XElem m k)"
      have "xscan False [] st' (xshow c @ s') = xscan False [] (push_node c st') s'"
        if "c \<in> set k" for c st' s'
      proof -
        from k that obtain j l where "inert c" "c = XElem j l" by blast
        with XElem.IH [OF that] show ?thesis by blast
      qed
      from scan_elems [OF this, where cs = k] show ?thesis
        unfolding start using close_tag [OF m, of "[]"] by (simp add: push_text_def)
    qed
  qed
qed simp_all

lemma xread_xshow: "inert (XElem n cs) \<Longrightarrow> xread (xshow (XElem n cs)) = Some (XElem n cs)"
  using scan_elem [of "XElem n cs" n cs "[([], [])]" "[]"]
  by (simp add: xread_def push_node_def)

lemma xshow_nul_free: "inert x \<Longrightarrow> nul_free (xshow x)"
proof (induction x)
  case (XElem n cs)
  then have "nul_free n" "\<forall>c \<in> set cs. nul_free (xshow c)"
    using xml_nameD [of n] by (auto simp: list_all_iff nul_free_def dest: inert_char_angle)
  then show ?case by (auto simp: nul_free_def)
next
  case (XText t)
  then show ?case by (auto simp: xml_text_def list_all_iff nul_free_def dest: inert_char_angle)
qed simp

lemma ref_xml_law: "xml_law ref_xml"
proof -
  have "xshow (XElem n cs) \<noteq> []" for n cs by simp
  then show ?thesis
    unfolding xml_law_def using xread_xshow xshow_nul_free
    by (simp add: ref_xml_def del: xshow.simps inert.simps)
qed

end
