(* ===== verification/Xpath_Parser.thy ===== *)
theory Xpath_Parser
  imports Tc_Service Ref_Xml "HOL-Library.Multiset"
begin

text \<open>
  \<open>vrtmchannel/xpathparser.cpp\<close> and \<open>tcServiceInterface::get_xpath_values\<close>: the values of a
  trust policy.  Loading a document, registering a name space and evaluating an XPath
  expression are libxml2's, the parameter \<open>xpath_lib\<close>; a result is the list of its nodes.
\<close>

datatype xpath_node = NamespaceNode | ElementNode cstr | AttributeNode cstr | OtherNode

record xpath_lib =
  xp_load :: "string \<Rightarrow> xnode option"
  xp_register :: "cstr \<Rightarrow> cstr \<Rightarrow> bool"
  xp_eval :: "xnode \<Rightarrow> (cstr \<times> cstr) list \<Rightarrow> cstr \<Rightarrow> xpath_node list option"

abbreviation LARGE_CHAR_ARR_SIZE :: nat where "LARGE_CHAR_ARR_SIZE \<equiv> 512"

section \<open>The parser\<close>

text \<open>\<open>setup_xpath_parser\<close>: the document of the file, with its context, or the error.\<close>

definition setup_xpath_parser ::
  "xpath_lib \<Rightarrow> 'w host \<Rightarrow> cstr \<Rightarrow> 'w \<Rightarrow> int \<times> xnode option"
where
  "setup_xpath_parser XP H filename w =
     (case xp_load XP (h_content H filename w) of
        None \<Rightarrow> (- 1, None)
      | Some doc \<Rightarrow> (0, Some doc))"

text \<open>
  \<open>register_namespaces\<close> on a list \<open>prefix=href prefix=href \<dots>\<close>: the registered pairs are
  added to those of the context.
\<close>

function register_namespaces ::
  "xpath_lib \<Rightarrow> cstr \<Rightarrow> (cstr \<times> cstr) list \<Rightarrow> int \<times> (cstr \<times> cstr) list"
where
  "register_namespaces XP nsList ns =
     (let s = dropWhile (\<lambda>c. c = CHR '' '') nsList
      in if s = [] then (0, ns)
         else let prefix = takeWhile (\<lambda>c. c \<noteq> CHR ''='') s; r = dropWhile (\<lambda>c. c \<noteq> CHR ''='') s
              in if r = [] then (- 1, ns)
                 else let href = takeWhile (\<lambda>c. c \<noteq> CHR '' '') (tl r);
                          r' = dropWhile (\<lambda>c. c \<noteq> CHR '' '') (tl r)
                      in if \<not> xp_register XP prefix href then (- 1, ns)
                         else if r' = [] then (0, ns @ [(prefix, href)])
                         else register_namespaces XP (tl r') (ns @ [(prefix, href)]))"
  by auto
termination
proof (relation "measure (\<lambda>(XP, s, ns). length s)", goal_cases)
  case (2 XP nsList ns s prefix r href r')
  have "length (dropWhile P (x :: string)) \<le> length x" for P x
    by (simp add: length_dropWhile_le)
  note le = this
  have "r \<noteq> []" "r' \<noteq> []" using 2 by auto
  then have "length (tl r') < length r'" by simp
  also have "\<dots> \<le> length (tl r)" unfolding 2 by (rule le)
  also have "\<dots> < length r" using \<open>r \<noteq> []\<close> by simp
  also have "\<dots> \<le> length nsList" unfolding 2 by (rule le_trans [OF le le])
  finally show ?case by simp
qed simp

declare register_namespaces.simps [simp del]

text \<open>
  \<open>list_elements_from_object\<close>: with no buffers, the number of nodes; else the texts of
  elements and attributes are copied, a text too long for its buffer leaving it empty.
\<close>

definition store_node :: "xpath_node \<Rightarrow> cstr \<Rightarrow> cstr" where
  "store_node nd buf =
     (case nd of
        ElementNode t \<Rightarrow> strcpy_s LARGE_CHAR_ARR_SIZE t
      | AttributeNode t \<Rightarrow> strcpy_s LARGE_CHAR_ARR_SIZE t
      | _ \<Rightarrow> buf)"

fun store_nodes :: "xpath_node list \<Rightarrow> cstr list \<Rightarrow> int \<times> cstr list" where
  "store_nodes (nd # nodes) (b # bufs) =
     (let (i, bs) = store_nodes nodes bufs in (i + 1, store_node nd b # bs))"
| "store_nodes nodes bufs = (0, bufs)"

definition list_elements_from_object ::
  "xpath_node list \<Rightarrow> cstr list option \<Rightarrow> int \<times> cstr list option"
where
  "list_elements_from_object nodes elements_buf =
     (case elements_buf of
        None \<Rightarrow> (int (length nodes), None)
      | Some bufs \<Rightarrow>
          if bufs = [] then (int (length nodes), Some bufs)
          else map_prod id Some (store_nodes nodes bufs))"

definition parse_xpath ::
  "xpath_lib \<Rightarrow> xnode \<Rightarrow> cstr option \<Rightarrow> cstr \<Rightarrow> cstr list option \<Rightarrow> int \<times> cstr list option"
where
  "parse_xpath XP doc nsList xpathExpr elements_buf =
     (let (r, ns) = (case nsList of None \<Rightarrow> (0, []) | Some l \<Rightarrow> register_namespaces XP l [])
      in if r < 0 then (- 1, elements_buf)
         else case xp_eval XP doc ns xpathExpr of
                None \<Rightarrow> (- 1, elements_buf)
              | Some nodes \<Rightarrow> list_elements_from_object nodes elements_buf)"

section \<open>\<open>get_xpath_values\<close>\<close>

text \<open>
  \<open>xpath_map\<close> is the content of the \<open>std::map\<close> in the order of its iterator.  The map is keyed
  by the addresses of the expressions, so this order is not fixed by the program.
\<close>

fun xpath_values ::
  "xpath_lib \<Rightarrow> xnode \<Rightarrow> cstr \<Rightarrow> (cstr \<times> cstr) list \<Rightarrow> (cstr \<times> cstr) list option"
where
  "xpath_values XP doc ns [] = Some []"
| "xpath_values XP doc ns ((x, buf) # rest) =
     (let p_size = fst (parse_xpath XP doc (Some ns) x None)
      in if p_size < 0 then None
         else if 1 < p_size then None
         else case parse_xpath XP doc (Some ns) x (Some [buf]) of
                (n, bufs) \<Rightarrow>
                  if n < 0 then None
                  else map_option ((#) (x, hd (the bufs))) (xpath_values XP doc ns rest))"

definition get_xpath_values ::
  "xpath_lib \<Rightarrow> 'w host \<Rightarrow> (cstr \<times> cstr) list \<Rightarrow> cstr \<Rightarrow> cstr \<Rightarrow> 'w \<Rightarrow> int + (cstr \<times> cstr) list"
where
  "get_xpath_values XP H xpath_map namespace_list xml_file w =
     (case setup_xpath_parser XP H xml_file w of
        (r, None) \<Rightarrow> Inl TCSERVICE_RESULT_FAILED
      | (r, Some doc) \<Rightarrow>
          if r < 0 then Inl TCSERVICE_RESULT_FAILED
          else case xpath_values XP doc namespace_list xpath_map of
                 None \<Rightarrow> Inl TCSERVICE_RESULT_FAILED
               | Some values \<Rightarrow> Inr values)"

section \<open>Properties\<close>

lemma register_namespaces_empty [simp]: "register_namespaces XP [] ns = (0, ns)"
  by (simp add: register_namespaces.simps)

text \<open>
  What one expression contributes, without name spaces: nothing but its first and only node
  is stored, and two or more nodes are an error.
\<close>

definition xpath_value :: "xpath_lib \<Rightarrow> xnode \<Rightarrow> cstr \<Rightarrow> cstr \<Rightarrow> cstr option" where
  "xpath_value XP doc x buf =
     (case xp_eval XP doc [] x of
        Some [] \<Rightarrow> Some buf
      | Some [nd] \<Rightarrow> Some (store_node nd buf)
      | _ \<Rightarrow> None)"

lemma xpath_values_Cons:
  "xpath_values XP doc [] ((x, buf) # rest) =
     (case xpath_value XP doc x buf of
        None \<Rightarrow> None
      | Some v \<Rightarrow> map_option ((#) (x, v)) (xpath_values XP doc [] rest))"
proof (cases "xp_eval XP doc [] x")
  case None
  then show ?thesis by (simp add: parse_xpath_def xpath_value_def Let_def)
next
  case (Some nodes)
  then consider "nodes = []" | nd where "nodes = [nd]" | a b r where "nodes = a # b # r"
    by (metis list.exhaust)
  then show ?thesis
    using Some
    by cases (simp_all add: parse_xpath_def xpath_value_def list_elements_from_object_def Let_def)
qed

lemma xpath_values_all:
  "xpath_values XP doc [] l =
     (if \<forall>(x, b) \<in> set l. xpath_value XP doc x b \<noteq> None
      then Some (map (\<lambda>(x, b). (x, the (xpath_value XP doc x b))) l) else None)"
proof (induction l)
  case (Cons a l)
  obtain x b where a: "a = (x, b)" by force
  have "(\<forall>(x, b) \<in> set (a # l). xpath_value XP doc x b \<noteq> None) \<longleftrightarrow>
      xpath_value XP doc x b \<noteq> None \<and> (\<forall>(x, b) \<in> set l. xpath_value XP doc x b \<noteq> None)"
    by (simp add: a)
  with Cons.IH show ?case
    unfolding a xpath_values_Cons by (cases "xpath_value XP doc x b") simp_all
qed simp

text \<open>The order of the iteration does not matter.\<close>

lemma xpath_values_perm:
  assumes "mset l' = mset l"
  shows "map_option mset (xpath_values XP doc [] l') = map_option mset (xpath_values XP doc [] l)"
proof -
  have s: "set l' = set l" using assms by (metis set_mset_mset)
  have "mset (map f l') = mset (map f l)" for f :: "cstr \<times> cstr \<Rightarrow> cstr \<times> cstr"
    using assms by simp
  with s show ?thesis by (simp add: xpath_values_all)
qed

lemma get_xpath_values_perm:
  assumes "mset l' = mset l"
  shows "map_sum id mset (get_xpath_values XP H l' [] f w) =
     map_sum id mset (get_xpath_values XP H l [] f w)"
proof -
  have "map_option mset (xpath_values XP doc [] l') = map_option mset (xpath_values XP doc [] l)" for doc
    using assms by (rule xpath_values_perm)
  then show ?thesis
    by (auto simp: get_xpath_values_def split: option.splits prod.splits)
      (metis option.map_disc_iff option.distinct(1) option.inject option.simps(9))+
qed

lemma get_xpath_values_length:
  assumes "get_xpath_values XP H l [] f w = Inr r"
  shows "map fst r = map fst l"
  using assms
  by (auto simp: get_xpath_values_def xpath_values_all split: option.splits prod.splits if_splits)

text \<open>Values never outgrow the 512-byte buffers.\<close>

lemma get_xpath_values_bound:
  assumes "get_xpath_values XP H l [] f w = Inr r" "\<forall>(x, b) \<in> set l. length b < LARGE_CHAR_ARR_SIZE"
  shows "\<forall>(x, v) \<in> set r. length v < LARGE_CHAR_ARR_SIZE"
proof -
  have "length v < LARGE_CHAR_ARR_SIZE"
    if "xpath_value XP doc x b = Some v" "length b < LARGE_CHAR_ARR_SIZE" for doc x b v
    using that by (auto simp: xpath_value_def store_node_def split: option.splits list.splits
        xpath_node.splits)
  with assms show ?thesis
    by (fastforce simp: get_xpath_values_def xpath_values_all split: option.splits prod.splits
        if_splits)
qed

section \<open>A reference instance\<close>

text \<open>
  For the witnesses: the expressions of the sources ask for the elements or attributes of a
  given local name; here both are the elements of that name.
\<close>

fun xml_named :: "string \<Rightarrow> xnode \<Rightarrow> xpath_node list" where
  "xml_named nm (XElem n cs) =
     (if n = nm then [ElementNode (xml_text_of (XElem n cs))] else []) @
     concat (map (xml_named nm) cs)"
| "xml_named nm x = []"

definition quoted_name :: "cstr \<Rightarrow> string" where
  "quoted_name x = takeWhile (\<lambda>c. c \<noteq> CHR 0x27) (tl (dropWhile (\<lambda>c. c \<noteq> CHR 0x27) x))"

definition ref_xpath :: xpath_lib where
  "ref_xpath = \<lparr>xp_load = xread, xp_register = (\<lambda>p h. True),
     xp_eval = (\<lambda>doc ns x. Some (xml_named (quoted_name x) doc))\<rparr>"

end
