(* ===== verification/Start_App.thy ===== *)
theory Start_App
  imports Xpath_Parser
begin

text \<open>
  \<open>tcServiceInterface::StartApp\<close> (\<open>vrtmcore/modtcService.cpp\<close>, the Linux build), phase by
  phase: the arguments, the trust reports of the VM, the launch policy, the measurement, the
  comparison with the golden hash, the entry in the process table, and the answer.
  Allocation is taken to succeed.
\<close>

section \<open>Arguments\<close>

record app_args =
  a_kernel :: cstr
  a_ramdisk :: cstr
  a_config :: "cstr option"
  a_uuid :: cstr
  a_disk :: cstr
  a_type :: int
  a_mount :: cstr
  a_name :: cstr

definition no_args :: app_args where
  "no_args = \<lparr>a_kernel = [], a_ramdisk = [], a_config = None, a_uuid = [], a_disk = [],
              a_type = INSTANCE_TYPE_VM, a_mount = [], a_name = []\<rparr>"

text \<open>
  \<open>if (av[i] matches the flag) set(av[++i])\<close>.  The next test looks at the new \<open>av[i]\<close>; a flag
  in the last place makes the code read \<open>av[an]\<close>, which was never written: \<open>None\<close>.
\<close>

definition take_value ::
  "cstr \<Rightarrow> (cstr \<Rightarrow> app_args \<Rightarrow> app_args) \<Rightarrow> cstr list \<Rightarrow> nat \<times> app_args \<Rightarrow> (nat \<times> app_args) option"
where
  "take_value flag set_arg av p =
     (case p of (i, a) \<Rightarrow>
        if av ! i = flag
        then (if Suc i < length av then Some (Suc i, set_arg (av ! Suc i) a) else None)
        else Some (i, a))"

definition parse_step :: "cstr list \<Rightarrow> nat \<times> app_args \<Rightarrow> (nat \<times> app_args) option" where
  "parse_step av p0 = do {
     p1 \<leftarrow> take_value ''-kernel'' (\<lambda>v a. a\<lparr>a_kernel := strcpy_s 1024 v\<rparr>) av p0;
     p2 \<leftarrow> take_value ''-ramdisk'' (\<lambda>v a. a\<lparr>a_ramdisk := strcpy_s 1024 v\<rparr>) av p1;
     p3 \<leftarrow> take_value ''-config'' (\<lambda>v a. a\<lparr>a_config := Some v\<rparr>) av p2;
     p4 \<leftarrow> take_value ''-uuid'' (\<lambda>v a. a\<lparr>a_uuid := strcpy_s UUID_SIZE v\<rparr>) av p3;
     p5 \<leftarrow> take_value ''-disk'' (\<lambda>v a. a\<lparr>a_disk := strcpy_s 1024 v\<rparr>) av p4;
     p6 \<leftarrow> Some (if av ! fst p5 = ''-docker_instance''
                  then (fst p5, (snd p5)\<lparr>a_type := INSTANCE_TYPE_DOCKER\<rparr>) else p5);
     p7 \<leftarrow> take_value ''-mount_path'' (\<lambda>v a. a\<lparr>a_mount := strcpy_s 128 v\<rparr>) av p6;
     take_value ''-name'' (\<lambda>v a. a\<lparr>a_name := strcpy_s INSTANCENAME_SIZE v\<rparr>) av p7 }"

lemma take_value_le: "take_value flag f av p = Some q \<Longrightarrow> fst p \<le> fst q"
  by (auto simp: take_value_def split: if_splits prod.splits)

lemma parse_step_le: "parse_step av p = Some q \<Longrightarrow> fst p \<le> fst q"
  unfolding parse_step_def
  by (auto simp: bind_eq_Some_conv split: if_splits dest!: take_value_le)

function parse_args :: "cstr list \<Rightarrow> nat \<Rightarrow> app_args \<Rightarrow> app_args option" where
  "parse_args av i a =
     (if i < length av
      then (case parse_step av (i, a) of
              None \<Rightarrow> None
            | Some (j, a') \<Rightarrow> parse_args av (Suc j) a')
      else Some a)"
  by auto
termination
  by (relation "measure (\<lambda>(av, i, a). length av - i)") (auto dest!: parse_step_le)

declare parse_args.simps [simp del]

section \<open>Phases\<close>

text \<open>
  What a phase needs to know of the run: the arguments, the report directory, the policy and
  the digest, as the local variables of the function.
\<close>

record app_run =
  r_args :: app_args
  r_dir :: cstr
  r_manifest :: cstr
  r_nohash :: cstr
  r_policy :: cstr
  r_golden :: cstr
  r_customer :: cstr
  r_image :: cstr
  r_signature :: cstr
  r_hash_file :: cstr

text \<open>
  \<open>Leave failed keep\<close> is the jump to \<open>return_response\<close> with \<open>start_app_status\<close> and
  \<open>keep_measurement_log\<close>; \<open>Continue\<close> falls through to the next phase.
\<close>

datatype 'a phase = Leave bool bool | Continue 'a

text \<open>The report directory is made and filled when it does not exist (a VM only).\<close>

definition prepare_reports :: "'w host \<Rightarrow> app_args \<Rightarrow> cstr \<Rightarrow> 'w \<Rightarrow> 'w" where
  "prepare_reports H a reports_dir w =
     (if a_type a = INSTANCE_TYPE_VM \<and> h_stat H reports_dir w = StatFails
      then let (_, w) = make_dir H reports_dir w;
               w = h_chmod H reports_dir w;
               n = strnlen_s (a_disk a) 1024;
               trust_report_dir = strncpy_s 1024 (a_disk a)
                                    (if n < 5 then Suc RSIZE_MAX_STR else n - 5);
               manifest_file = snprintf 1024 (trust_report_dir @ ''/trustpolicy.xml'');
               nohash_manifest_file = snprintf 1024 (trust_report_dir @ ''/manifest.xml'');
               (_, w) = copy_file H manifest_file
                          (snprintf 1024 (reports_dir @ ''/trustpolicy.xml'')) w;
               (_, w) = copy_file H nohash_manifest_file
                          (snprintf 1024 (reports_dir @ ''/manifest.xml'')) w
           in w
      else w)"

definition xpath_policy :: cstr where
  "xpath_policy = ''//*[local-name()='' @ CHR 0x27 # ''LaunchControlPolicy'' @ CHR 0x27 # '']''"
definition xpath_customer_id :: cstr where
  "xpath_customer_id = ''//*[local-name()='' @ CHR 0x27 # ''CustomerId'' @ CHR 0x27 # '']''"
definition xpath_image_id :: cstr where
  "xpath_image_id = ''//*[local-name()='' @ CHR 0x27 # ''ImageId'' @ CHR 0x27 # '']''"
definition xpath_image_hash :: cstr where
  "xpath_image_hash = ''//*[local-name()='' @ CHR 0x27 # ''ImageHash'' @ CHR 0x27 # '']''"
definition xpath_image_signature :: cstr where
  "xpath_image_signature = ''//*[local-name()='' @ CHR 0x27 # ''SignatureValue'' @ CHR 0x27 # '']''"
definition xpath_digest_alg :: cstr where
  "xpath_digest_alg = ''//*/@*[local-name()='' @ CHR 0x27 # ''DigestAlg'' @ CHR 0x27 # '']''"

definition policy_xpaths :: "(cstr \<times> cstr) list" where
  "policy_xpaths =
     [(xpath_policy, []), (xpath_customer_id, []), (xpath_image_id, []), (xpath_image_hash, []),
      (xpath_image_signature, [])]"

definition value_of :: "(cstr \<times> cstr) list \<Rightarrow> cstr \<Rightarrow> cstr" where
  "value_of values x = (case map_of values x of None \<Rightarrow> [] | Some v \<Rightarrow> v)"

definition launch_policy_of :: "cstr \<Rightarrow> cstr" where
  "launch_policy_of buff =
     (if buff = ''MeasureOnly'' then strcpy_s 10 ''Audit''
      else if buff = ''MeasureAndEnforce'' then strcpy_s 10 ''Enforce''
      else [])"

text \<open>
  Lines 1499 to 1582.  A policy that is neither Audit nor Enforce removes the reports and
  leaves without failure.
\<close>

definition read_policy ::
  "'w host \<Rightarrow> xpath_lib \<Rightarrow> app_args \<Rightarrow> cstr \<Rightarrow> 'w \<Rightarrow> app_run phase \<times> 'w"
where
  "read_policy H XP a reports_dir w =
     (let manifest_file = snprintf 1024 (reports_dir @ ''/trustpolicy.xml'');
          nohash_manifest_file = snprintf 1024 (reports_dir @ ''/manifest.xml'')
      in if \<not> h_access H manifest_file w then (Leave True False, w)
         else if \<not> h_access H nohash_manifest_file w then (Leave True False, w)
         else case get_xpath_values XP H policy_xpaths [] manifest_file w of
           Inl _ \<Rightarrow> (Leave True False, w)
         | Inr vals \<Rightarrow>
             (case get_xpath_values XP H [(xpath_digest_alg, [])] [] nohash_manifest_file w of
                Inl _ \<Rightarrow> (Leave True False, w)
              | Inr digest \<Rightarrow>
                  (let launchPolicy = launch_policy_of (value_of vals xpath_policy)
                   in if launchPolicy \<noteq> ''Audit'' \<and> launchPolicy \<noteq> ''Enforce''
                      then (Leave False False, snd (remove_dir H reports_dir w))
                      else let digestAlg = strcpy_s 10 (value_of digest xpath_digest_alg)
                           in (Continue \<lparr>r_args = a, r_dir = reports_dir,
                                 r_manifest = manifest_file, r_nohash = nohash_manifest_file,
                                 r_policy = launchPolicy,
                                 r_golden = strcpy_s 65 (value_of vals xpath_image_hash),
                                 r_customer = value_of vals xpath_customer_id,
                                 r_image = value_of vals xpath_image_id,
                                 r_signature = value_of vals xpath_image_signature,
                                 r_hash_file = snprintf 1024
                                   (reports_dir @ ''/measurement.'' @ digestAlg)\<rparr>, w))))"

definition ma_log :: cstr where
  "ma_log = ''/measurement.log''"

definition log_redirect :: "cstr \<Rightarrow> int \<Rightarrow> cstr" where
  "log_redirect reports_dir child =
     reports_dir @ ''/'' @ ma_log @ ''-'' @ show_int child @ '' 2>&1''"

text \<open>
  Lines 1584 to 1690: mount the disk, run the verifier, unmount.  A failing verifier is
  reported only after the unmount, whose own failure takes precedence.
\<close>

definition measure_vm :: "'w host \<Rightarrow> globals \<Rightarrow> app_run \<Rightarrow> int \<Rightarrow> 'w \<Rightarrow> unit phase \<times> 'w" where
  "measure_vm H G r child w =
     (let mount_script = snprintf 128 (g_vrtm_root G @ ''/scripts/mount_vm_image.sh'');
          mount_path = snprintf 128 (g_mount_path G @ a_uuid (r_args r) @ ''-'' @ show_int child);
          (d, w) = make_dir H mount_path w
      in if d \<noteq> 0 then (Leave True False, w)
         else let (i, w) = h_system H (snprintf 2304 (mount_script @ '' '' @ a_disk (r_args r) @
                    '' '' @ mount_path @ '' '' @ show_int child @ '' > '' @
                    log_redirect (r_dir r) child)) w
         in if i \<noteq> 0 then (Leave True True, w)
            else let (verifier_exit_status, w) = h_system H (snprintf 2304 (''./verifier '' @
                       r_nohash r @ '' '' @ mount_path @ ''/mount/ IMVM >> '' @
                       log_redirect (r_dir r) child)) w;
                     (i, w) = h_system H (snprintf 2304 (mount_script @ '' '' @ mount_path @
                       '' >> '' @ log_redirect (r_dir r) child)) w
            in if i \<noteq> 0 then (Leave True True, w)
               else if verifier_exit_status \<noteq> 0 then (Leave True True, w)
               else (Continue (), w))"

definition measure_docker :: "'w host \<Rightarrow> app_run \<Rightarrow> int \<Rightarrow> 'w \<Rightarrow> unit phase \<times> 'w" where
  "measure_docker H r child w =
     (let (i, w) = h_system H (snprintf 2304 (''./verifier '' @ r_nohash r @ '' '' @
            a_mount (r_args r) @ ''/ IMVM >> '' @ log_redirect (r_dir r) child)) w
      in if i \<noteq> 0 then (Leave True True, w) else (Continue (), w))"

text \<open>The first line of the measurement, as a C string of at most 64 characters.\<close>

definition image_hash_of :: "string \<Rightarrow> cstr" where
  "image_hash_of content =
     (case fgets 511 content of (line, _, _) \<Rightarrow>
        if line = [] then [] else strncpy_s 65 (cstr_of line) 64)"

definition read_measurement :: "'w host \<Rightarrow> app_run \<Rightarrow> 'w \<Rightarrow> cstr phase \<times> 'w" where
  "read_measurement H r w =
     (case h_fopen H (r_hash_file r) ForRead w of
        (False, w) \<Rightarrow> (Leave True True, w)
      | (True, w) \<Rightarrow> (Continue (image_hash_of (h_content H (r_hash_file r) w)), w))"

definition verify_hash :: "app_run \<Rightarrow> cstr \<Rightarrow> bool" where
  "verify_hash r imageHash \<longleftrightarrow> imageHash = r_golden r"

text \<open>
  Lines 1741 to 1778: the entry under the request's number, unless the UUID is known
  already, and its data.  The stored hash is the measured one.
\<close>

definition register_instance ::
  "'w host \<Rightarrow> app_run \<Rightarrow> int \<Rightarrow> cstr \<Rightarrow> bool \<Rightarrow> 'w core \<Rightarrow> int phase \<times> 'w core"
where
  "register_instance H r procid imageHash verification s =
     (let a = r_args r;
          temp_proc_id = getprocIdfromuuid (a_uuid a) (proc_table s);
          (added, s1) = (if temp_proc_id = 0
             then addprocEntry H Linux procid (a_kernel a) (a_uuid a) 32 (replicate 32 0)
                    (a_type a) s
             else (True, s));
          child = (if temp_proc_id = 0 then procid else temp_proc_id)
      in if \<not> added then (Leave True True, s1)
         else let d = \<lparr>vm_image_id = r_image r, vm_customer_id = r_customer r,
                       vm_manifest_hash = strcpy_s MANIFEST_HASH_SIZE imageHash,
                       vm_manifest_signature = r_signature r, launch_policy = r_policy r,
                       verification_status = verification, vm_manifest_dir = r_dir r\<rparr>;
                  (update_stat, s2) =
                    (if a_type a = INSTANCE_TYPE_VM then updateprocEntry H Linux child d None s1
                     else if a_type a = INSTANCE_TYPE_DOCKER
                     then updateprocEntry H Linux child d (Some (a_name a)) s1
                     else (False, s1))
              in if \<not> update_stat then (Leave True True, s2) else (Continue child, s2))"

text \<open>
  \<open>return_response\<close>: the result code and the integer written to \<open>out\<close>.  The reports of a
  failed start are removed unless a measurement log was written.
\<close>

definition fail_response :: "'w host \<Rightarrow> bool \<Rightarrow> cstr \<Rightarrow> 'w core \<Rightarrow> (int \<times> int option) \<times> 'w core" where
  "fail_response H keep reports_dir s =
     ((TCSERVICE_RESULT_FAILED, Some (- 1)),
      if keep then s else s\<lparr>os := snd (remove_dir H reports_dir (os s))\<rparr>)"

definition ok_response :: "bool \<Rightarrow> cstr \<Rightarrow> int \<Rightarrow> int \<times> int option" where
  "ok_response verification launchPolicy child =
     (TCSERVICE_RESULT_SUCCESS,
      Some (if \<not> verification \<and> launchPolicy = ''Enforce'' then - 1 else child))"

section \<open>\<open>StartApp\<close>\<close>

text \<open>The checks on the arguments; a failure here writes nothing to \<open>out\<close>.\<close>

definition args_ok :: "app_args \<Rightarrow> bool" where
  "args_ok a \<longleftrightarrow> a_uuid a \<noteq> [] \<and>
     \<not> (a_type a = INSTANCE_TYPE_DOCKER \<and> a_mount a = []) \<and>
     \<not> (a_type a = INSTANCE_TYPE_DOCKER \<and> a_name a = [])"

definition measure_and_register ::
  "'w host \<Rightarrow> globals \<Rightarrow> app_run \<Rightarrow> int \<Rightarrow> 'w core \<Rightarrow> (int \<times> int option) \<times> 'w core"
where
  "measure_and_register H G r procid s =
     (case (if a_type (r_args r) = INSTANCE_TYPE_VM then measure_vm H G r procid (os s)
            else if a_type (r_args r) = INSTANCE_TYPE_DOCKER
            then measure_docker H r procid (os s)
            else (Continue (), os s)) of
        (Leave _ keep, w) \<Rightarrow> fail_response H keep (r_dir r) (s\<lparr>os := w\<rparr>)
      | (Continue _, w) \<Rightarrow>
          (case read_measurement H r w of
             (Leave _ keep, w) \<Rightarrow> fail_response H keep (r_dir r) (s\<lparr>os := w\<rparr>)
           | (Continue imageHash, w) \<Rightarrow>
               (let verification = verify_hash r imageHash
                in case register_instance H r procid imageHash verification (s\<lparr>os := w\<rparr>) of
                     (Leave _ keep, s') \<Rightarrow> fail_response H keep (r_dir r) s'
                   | (Continue child, s') \<Rightarrow>
                       (ok_response verification (r_policy r) child, s'))))"

definition StartApp ::
  "'w host \<Rightarrow> xpath_lib \<Rightarrow> globals \<Rightarrow> int \<Rightarrow> cstr list \<Rightarrow> 'w core
     \<Rightarrow> ((int \<times> int option) \<times> 'w core) option"
where
  "StartApp H XP G procid av s =
     (if 30 < length av then Some ((TCSERVICE_RESULT_FAILED, None), s)
      else case parse_args av 0 no_args of
        None \<Rightarrow> None
      | Some a \<Rightarrow>
          if \<not> args_ok a then Some ((TCSERVICE_RESULT_FAILED, None), s)
          else let reports_dir = snprintf 1024 (g_trust_report_dir G @ a_uuid a @ ''/'');
                   w = prepare_reports H a reports_dir (os s)
          in case read_policy H XP a reports_dir w of
               (Leave True keep, w) \<Rightarrow>
                 Some (fail_response H keep reports_dir (s\<lparr>os := w\<rparr>))
             | (Leave False keep, w) \<Rightarrow> Some (ok_response False [] procid, s\<lparr>os := w\<rparr>)
             | (Continue r, w) \<Rightarrow>
                 Some (measure_and_register H G r procid (s\<lparr>os := w\<rparr>)))"

end
