(* ===== verification/Start_App_Props.thy ===== *)
theory Start_App_Props
  imports Start_App
begin

text \<open>
  What \<open>StartApp\<close> guarantees: the process table stays well-formed, an instance whose policy
  is Enforce is accepted only when its measured hash is the golden hash, and a refused one is
  recorded as CANCELLED.
\<close>

section \<open>Arguments\<close>

lemma take_value_keeps:
  assumes "take_value flag f av p = Some q" "P (snd p)" "\<And>v a. P a \<Longrightarrow> P (f v a)"
  shows "P (snd q)"
  using assms by (auto simp: take_value_def split: if_splits prod.splits)

text \<open>The UUID fits its buffer, and the type is one of the two.\<close>

definition args_wf :: "app_args \<Rightarrow> bool" where
  "args_wf a \<longleftrightarrow>
     length (a_uuid a) < UUID_SIZE \<and> a_type a \<in> {INSTANCE_TYPE_VM, INSTANCE_TYPE_DOCKER}"

lemma parse_step_wf:
  assumes "parse_step av p = Some q" "args_wf (snd p)"
  shows "args_wf (snd q)"
proof -
  obtain p1 p2 p3 p4 p5 p7 where s:
    "take_value ''-kernel'' (\<lambda>v a. a\<lparr>a_kernel := strcpy_s 1024 v\<rparr>) av p = Some p1"
    "take_value ''-ramdisk'' (\<lambda>v a. a\<lparr>a_ramdisk := strcpy_s 1024 v\<rparr>) av p1 = Some p2"
    "take_value ''-config'' (\<lambda>v a. a\<lparr>a_config := Some v\<rparr>) av p2 = Some p3"
    "take_value ''-uuid'' (\<lambda>v a. a\<lparr>a_uuid := strcpy_s UUID_SIZE v\<rparr>) av p3 = Some p4"
    "take_value ''-disk'' (\<lambda>v a. a\<lparr>a_disk := strcpy_s 1024 v\<rparr>) av p4 = Some p5"
    "take_value ''-mount_path'' (\<lambda>v a. a\<lparr>a_mount := strcpy_s 128 v\<rparr>) av
       (if av ! fst p5 = ''-docker_instance''
        then (fst p5, (snd p5)\<lparr>a_type := INSTANCE_TYPE_DOCKER\<rparr>) else p5) = Some p7"
    "take_value ''-name'' (\<lambda>v a. a\<lparr>a_name := strcpy_s INSTANCENAME_SIZE v\<rparr>) av p7 = Some q"
    using assms(1) unfolding parse_step_def bind_eq_Some_conv by blast
  have "args_wf (snd p1)" by (rule take_value_keeps [where P = args_wf, OF s(1) assms(2)]) (simp add: args_wf_def)
  then have "args_wf (snd p2)" by (rule take_value_keeps [where P = args_wf, OF s(2)]) (simp add: args_wf_def)
  then have "args_wf (snd p3)" by (rule take_value_keeps [where P = args_wf, OF s(3)]) (simp add: args_wf_def)
  then have "args_wf (snd p4)" by (rule take_value_keeps [where P = args_wf, OF s(4)]) (simp add: args_wf_def)
  then have "args_wf (snd p5)" by (rule take_value_keeps [where P = args_wf, OF s(5)]) (simp add: args_wf_def)
  then have "args_wf (snd p7)" by (intro take_value_keeps [where P = args_wf, OF s(6)]) (simp_all add: args_wf_def)
  then show ?thesis by (rule take_value_keeps [where P = args_wf, OF s(7)]) (simp add: args_wf_def)
qed

lemma parse_args_wf:
  "parse_args av i a = Some a' \<Longrightarrow> args_wf a \<Longrightarrow> args_wf a'"
proof (induction av i a rule: parse_args.induct)
  case (1 av i a)
  show ?case
  proof (cases "i < length av")
    case True
    with "1.prems" obtain j b where s: "parse_step av (i, a) = Some (j, b)"
      "parse_args av (Suc j) b = Some a'"
      by (auto simp: parse_args.simps [of av i a] split: option.splits)
    have "args_wf b" using parse_step_wf [OF s(1)] "1.prems"(2) by simp
    with "1.IH" [OF True s(1) refl] s(2) show ?thesis by blast
  next
    case False
    with "1.prems" show ?thesis by (simp add: parse_args.simps [of av i a])
  qed
qed

lemma parse_args_wf0: "parse_args av 0 no_args = Some a \<Longrightarrow> args_wf a"
  by (rule parse_args_wf, assumption) (simp add: no_args_def args_wf_def)

text \<open>The arguments the proxy sends, when no value looks like a flag.\<close>

definition is_flag :: "cstr \<Rightarrow> bool" where
  "is_flag s \<longleftrightarrow> s \<in> {''-kernel'', ''-ramdisk'', ''-config'', ''-uuid'', ''-disk'',
     ''-docker_instance'', ''-mount_path'', ''-name''}"

lemma parse_step_flags:
  assumes "\<not> is_flag (av ! Suc i)" "Suc i < length av"
  shows "av ! i = ''-kernel'' \<Longrightarrow>
      parse_step av (i, a) = Some (Suc i, a\<lparr>a_kernel := strcpy_s 1024 (av ! Suc i)\<rparr>)"
    and "av ! i = ''-ramdisk'' \<Longrightarrow>
      parse_step av (i, a) = Some (Suc i, a\<lparr>a_ramdisk := strcpy_s 1024 (av ! Suc i)\<rparr>)"
    and "av ! i = ''-config'' \<Longrightarrow>
      parse_step av (i, a) = Some (Suc i, a\<lparr>a_config := Some (av ! Suc i)\<rparr>)"
    and "av ! i = ''-uuid'' \<Longrightarrow>
      parse_step av (i, a) = Some (Suc i, a\<lparr>a_uuid := strcpy_s UUID_SIZE (av ! Suc i)\<rparr>)"
    and "av ! i = ''-disk'' \<Longrightarrow>
      parse_step av (i, a) = Some (Suc i, a\<lparr>a_disk := strcpy_s 1024 (av ! Suc i)\<rparr>)"
  using assms by (simp_all add: parse_step_def take_value_def is_flag_def)

lemma parse_args_step:
  "i < length av \<Longrightarrow> parse_step av (i, a) = Some (j, b) \<Longrightarrow> parse_args av i a = parse_args av (Suc j) b"
  by (simp add: parse_args.simps [of av i a])

lemma parse_args_done: "length av \<le> i \<Longrightarrow> parse_args av i a = Some a"
  by (simp add: parse_args.simps [of av i a])

definition proxy_args :: "cstr \<Rightarrow> cstr \<Rightarrow> cstr \<Rightarrow> cstr \<Rightarrow> cstr list" where
  "proxy_args kernel_path ramdisk_path disk_path uuid =
     [''-kernel'', kernel_path, ''-ramdisk'', ramdisk_path, ''-disk'', disk_path,
      ''-uuid'', uuid, ''-config'', ''config'']"

lemma parse_proxy_args:
  assumes "\<not> is_flag k" "\<not> is_flag r" "\<not> is_flag d" "\<not> is_flag u"
  shows "parse_args (proxy_args k r d u) 0 no_args =
    Some (no_args\<lparr>a_kernel := strcpy_s 1024 k, a_ramdisk := strcpy_s 1024 r,
      a_disk := strcpy_s 1024 d, a_uuid := strcpy_s UUID_SIZE u, a_config := Some ''config''\<rparr>)"
proof -
  let ?av = "proxy_args k r d u"
  have c: "\<not> is_flag ''config''" by (simp add: is_flag_def)
  have n: "?av ! 0 = ''-kernel''" "?av ! Suc 0 = k" "?av ! 2 = ''-ramdisk''" "?av ! Suc 2 = r"
    "?av ! 4 = ''-disk''" "?av ! Suc 4 = d" "?av ! 6 = ''-uuid''" "?av ! Suc 6 = u"
    "?av ! 8 = ''-config''" "?av ! Suc 8 = ''config''" "length ?av = 10"
    by (simp_all add: proxy_args_def)
  have "parse_args ?av 0 a = parse_args ?av 2 (a\<lparr>a_kernel := strcpy_s 1024 k\<rparr>)" for a
    using parse_args_step [OF _ parse_step_flags(1) [of ?av 0]] n assms by (simp add: numeral_2_eq_2)
  moreover have "parse_args ?av 2 a = parse_args ?av 4 (a\<lparr>a_ramdisk := strcpy_s 1024 r\<rparr>)" for a
    using parse_args_step [OF _ parse_step_flags(2) [of ?av 2]] n assms by simp
  moreover have "parse_args ?av 4 a = parse_args ?av 6 (a\<lparr>a_disk := strcpy_s 1024 d\<rparr>)" for a
    using parse_args_step [OF _ parse_step_flags(5) [of ?av 4]] n assms by simp
  moreover have "parse_args ?av 6 a = parse_args ?av 8 (a\<lparr>a_uuid := strcpy_s UUID_SIZE u\<rparr>)" for a
    using parse_args_step [OF _ parse_step_flags(4) [of ?av 6]] n assms by simp
  moreover have "parse_args ?av 8 a = Some (a\<lparr>a_config := Some ''config''\<rparr>)" for a
    using parse_args_step [OF _ parse_step_flags(3) [of ?av 8]] n c parse_args_done [of ?av]
    by simp
  ultimately show ?thesis by simp
qed

section \<open>Registration\<close>

lemma register_failed: "fst (register_instance H r p h v s) = Leave f keep \<Longrightarrow> keep"
  by (auto simp: register_instance_def Let_def split: if_splits prod.splits)

text \<open>The table after the entry has been added or found.\<close>

definition entry_core :: "'w host \<Rightarrow> app_run \<Rightarrow> int \<Rightarrow> 'w core \<Rightarrow> bool \<times> 'w core" where
  "entry_core H r procid s =
     (if getprocIdfromuuid (a_uuid (r_args r)) (proc_table s) = 0
      then addprocEntry H Linux procid (a_kernel (r_args r)) (a_uuid (r_args r)) 32
             (replicate 32 0) (a_type (r_args r)) s
      else (True, s))"

definition run_meta :: "app_run \<Rightarrow> cstr \<Rightarrow> bool \<Rightarrow> vm_meta" where
  "run_meta r h v =
     \<lparr>vm_image_id = r_image r, vm_customer_id = r_customer r,
      vm_manifest_hash = strcpy_s MANIFEST_HASH_SIZE h, vm_manifest_signature = r_signature r,
      launch_policy = r_policy r, verification_status = v, vm_manifest_dir = r_dir r\<rparr>"

definition run_name :: "app_run \<Rightarrow> cstr option" where
  "run_name r = (if a_type (r_args r) = INSTANCE_TYPE_VM then None else Some (a_name (r_args r)))"

definition run_child :: "app_run \<Rightarrow> int \<Rightarrow> 'w core \<Rightarrow> int" where
  "run_child r procid s =
     (let k = getprocIdfromuuid (a_uuid (r_args r)) (proc_table s) in if k = 0 then procid else k)"

lemma fst_entry_core [simp]: "fst (entry_core H r procid s)"
  by (simp add: entry_core_def addprocEntry_def Let_def split: prod.splits)

lemma register_instance_eq:
  assumes "args_wf (r_args r)"
  shows "register_instance H r procid h v s =
     (let s1 = snd (entry_core H r procid s);
          (ok, s2) = updateprocEntry H Linux (run_child r procid s) (run_meta r h v) (run_name r) s1
      in if ok then (Continue (run_child r procid s), s2) else (Leave True True, s2))"
proof -
  obtain s1 where e: "entry_core H r procid s = (True, s1)"
    using fst_entry_core [of H r procid s] by (metis (full_types) prod.collapse)
  note a = e [unfolded entry_core_def]
  have flip: "(if \<not> b then x else y) = (if b then y else x)" for b and x y :: "int phase \<times> 'a core"
    by simp
  from assms consider "a_type (r_args r) = INSTANCE_TYPE_VM" | "a_type (r_args r) = INSTANCE_TYPE_DOCKER"
    by (auto simp: args_wf_def)
  then show ?thesis
    by cases (unfold register_instance_def run_child_def run_meta_def run_name_def Let_def a e,
      simp_all only: prod.case fst_conv snd_conv not_True_eq_False if_False if_True
        case_prod_beta simp_thms zero_neq_one one_neq_zero flip)
qed

lemma table_inv_entry_core:
  assumes inv: "table_inv (proc_table s)" and p: "procid \<noteq> 0"
    and u: "args_wf (r_args r)"
  shows "table_inv (proc_table (snd (entry_core H r procid s)))"
  using inv table_inv_add [OF inv p, of "a_uuid (r_args r)" 32 "replicate 32 0" H Linux] u
  by (simp add: entry_core_def args_wf_def)

lemma table_inv_register:
  assumes inv: "table_inv (proc_table s)" and p: "procid \<noteq> 0"
    and u: "args_wf (r_args r)"
  shows "table_inv (proc_table (snd (register_instance H r procid h v s)))"
  using table_inv_update [OF table_inv_entry_core [OF inv p u, of H]]
  by (auto simp: register_instance_eq [OF u] Let_def split: prod.splits)
    (metis snd_conv)+

text \<open>The entry an update leaves under its key.\<close>

definition updated_entry :: "vm_meta \<Rightarrow> cstr option \<Rightarrow> serviceprocEnt \<Rightarrow> serviceprocEnt" where
  "updated_entry d nm e = set_instance_name nm (set_launch_status Linux d (set_meta d e))"

lemma updateprocEntry_lookup:
  assumes "map_ok (proc_table s)"
  shows "fst (updateprocEntry H Linux k d nm s) \<longleftrightarrow> map_of (proc_table s) k \<noteq> None"
    and "map_of (proc_table (snd (updateprocEntry H Linux k d nm s))) j =
      (if j = k then map_option (updated_entry d nm) (map_of (proc_table s) k)
       else map_of (proc_table s) j)"
  using assms
  by (auto simp: updateprocEntry_def updated_entry_def Let_def map_of_modify split: option.splits)

lemma updated_entry_simps [simp]:
  "m_uuid (updated_entry d nm e) = m_uuid e"
  "m_vm_verfication_status (updated_entry d nm e) = verification_status d"
  "m_vm_manifest_hash (updated_entry d nm e) = strcpy_s MANIFEST_HASH_SIZE (vm_manifest_hash d)"
  "m_vm_launch_policy (updated_entry d nm e) = strcpy_s LAUNCH_POLICY_SIZE (launch_policy d)"
  by (simp_all add: updated_entry_def set_meta_def set_launch_status_def set_instance_name_def
      Let_def split: platform.splits option.splits)

lemma updated_entry_status:
  "m_vm_status (updated_entry d nm e) =
     (if \<not> verification_status d \<and> launch_policy d = ''Enforce'' then VM_STATUS_CANCELLED
      else if m_instance_type e = INSTANCE_TYPE_DOCKER then VM_STATUS_STARTED else m_vm_status e)"
  by (simp add: updated_entry_def set_meta_def set_launch_status_def set_instance_name_def
      Let_def split: platform.splits option.splits)

text \<open>
  The entry that a registration writes: that of the instance's UUID, and for an unknown UUID the
  new one, unless the number of the request is still the key of another entry, which
  \<open>map::insert\<close> keeps.
\<close>

definition recording_uuid :: "app_run \<Rightarrow> int \<Rightarrow> ptab \<Rightarrow> cstr" where
  "recording_uuid r procid t =
     (if getprocIdfromuuid (a_uuid (r_args r)) t \<noteq> 0 then a_uuid (r_args r)
      else case map_of t procid of None \<Rightarrow> a_uuid (r_args r) | Some f \<Rightarrow> m_uuid f)"

lemma recording_uuid_own:
  "map_of t procid = None \<or> getprocIdfromuuid (a_uuid (r_args r)) t \<noteq> 0 \<Longrightarrow> recording_uuid r procid t = a_uuid (r_args r)"
  by (auto simp: recording_uuid_def)

lemma entry_core_lookup:
  assumes ok: "map_ok (proc_table s)" and u: "args_wf (r_args r)"
  shows "\<exists>e. map_of (proc_table (snd (entry_core H r procid s))) (run_child r procid s) = Some e \<and>
     m_uuid e = recording_uuid r procid (proc_table s)"
proof (cases "getprocIdfromuuid (a_uuid (r_args r)) (proc_table s) = 0")
  case True
  then show ?thesis
    using u ok
    by (cases "map_of (proc_table s) procid")
      (auto simp: entry_core_def run_child_def addprocEntry_def args_wf_def map_lookup_simps
        recording_uuid_def Let_def split: prod.splits)
next
  case False
  then show ?thesis
    using getprocIdfromuuid_lookup [OF ok refl False]
    by (simp add: entry_core_def run_child_def recording_uuid_def Let_def)
qed

lemma map_ok_entry_core:
  "map_ok (proc_table s) \<Longrightarrow> map_ok (proc_table (snd (entry_core H r procid s)))"
  by (auto simp: entry_core_def addprocEntry_def Let_def split: prod.splits)

lemma register_continue:
  assumes ok: "map_ok (proc_table s)" and u: "args_wf (r_args r)"
  shows "\<exists>e s'. register_instance H r procid h v s = (Continue (run_child r procid s), s') \<and>
     map_of (proc_table s') (run_child r procid s) =
       Some (updated_entry (run_meta r h v) (run_name r) e) \<and> m_uuid e = recording_uuid r procid (proc_table s)"
proof -
  let ?k = "run_child r procid s" and ?s1 = "snd (entry_core H r procid s)"
  obtain e where e: "map_of (proc_table ?s1) ?k = Some e" "m_uuid e = recording_uuid r procid (proc_table s)"
    using entry_core_lookup [OF ok u] by blast
  show ?thesis
    using e updateprocEntry_lookup [where H = H and k = ?k and d = "run_meta r h v" and nm = "run_name r",
        OF map_ok_entry_core [where H = H and r = r and procid = procid, OF ok]]
    by (auto simp: register_instance_eq [OF u] Let_def split: prod.splits)
qed

section \<open>The phases\<close>

lemma read_policy_run:
  assumes "read_policy H XP a d w = (Continue r, w')"
  shows "r_args r = a" "r_policy r = ''Audit'' \<or> r_policy r = ''Enforce''" "r_dir r = d"
    "length (r_golden r) < 65"
  using assms by (auto simp: read_policy_def Let_def split: if_splits sum.splits)

lemma image_hash_length: "length (image_hash_of c) < 65"
  by (auto simp: image_hash_of_def split: prod.splits)

lemma read_measurement_length:
  "read_measurement H r w = (Continue h, w') \<Longrightarrow> length h < 65"
  by (auto simp: read_measurement_def image_hash_length split: prod.splits bool.splits)

text \<open>Every outcome of the second half: a failure, or an entry that records the decision.\<close>

definition decided :: "app_run \<Rightarrow> cstr \<Rightarrow> ptab \<Rightarrow> int \<Rightarrow> int option \<Rightarrow> bool" where
  "decided r u t k out \<longleftrightarrow>
     (\<exists>e. map_of t k = Some e \<and> m_uuid e = u \<and>
        m_vm_launch_policy e = r_policy r \<and>
        m_vm_verfication_status e = (m_vm_manifest_hash e = r_golden r) \<and>
        (\<not> m_vm_verfication_status e \<and> r_policy r = ''Enforce'' \<longrightarrow>
           m_vm_status e = VM_STATUS_CANCELLED) \<and>
        out = Some (if \<not> m_vm_verfication_status e \<and> r_policy r = ''Enforce'' then - 1 else k))"

lemma register_decided:
  assumes ok: "map_ok (proc_table s)" and u: "args_wf (r_args r)"
    and pol: "r_policy r = ''Audit'' \<or> r_policy r = ''Enforce''" and h: "length h < 65"
    and res: "register_instance H r procid h (verify_hash r h) s = (ph, s')"
  shows "ph = Continue (run_child r procid s)"
    and "decided r (recording_uuid r procid (proc_table s)) (proc_table s') (run_child r procid s)
       (snd (ok_response (verify_hash r h) (r_policy r) (run_child r procid s)))"
proof -
  obtain e where e: "ph = Continue (run_child r procid s)" "m_uuid e = recording_uuid r procid (proc_table s)"
    "map_of (proc_table s') (run_child r procid s) =
       Some (updated_entry (run_meta r h (verify_hash r h)) (run_name r) e)"
    using register_continue [where H = H and procid = procid and h = h and v = "verify_hash r h", OF ok u] res by auto
  then show "ph = Continue (run_child r procid s)" by simp
  have "length (r_policy r) < LAUNCH_POLICY_SIZE" using pol by auto
  with e h show "decided r (recording_uuid r procid (proc_table s)) (proc_table s') (run_child r procid s)
       (snd (ok_response (verify_hash r h) (r_policy r) (run_child r procid s)))"
    by (auto simp: decided_def run_meta_def verify_hash_def ok_response_def updated_entry_status)
qed

lemma measure_outcome:
  assumes ok: "map_ok (proc_table s)" and u: "args_wf (r_args r)"
    and pol: "r_policy r = ''Audit'' \<or> r_policy r = ''Enforce''"
    and res: "measure_and_register H G r procid s = ((c, out), s')"
  shows "c = TCSERVICE_RESULT_FAILED \<and> out = Some (- 1) \<and> proc_table s' = proc_table s \<or>
     c = TCSERVICE_RESULT_SUCCESS \<and> decided r (recording_uuid r procid (proc_table s)) (proc_table s') (run_child r procid s) out"
proof -
  let ?m = "if a_type (r_args r) = INSTANCE_TYPE_VM then measure_vm H G r procid (os s)
    else if a_type (r_args r) = INSTANCE_TYPE_DOCKER then measure_docker H r procid (os s)
    else (Continue (), os s)"
  obtain m w1 where m: "?m = (m, w1)" by force
  obtain q w2 where q: "read_measurement H r w1 = (q, w2)" by force
  show ?thesis
  proof (cases m)
    case (Leave f k)
    with res m show ?thesis
      by (auto simp: measure_and_register_def fail_response_def split: if_splits)
  next
    case m': (Continue x)
    show ?thesis
    proof (cases q)
      case (Leave f k)
      with res m m' q show ?thesis
        by (auto simp: measure_and_register_def fail_response_def split: if_splits)
    next
      case (Continue h)
      obtain ph s1 where
        ph: "register_instance H r procid h (verify_hash r h) (s\<lparr>os := w2\<rparr>) = (ph, s1)"
        by force
      have d: "ph = Continue (run_child r procid s)"
        "decided r (recording_uuid r procid (proc_table s)) (proc_table s1) (run_child r procid s)
           (snd (ok_response (verify_hash r h) (r_policy r) (run_child r procid s)))"
        using register_decided [OF _ u pol _ ph] read_measurement_length [of H r w1 h w2]
          ok q Continue
        by (simp_all add: run_child_def)
      with res m m' q Continue ph show ?thesis
        by (auto simp: measure_and_register_def ok_response_def Let_def split: if_splits)
    qed
  qed
qed

end
