(* ===== verification/Start_App_Spec.thy ===== *)
theory Start_App_Spec
  imports Start_App_Props
begin

text \<open>
  The properties of \<open>StartApp\<close>, each with a run on the reference host in which the reports
  of one VM exist.
\<close>

section \<open>An example\<close>

definition policy_doc :: "string \<Rightarrow> string \<Rightarrow> xnode" where
  "policy_doc pol h = XElem ''Policy'' [xmlNewChild ''LaunchControlPolicy'' pol,
     xmlNewChild ''ImageHash'' h, xmlNewChild ''CustomerId'' ''c1'', xmlNewChild ''ImageId'' ''i1'']"

definition demo_world :: "string \<Rightarrow> string \<Rightarrow> string \<Rightarrow> ref_world" where
  "demo_world pol golden measured = ref_world0\<lparr>
     rw_dirs := [''/r/u1/''],
     rw_files :=
       [(''/r/u1//trustpolicy.xml'', xshow (policy_doc pol golden)),
        (''/r/u1//manifest.xml'', xshow (XElem ''Manifest'' [xmlNewChild ''DigestAlg'' ''sha256''])),
        (''/r/u1//measurement.sha256'', measured)]\<rparr>"

definition demo_globals :: globals where
  "demo_globals = (default_globals Linux)\<lparr>g_trust_report_dir := ''/r/''\<rparr>"

definition demo_core :: "string \<Rightarrow> string \<Rightarrow> string \<Rightarrow> ptab \<Rightarrow> ref_world core" where
  "demo_core pol golden measured t =
     \<lparr>proc_table = t, cleanup_status = 0, cleaners = 0, os = demo_world pol golden measured\<rparr>"

definition demo_args :: "cstr list" where
  "demo_args = proxy_args [] [] ''/d/disk'' ''u1''"

abbreviation demo_start ::
  "ptab \<Rightarrow> string \<Rightarrow> string \<Rightarrow> string \<Rightarrow> ((int \<times> int option) \<times> ref_world core) option"
where
  "demo_start t pol golden measured \<equiv>
     StartApp ref_host ref_xpath demo_globals 5 demo_args (demo_core pol golden measured t)"

section \<open>Unfolding \<open>StartApp\<close>\<close>

text \<open>The report directory of an instance, and what the policy phase finds there.\<close>

definition reports_dir :: "globals \<Rightarrow> app_args \<Rightarrow> cstr" where
  "reports_dir G a = snprintf 1024 (g_trust_report_dir G @ a_uuid a @ ''/'')"

definition policy_found ::
  "'w host \<Rightarrow> xpath_lib \<Rightarrow> globals \<Rightarrow> cstr list \<Rightarrow> 'w core \<Rightarrow> app_run option"
where
  "policy_found H XP G av s =
     (case parse_args av 0 no_args of
        None \<Rightarrow> None
      | Some a \<Rightarrow>
          (case read_policy H XP a (reports_dir G a) (prepare_reports H a (reports_dir G a) (os s)) of
             (Continue r, w) \<Rightarrow> Some r
           | _ \<Rightarrow> None))"

lemma policy_found_run:
  assumes "policy_found H XP G av s = Some r"
  shows "args_wf (r_args r)" "r_policy r = ''Audit'' \<or> r_policy r = ''Enforce''"
    "parse_args av 0 no_args = Some (r_args r)"
proof -
  obtain a w where a: "parse_args av 0 no_args = Some a"
    "read_policy H XP a (reports_dir G a) (prepare_reports H a (reports_dir G a) (os s)) = (Continue r, w)"
    using assms by (auto simp: policy_found_def split: option.splits prod.splits phase.splits)
  then show "args_wf (r_args r)" "r_policy r = ''Audit'' \<or> r_policy r = ''Enforce''"
    "parse_args av 0 no_args = Some (r_args r)"
    using read_policy_run [OF a(2)] parse_args_wf0 [OF a(1)] by simp_all
qed

text \<open>The four ways \<open>StartApp\<close> ends.\<close>

lemma StartApp_cases:
  assumes "StartApp H XP G procid av s = Some ((c, out), s')"
  obtains (checks) "c = TCSERVICE_RESULT_FAILED" "out = None" "s' = s"
  | (failed) "c = TCSERVICE_RESULT_FAILED" "out = Some (- 1)" "proc_table s' = proc_table s"
  | (unmeasured) "policy_found H XP G av s = None" "c = TCSERVICE_RESULT_SUCCESS"
      "out = Some procid" "proc_table s' = proc_table s"
  | (measured) r w where "policy_found H XP G av s = Some r"
      "measure_and_register H G r procid (s\<lparr>os := w\<rparr>) = ((c, out), s')"
proof -
  consider "30 < length av" | a where "\<not> 30 < length av" "parse_args av 0 no_args = Some a"
    using assms by (auto simp: StartApp_def split: if_splits option.splits)
  then show thesis
  proof cases
    case 1
    with assms checks show thesis by (simp add: StartApp_def)
  next
    case (2 a)
    let ?p = "read_policy H XP a (reports_dir G a) (prepare_reports H a (reports_dir G a) (os s))"
    obtain ph w where p: "?p = (ph, w)" by force
    show thesis
    proof (cases "args_ok a")
      case False
      with 2 assms checks show thesis by (simp add: StartApp_def)
    next
      case True
      with 2 assms p have r: "(case (ph, w) of
          (Leave True keep, w) \<Rightarrow> Some (fail_response H keep (reports_dir G a) (s\<lparr>os := w\<rparr>))
        | (Leave False keep, w) \<Rightarrow> Some (ok_response False [] procid, s\<lparr>os := w\<rparr>)
        | (Continue r, w) \<Rightarrow> Some (measure_and_register H G r procid (s\<lparr>os := w\<rparr>))) = Some ((c, out), s')"
        by (simp add: StartApp_def reports_dir_def [symmetric])
      show thesis
      proof (cases ph)
        case (Leave f keep)
        with r 2 p failed unmeasured show thesis
          by (auto simp: fail_response_def ok_response_def policy_found_def split: bool.splits if_splits)
      next
        case (Continue x)
        with r 2 p measured show thesis by (simp add: policy_found_def)
      qed
    qed
  qed
qed

lemma table_inv_measure:
  assumes inv: "table_inv (proc_table s)" and p: "procid \<noteq> 0" and u: "args_wf (r_args r)"
  shows "table_inv (proc_table (snd (measure_and_register H G r procid s)))"
proof -
  let ?m = "if a_type (r_args r) = INSTANCE_TYPE_VM then measure_vm H G r procid (os s)
    else if a_type (r_args r) = INSTANCE_TYPE_DOCKER then measure_docker H r procid (os s)
    else (Continue (), os s)"
  obtain m w1 where m: "?m = (m, w1)" by force
  obtain q w2 where q: "read_measurement H r w1 = (q, w2)" by force
  show ?thesis
  proof (cases m)
    case (Leave f k)
    with inv m show ?thesis by (simp add: measure_and_register_def fail_response_def)
  next
    case m': (Continue x)
    show ?thesis
    proof (cases q)
      case (Leave f k)
      with inv m m' q show ?thesis by (simp add: measure_and_register_def fail_response_def)
    next
      case (Continue h)
      obtain ph s1 where
        ph: "register_instance H r procid h (verify_hash r h) (s\<lparr>os := w2\<rparr>) = (ph, s1)"
        by force
      have "table_inv (proc_table s1)"
        using table_inv_register [OF _ p u, of "s\<lparr>os := w2\<rparr>" H h "verify_hash r h"] inv ph by simp
      with m m' q Continue ph show ?thesis
        by (cases ph) (simp_all add: measure_and_register_def fail_response_def Let_def)
    qed
  qed
qed

lemma table_inv_StartApp:
  assumes "StartApp H XP G procid av s = Some (r, s')" "table_inv (proc_table s)" "procid \<noteq> 0"
  shows "table_inv (proc_table s')"
proof -
  obtain c out where r: "r = (c, out)" by force
  from assms(1) [unfolded r] show ?thesis
  proof (cases rule: StartApp_cases)
    case (measured x w)
    then show ?thesis
      using table_inv_measure [of "s\<lparr>os := w\<rparr>" procid x H G] policy_found_run(1) [OF measured(1)] assms(2,3)
      by simp
  qed (use assms in simp_all)
qed

section \<open>The runs of the example\<close>

definition demo_entry :: "cstr \<Rightarrow> cstr \<Rightarrow> bool \<Rightarrow> int \<Rightarrow> serviceprocEnt" where
  "demo_entry pol h v st =
     \<lparr>m_procid = 0, m_sizeHash = 32, m_size_vm_image_id = 2, m_size_vm_customer_id = 2,
      m_size_vm_manifest_hash = int (length h), m_size_vm_manifest_signature = 0,
      m_size_vm_launch_policy = int (length pol), m_size_vm_manifest_dir = 6,
      m_rgHash = replicate 32 0, m_uuid = ''u1'', m_instance_name = [], m_vdi_uuid = [],
      m_szexeFile = Some [], m_nArgs = 0, m_vm_image_id = ''i1'', m_vm_customer_id = ''c1'',
      m_vm_manifest_hash = h, m_vm_manifest_signature = [], m_vm_launch_policy = pol,
      m_vm_verfication_status = v, m_vm_manifest_dir = ''/r/u1/'', m_vm_status = st,
      m_status_upadation_time = 1000, m_instance_type = 0\<rparr>"

definition demo_run :: app_run where
  "demo_run =
     \<lparr>r_args = \<lparr>a_kernel = [], a_ramdisk = [], a_config = Some ''config'', a_uuid = ''u1'',
        a_disk = ''/d/disk'', a_type = 0, a_mount = [], a_name = []\<rparr>,
      r_dir = ''/r/u1/'', r_manifest = ''/r/u1//trustpolicy.xml'', r_nohash = ''/r/u1//manifest.xml'',
      r_policy = ''Enforce'', r_golden = ''ab12'', r_customer = ''c1'', r_image = ''i1'',
      r_signature = [], r_hash_file = ''/r/u1//measurement.sha256''\<rparr>"

definition cancelled_table :: ptab where
  "cancelled_table = [(5, demo_entry ''Enforce'' ''ab13'' False VM_STATUS_CANCELLED)]"

abbreviation run_table ::
  "((int \<times> int option) \<times> ref_world core) option \<Rightarrow> ((int \<times> int option) \<times> ptab) option"
where
  "run_table \<equiv> map_option (\<lambda>(r, s). (r, proc_table s))"

lemma demo_refused:
  "run_table (demo_start [] ''MeasureAndEnforce'' ''ab12'' ''ab13'') =
     Some ((TCSERVICE_RESULT_SUCCESS, Some (- 1)), cancelled_table)"
  by code_simp

lemma demo_accepted:
  "run_table (demo_start [] ''MeasureAndEnforce'' ''ab12'' ''ab12'') =
     Some ((TCSERVICE_RESULT_SUCCESS, Some 5), [(5, demo_entry ''Enforce'' ''ab12'' True VM_STATUS_STOPPED)])"
  by code_simp

lemma demo_found:
  "policy_found ref_host ref_xpath demo_globals demo_args
     (demo_core ''MeasureAndEnforce'' ''ab12'' ''ab12'' []) = Some demo_run"
  by code_simp

lemma run_table_obtain:
  assumes "run_table x = Some (r, t)"
  obtains s' where "x = Some (r, s')" "proc_table s' = t"
  using assms by auto

lemma cancelled_table_inv: "table_inv cancelled_table"
proof -
  obtain s' where "demo_start [] ''MeasureAndEnforce'' ''ab12'' ''ab13'' =
      Some ((TCSERVICE_RESULT_SUCCESS, Some (- 1)), s')" "proc_table s' = cancelled_table"
    using demo_refused by (rule run_table_obtain)
  with table_inv_StartApp [OF this(1)] show ?thesis
    by (simp add: demo_core_def)
qed

section \<open>The decision\<close>

lemma StartApp_accepted_entry:
  assumes "StartApp H XP G procid av s = Some ((TCSERVICE_RESULT_SUCCESS, Some k), s')" "k \<noteq> - 1"
    and "map_ok (proc_table s)"
  shows "policy_found H XP G av s = None \<and> k = procid \<and> proc_table s' = proc_table s \<or>
    (\<exists>r e. policy_found H XP G av s = Some r \<and> map_of (proc_table s') k = Some e \<and>
       m_uuid e = recording_uuid r procid (proc_table s) \<and>
       (m_uuid e = a_uuid (r_args r) \<or> k = procid) \<and> m_vm_launch_policy e = r_policy r \<and>
       m_vm_verfication_status e = (m_vm_manifest_hash e = r_golden r) \<and>
       (r_policy r = ''Enforce'' \<longrightarrow> m_vm_manifest_hash e = r_golden r))"
  using assms(1)
proof (cases rule: StartApp_cases)
  case (measured r w)
  have "decided r (recording_uuid r procid (proc_table s)) (proc_table s') (run_child r procid (s\<lparr>os := w\<rparr>)) (Some k)"
    using measure_outcome [OF _ policy_found_run(1) [OF measured(1)]
        policy_found_run(2) [OF measured(1)] measured(2)] assms(3)
    by simp
  with measured(1) assms(2) show ?thesis
    by (auto simp: decided_def recording_uuid_def run_child_def Let_def split: if_splits)
qed simp_all

text \<open>The number that is answered is -1, the request's own, or one the table had.\<close>

lemma StartApp_answer:
  assumes "StartApp H XP G procid av s = Some ((TCSERVICE_RESULT_SUCCESS, out), s')"
    and "map_ok (proc_table s)"
  shows "\<exists>v. out = Some v \<and> (v = - 1 \<or> v = procid \<or> map_of (proc_table s) v \<noteq> None)"
  using assms(1)
proof (cases rule: StartApp_cases)
  case (measured r w)
  have "decided r (recording_uuid r procid (proc_table s)) (proc_table s') (run_child r procid (s\<lparr>os := w\<rparr>)) out"
    using measure_outcome [OF _ policy_found_run(1) [OF measured(1)]
        policy_found_run(2) [OF measured(1)] measured(2)] assms(2)
    by simp
  moreover have "run_child r procid (s\<lparr>os := w\<rparr>) = procid \<or>
      map_of (proc_table s) (run_child r procid (s\<lparr>os := w\<rparr>)) \<noteq> None"
    using getprocIdfromuuid_lookup [OF assms(2) refl, of "a_uuid (r_args r)"]
    by (auto simp: run_child_def Let_def)
  ultimately show ?thesis by (auto simp: decided_def)
qed simp_all

section \<open>Properties\<close>



text \<open>
  C8: a start that succeeds but answers -1 is a refusal under Enforce, when numbers and keys are not
  negative, as \<open>generate_req_id\<close> makes them: the table holds an entry in the status
  CANCELLED with a measured hash that differs from the golden one.  It has the instance's UUID,
  but for an unknown UUID and a number that is still the key of another instance's entry, when it
  is that entry.
\<close>

theorem StartApp_refuses:
  assumes "StartApp H XP G procid av s = Some ((TCSERVICE_RESULT_SUCCESS, Some (- 1)), s')"
    and "map_ok (proc_table s)" "0 \<le> procid" "\<forall>k \<in> fst ` set (proc_table s). 0 \<le> k"
  shows "\<exists>r j e. policy_found H XP G av s = Some r \<and> r_policy r = ''Enforce'' \<and>
     map_of (proc_table s') j = Some e \<and>
     (m_uuid e = a_uuid (r_args r) \<or>
      j = procid \<and> getprocIdfromuuid (a_uuid (r_args r)) (proc_table s) = 0 \<and>
      (\<exists>f. map_of (proc_table s) procid = Some f \<and> m_uuid e = m_uuid f)) \<and>
     m_vm_launch_policy e = ''Enforce'' \<and> \<not> m_vm_verfication_status e \<and>
     m_vm_manifest_hash e \<noteq> r_golden r \<and> m_vm_status e = VM_STATUS_CANCELLED"
  using assms(1)
proof (cases rule: StartApp_cases)
  case (measured r w)
  let ?k = "run_child r procid (s\<lparr>os := w\<rparr>)"
  have d: "decided r (recording_uuid r procid (proc_table s)) (proc_table s') ?k (Some (- 1))"
    using measure_outcome [OF _ policy_found_run(1) [OF measured(1)]
        policy_found_run(2) [OF measured(1)] measured(2)] assms(2)
    by simp
  have "?k \<noteq> - 1"
  proof (cases "getprocIdfromuuid (a_uuid (r_args r)) (proc_table s) = 0")
    case True
    with assms(3) show ?thesis by (simp add: run_child_def)
  next
    case False
    with assms(4) show ?thesis
      using getprocIdfromuuid_lookup [OF assms(2) refl False]
      by (force simp: run_child_def Let_def dest: map_of_SomeD)
  qed
  with d measured(1) show ?thesis
    by (auto simp: decided_def recording_uuid_def run_child_def Let_def split: if_splits option.splits)
qed (use assms in simp_all)

theorem StartApp_refuses_witness:
  "\<exists>s' e. demo_start [] ''MeasureAndEnforce'' ''ab12'' ''ab13'' =
       Some ((TCSERVICE_RESULT_SUCCESS, Some (- 1)), s') \<and>
     map_of (proc_table s') 5 = Some e \<and> m_uuid e = ''u1'' \<and> m_vm_manifest_hash e \<noteq> ''ab12'' \<and>
     m_vm_status e = VM_STATUS_CANCELLED"
proof -
  obtain s' where run: "demo_start [] ''MeasureAndEnforce'' ''ab12'' ''ab13'' =
      Some ((TCSERVICE_RESULT_SUCCESS, Some (- 1)), s')" "proc_table s' = cancelled_table"
    using demo_refused by (rule run_table_obtain)
  have "policy_found ref_host ref_xpath demo_globals demo_args
      (demo_core ''MeasureAndEnforce'' ''ab12'' ''ab13'' []) = Some demo_run" by code_simp
  moreover have "j = 5" if "map_of cancelled_table j = Some e" for j e
    using that by (simp add: cancelled_table_def split: if_splits)
  ultimately have "\<exists>e. map_of (proc_table s') 5 = Some e \<and> m_uuid e = ''u1'' \<and> m_vm_manifest_hash e \<noteq> ''ab12'' \<and>
      m_vm_status e = VM_STATUS_CANCELLED"
    using StartApp_refuses [OF run(1)] run(2) by (fastforce simp: demo_core_def demo_run_def)
  with run(1) show ?thesis by blast
qed

text \<open>
  C28: a failed start leaves the process table as it was.
\<close>

theorem StartApp_failed:
  assumes "StartApp H XP G procid av s = Some ((TCSERVICE_RESULT_FAILED, out), s')"
    and "map_ok (proc_table s)"
  shows "proc_table s' = proc_table s"
  using assms(1)
proof (cases rule: StartApp_cases)
  case (measured r w)
  show ?thesis
    using measure_outcome [OF _ policy_found_run(1) [OF measured(1)]
        policy_found_run(2) [OF measured(1)] measured(2)] assms(2)
    by simp
qed simp_all

definition demo_core0 :: "ref_world core" where
  "demo_core0 = demo_core ''MeasureAndEnforce'' ''ab12'' ''ab12'' []"

theorem StartApp_failed_witness:
  "\<exists>s'. StartApp ref_host ref_xpath demo_globals 5 [''-uuid'', ''u2''] demo_core0 =
     Some ((TCSERVICE_RESULT_FAILED, Some (- 1)), s') \<and> proc_table s' = []"
proof -
  define s' where "s' = snd (the (StartApp ref_host ref_xpath demo_globals 5 [''-uuid'', ''u2''] demo_core0))"
  have run: "StartApp ref_host ref_xpath demo_globals 5 [''-uuid'', ''u2''] demo_core0 =
      Some ((TCSERVICE_RESULT_FAILED, Some (- 1)), s')"
    unfolding s'_def by code_simp
  from StartApp_failed [OF run] have "proc_table s' = []"
    by (simp add: demo_core0_def demo_core_def)
  with run show ?thesis by blast
qed

lemma measure_registers:
  assumes "measure_and_register H G r procid s = ((TCSERVICE_RESULT_SUCCESS, out), s')"
  shows "\<exists>h w k. register_instance H r procid h (verify_hash r h) (s\<lparr>os := w\<rparr>) = (Continue k, s') \<and>
    length h < 65 \<and> out = snd (ok_response (verify_hash r h) (r_policy r) k)"
proof -
  obtain m w1 where m: "(if a_type (r_args r) = INSTANCE_TYPE_VM then measure_vm H G r procid (os s)
    else if a_type (r_args r) = INSTANCE_TYPE_DOCKER then measure_docker H r procid (os s)
    else (Continue (), os s)) = (m, w1)" by force
  obtain q w2 where q: "read_measurement H r w1 = (q, w2)" by force
  obtain x where x: "m = Continue x"
    using assms m by (cases m) (auto simp: measure_and_register_def fail_response_def)
  obtain h where h: "q = Continue h"
    using assms m q x by (cases q) (auto simp: measure_and_register_def fail_response_def)
  obtain ph s1 where ph: "register_instance H r procid h (verify_hash r h) (s\<lparr>os := w2\<rparr>) = (ph, s1)" by force
  have "ph = Continue k \<Longrightarrow> ?thesis" for k
    using assms m q x h ph read_measurement_length [of H r w1 h w2]
    by (intro exI [of _ h] exI [of _ w2] exI [of _ k])
      (auto simp: measure_and_register_def ok_response_def split: if_splits)
  moreover have "ph = Leave f b \<Longrightarrow> ?thesis" for f b
    using assms m q x h ph by (auto simp: measure_and_register_def fail_response_def)
  ultimately show ?thesis by (cases ph) blast+
qed

lemma register_known:
  assumes "map_ok (proc_table s)" "args_wf (r_args r)"
    and "getprocIdfromuuid (a_uuid (r_args r)) (proc_table s) = k" "k \<noteq> 0" "map_of (proc_table s) k = Some e"
  shows "\<exists>s'. register_instance H r procid h v s = (Continue k, s') \<and>
    map_of (proc_table s') k = Some (updated_entry (run_meta r h v) (run_name r) e)"
proof -
  have c: "run_child r procid s = k" "entry_core H r procid s = (True, s)"
    using assms(3,4) by (simp_all add: run_child_def entry_core_def)
  let ?u = "updateprocEntry H Linux k (run_meta r h v) (run_name r) s"
  have "fst ?u" "map_of (proc_table (snd ?u)) k = Some (updated_entry (run_meta r h v) (run_name r) e)"
    using updateprocEntry_lookup [OF assms(1)] assms(5) by simp_all
  then show ?thesis by (simp add: register_instance_eq [OF assms(2)] c split_beta)
qed

text \<open>
  C36: a start of an instance whose entry was CANCELLED by an earlier refusal, in the Linux build,
  when it is accepted now: \<open>StartApp\<close> answers with the number of that entry, on which the
  proxy launches, and stores the new measurement and verdict.  The status of a VM stays
  CANCELLED, verified or not; that of a container becomes STARTED.
\<close>

theorem relaunch_of_cancelled:
  assumes run: "StartApp H XP G procid av s = Some ((TCSERVICE_RESULT_SUCCESS, Some v), s')" "v \<noteq> - 1"
    and r: "policy_found H XP G av s = Some r" and ok: "map_ok (proc_table s)"
    and k: "getprocIdfromuuid (a_uuid (r_args r)) (proc_table s) = k" "k \<noteq> 0"
    and e: "map_of (proc_table s) k = Some e" "m_vm_status e = VM_STATUS_CANCELLED"
  shows "v = k \<and> (\<exists>e'. map_of (proc_table s') k = Some e' \<and> m_uuid e' = m_uuid e \<and>
     m_vm_verfication_status e' = (m_vm_manifest_hash e' = r_golden r) \<and>
     m_vm_status e' = (if m_instance_type e = INSTANCE_TYPE_DOCKER then VM_STATUS_STARTED else VM_STATUS_CANCELLED))"
  using run(1)
proof (cases rule: StartApp_cases)
  case (measured r' w)
  have wf: "args_wf (r_args r)" and "r' = r" using policy_found_run(1) [OF r] measured(1) r by simp_all
  with measure_registers [OF measured(2)] obtain h w' c where
    reg: "register_instance H r procid h (verify_hash r h) (s\<lparr>os := w'\<rparr>) = (Continue c, s')"
    and h: "length h < 65" and out: "Some v = snd (ok_response (verify_hash r h) (r_policy r) c)"
    by auto
  from register_known [where s = "s\<lparr>os := w'\<rparr>" and H = H and procid = procid and h = h and v = "verify_hash r h"]
  have e': "c = k" "map_of (proc_table s') k = Some (updated_entry (run_meta r h (verify_hash r h)) (run_name r) e)"
    using reg ok wf k e(1) by fastforce+
  with out run(2) have "v = k" "verify_hash r h \<or> r_policy r \<noteq> ''Enforce''"
    by (auto simp: ok_response_def split: if_splits)
  with e'(2) h e(2) show ?thesis
    by (auto simp: updated_entry_status run_meta_def verify_hash_def)
qed (use r in simp_all)

lemma demo_relaunched:
  "map_option fst (demo_start cancelled_table ''MeasureAndEnforce'' ''ab12'' ''ab12'') =
     Some (TCSERVICE_RESULT_SUCCESS, Some 5)"
  by code_simp

theorem relaunch_of_cancelled_witness:
  "\<exists>s' e'. demo_start cancelled_table ''MeasureAndEnforce'' ''ab12'' ''ab12'' =
       Some ((TCSERVICE_RESULT_SUCCESS, Some 5), s') \<and> map_of (proc_table s') 5 = Some e' \<and>
     m_vm_verfication_status e' = (m_vm_manifest_hash e' = ''ab12'') \<and> m_vm_status e' = VM_STATUS_CANCELLED"
proof -
  obtain s' where run: "demo_start cancelled_table ''MeasureAndEnforce'' ''ab12'' ''ab12'' =
      Some ((TCSERVICE_RESULT_SUCCESS, Some 5), s')"
    using demo_relaunched by auto
  have p: "policy_found ref_host ref_xpath demo_globals demo_args
      (demo_core ''MeasureAndEnforce'' ''ab12'' ''ab12'' cancelled_table) = Some demo_run" by code_simp
  have k: "getprocIdfromuuid (a_uuid (r_args demo_run))
      (proc_table (demo_core ''MeasureAndEnforce'' ''ab12'' ''ab12'' cancelled_table)) = 5"
    "map_of (proc_table (demo_core ''MeasureAndEnforce'' ''ab12'' ''ab12'' cancelled_table)) 5 =
      Some (snd (hd cancelled_table))"
    "m_vm_status (snd (hd cancelled_table)) = VM_STATUS_CANCELLED"
    "m_instance_type (snd (hd cancelled_table)) = INSTANCE_TYPE_VM" "r_golden demo_run = ''ab12''"
    by code_simp+
  have "map_ok (proc_table (demo_core ''MeasureAndEnforce'' ''ab12'' ''ab12'' cancelled_table))"
    using table_invD(5) [OF cancelled_table_inv] by (simp add: demo_core_def)
  from relaunch_of_cancelled [OF run _ p this k(1) _ k(2,3)] k(4,5) run show ?thesis by auto
qed

text \<open>
  When the number of a new request is still the key of another instance's entry (the
  request counter has come around), registering overwrites that entry's measurement and
  leaves its UUID: no entry for the new instance is made.
\<close>

lemma id_reuse_overwrites:
  assumes inv: "table_inv (proc_table s)" and u: "args_wf (r_args r)"
    and new: "getprocIdfromuuid (a_uuid (r_args r)) (proc_table s) = 0"
    and e: "map_of (proc_table s) procid = Some e" and h: "length h < 65"
  shows "\<exists>s' e'. register_instance H r procid h v s = (Continue procid, s') \<and>
     map fst (proc_table s') = map fst (proc_table s) \<and>
     map_of (proc_table s') procid = Some e' \<and> m_uuid e' = m_uuid e \<and>
     m_vm_manifest_hash e' = h \<and> m_vm_verfication_status e' = v"
proof -
  have ins: "map_insert procid f (proc_table s) = proc_table s" for f
    using e by (intro map_insert_existing [OF table_invD(5) [OF inv]]) simp
  obtain s1 where s1: "entry_core H r procid s = (True, s1)" "proc_table s1 = proc_table s"
    using new by (cases "h_time H (os s)") (simp add: entry_core_def addprocEntry_def ins)
  have c: "run_child r procid s = procid" using new by (simp add: run_child_def)
  let ?u = "updateprocEntry H Linux procid (run_meta r h v) (run_name r) s1"
  have "fst ?u" "map_of (proc_table (snd ?u)) procid = Some (updated_entry (run_meta r h v) (run_name r) e)"
    using updateprocEntry_lookup [of s1] table_invD(5) [OF inv] e s1(2) by simp_all
  moreover have "map fst (proc_table (snd ?u)) = map fst (proc_table s)"
    using s1(2) by (simp add: updateprocEntry_def Let_def split: option.splits)
  moreover have "register_instance H r procid h v s = (Continue procid, snd ?u)"
    using \<open>fst ?u\<close> by (simp add: register_instance_eq [OF u] c s1 split_beta)
  ultimately show ?thesis
    using h by (auto simp: run_meta_def)
qed

definition other_run :: app_run where
  "other_run = demo_run\<lparr>r_args := (r_args demo_run)\<lparr>a_uuid := ''u2''\<rparr>\<rparr>"

lemma id_reuse_overwrites_example:
  "\<exists>s' e'. register_instance ref_host other_run 5 ''cd34'' True
       (demo_core ''MeasureAndEnforce'' ''ab12'' ''ab12'' cancelled_table) = (Continue 5, s') \<and>
     map fst (proc_table s') =
       map fst (proc_table (demo_core ''MeasureAndEnforce'' ''ab12'' ''ab12'' cancelled_table)) \<and>
     map_of (proc_table s') 5 = Some e' \<and> m_uuid e' = m_uuid (snd (hd cancelled_table)) \<and>
     m_vm_manifest_hash e' = ''cd34'' \<and> m_vm_verfication_status e' = True"
proof (rule id_reuse_overwrites)
  show "table_inv (proc_table (demo_core ''MeasureAndEnforce'' ''ab12'' ''ab12'' cancelled_table))"
    by (simp add: demo_core_def cancelled_table_inv)
  show "args_wf (r_args other_run)"
    by (simp add: args_wf_def demo_run_def other_run_def)
  show "getprocIdfromuuid (a_uuid (r_args other_run))
      (proc_table (demo_core ''MeasureAndEnforce'' ''ab12'' ''ab12'' cancelled_table)) = 0"
    by code_simp
  show "map_of (proc_table (demo_core ''MeasureAndEnforce'' ''ab12'' ''ab12'' cancelled_table)) 5 =
      Some (snd (hd cancelled_table))"
    by code_simp
qed simp

text \<open>
  C37: a policy without a usable golden hash (the ImageHash element is absent, or its text does
  not fit the 64 characters of the array) is compared as the empty string, so that an empty
  measurement file passes the verification, under Enforce too.
\<close>

theorem unusable_golden_hash:
  assumes "get_xpath_values XP H policy_xpaths [] (snprintf 1024 (d @ ''/trustpolicy.xml'')) w = Inr vals"
    and "read_policy H XP a d w = (Continue r, w')"
    and "value_of vals xpath_image_hash = [] \<or> 65 \<le> length (value_of vals xpath_image_hash)"
  shows "verify_hash r (image_hash_of [])"
  using assms
  by (auto simp: read_policy_def verify_hash_def image_hash_of_def strcpy_s_def Let_def numeral_nat
      split: if_splits sum.splits)

theorem unusable_golden_hash_witness:
  "\<exists>r w'. read_policy ref_host ref_xpath (the (parse_args demo_args 0 no_args)) ''/r/u1/''
      (demo_world ''MeasureAndEnforce'' (replicate 70 (CHR ''a'')) []) = (Continue r, w') \<and>
    r_policy r = ''Enforce'' \<and> verify_hash r (image_hash_of [])"
proof -
  let ?w = "demo_world ''MeasureAndEnforce'' (replicate 70 (CHR ''a'')) []"
  let ?a = "the (parse_args demo_args 0 no_args)"
  let ?vals = "projr (get_xpath_values ref_xpath ref_host policy_xpaths []
    (snprintf 1024 (''/r/u1/'' @ ''/trustpolicy.xml'')) ?w)"
  have v: "get_xpath_values ref_xpath ref_host policy_xpaths []
      (snprintf 1024 (''/r/u1/'' @ ''/trustpolicy.xml'')) ?w = Inr ?vals"
    "65 \<le> length (value_of ?vals xpath_image_hash)"
    by code_simp+
  obtain ph w' where rp: "read_policy ref_host ref_xpath ?a ''/r/u1/'' ?w = (ph, w')" by force
  have "(case fst (read_policy ref_host ref_xpath ?a ''/r/u1/'' ?w) of
      Continue r \<Rightarrow> r_policy r = ''Enforce'' | Leave f k \<Rightarrow> False)"
    by code_simp
  with rp obtain r where "ph = Continue r" "r_policy r = ''Enforce''"
    by (auto split: phase.splits)
  with unusable_golden_hash [OF v(1)] v(2) rp show ?thesis by blast
qed

end
