(* ===== verification/Load_Config.thy ===== *)
theory Load_Config
  imports Host
begin

text \<open>
  \<open>util/loadconfig.h\<close> and \<open>.cpp\<close>: the configuration file as a \<open>std::map\<close> of strings.  Every
  line but an unterminated last one is read; \<open>strtok_s\<close> is the C11 function.  A blank key or
  value makes \<open>std::string::substr\<close> throw \<open>std::out_of_range\<close>, which nothing catches.
\<close>

section \<open>Trimming\<close>

definition blank :: "char \<Rightarrow> bool" where
  "blank c \<longleftrightarrow> c \<in> {CHR '' '', CHR 0x09, newline}"

definition trim_right_copy :: "cstr \<Rightarrow> cstr" where
  "trim_right_copy s = rev (dropWhile blank (rev s))"

text \<open>\<open>s.substr(npos)\<close> throws.\<close>

definition trim_left_copy :: "cstr \<Rightarrow> cstr option" where
  "trim_left_copy s = (case dropWhile blank s of [] \<Rightarrow> None | c # t \<Rightarrow> Some (c # t))"

definition trim_copy :: "cstr \<Rightarrow> cstr option" where
  "trim_copy s = trim_left_copy (trim_right_copy s)"

section \<open>Lines\<close>

text \<open>\<open>strtok_s\<close> with the delimiter \<open>=\<close>: the next token and what follows its delimiter.\<close>

definition strtok_eq :: "cstr \<Rightarrow> (cstr \<times> cstr) option" where
  "strtok_eq s =
     (let t = dropWhile (\<lambda>c. c = CHR ''='') s
      in if t = [] then None
         else Some (takeWhile (\<lambda>c. c \<noteq> CHR ''='') t, tl (dropWhile (\<lambda>c. c \<noteq> CHR ''='') t)))"

datatype config_line = Skip | Binding cstr cstr | Throws

definition config_line :: "cstr \<Rightarrow> config_line" where
  "config_line line =
     (if line \<noteq> [] \<and> hd line = CHR ''#'' then Skip
      else case strtok_eq line of
             None \<Rightarrow> Skip
           | Some (key, rest) \<Rightarrow>
               (case strtok_eq rest of
                  None \<Rightarrow> Skip
                | Some (val, _) \<Rightarrow>
                    (case (trim_copy key, trim_copy val) of
                       (Some k, Some v) \<Rightarrow> Binding k v
                     | _ \<Rightarrow> Throws)))"

lemma fgets_511_progress: "(l, r, False) = fgets 511 s \<Longrightarrow> length r < length s"
proof -
  have "fgets 511 s = fgets (Suc 510) s" by (simp only: eval_nat_numeral)
  then show "(l, r, False) = fgets 511 s \<Longrightarrow> length r < length s"
    using fgets_progress by metis
qed

text \<open>The loop; \<open>None\<close> when the exception is thrown.\<close>

function load_lines :: "string \<Rightarrow> (cstr, cstr) smap \<Rightarrow> (cstr, cstr) smap option" where
  "load_lines content m =
     (case fgets 511 content of (line, rest, eof) \<Rightarrow>
        if eof then Some m
        else case config_line (cstr_of line) of
               Skip \<Rightarrow> load_lines rest m
             | Binding k v \<Rightarrow> load_lines rest (map_insert k v m)
             | Throws \<Rightarrow> None)"
  by auto
termination
  by (relation "measure (\<lambda>(content, m). length content)")
    (auto dest: fgets_511_progress simp del: fgets.simps)

declare load_lines.simps [simp del]

datatype load_result = Load_failed | Load_throws | Loaded "(cstr, cstr) smap"

definition load_config ::
  "'w host \<Rightarrow> cstr \<Rightarrow> (cstr, cstr) smap \<Rightarrow> 'w \<Rightarrow> load_result \<times> 'w"
where
  "load_config H configFile config_map w =
     (case h_fopen H configFile ForRead w of
        (False, w) \<Rightarrow> (Load_failed, w)
      | (True, w) \<Rightarrow>
          (case load_lines (h_content H configFile w) config_map of
             None \<Rightarrow> (Load_throws, w)
           | Some m \<Rightarrow> (Loaded m, w)))"

definition clear_config :: "(cstr, cstr) smap \<Rightarrow> (cstr, cstr) smap" where
  "clear_config config_map = []"

section \<open>Reading back what was written\<close>

text \<open>Texts that a line \<open>key=value\<close> can carry.\<close>

definition config_text :: "cstr \<Rightarrow> bool" where
  "config_text s \<longleftrightarrow> s \<noteq> [] \<and> CHR ''='' \<notin> set s \<and> newline \<notin> set s \<and> nul \<notin> set s \<and>
     \<not> blank (hd s) \<and> \<not> blank (last s)"

definition config_entry :: "cstr \<times> cstr \<Rightarrow> bool" where
  "config_entry p \<longleftrightarrow> config_text (fst p) \<and> config_text (snd p) \<and> hd (fst p) \<noteq> CHR ''#'' \<and>
     length (fst p) + length (snd p) < 510"

definition print_entry :: "cstr \<times> cstr \<Rightarrow> string" where
  "print_entry p = fst p @ ''='' @ snd p @ [newline]"

definition insert_all :: "(cstr \<times> cstr) list \<Rightarrow> (cstr, cstr) smap \<Rightarrow> (cstr, cstr) smap" where
  "insert_all kvs m = fold (\<lambda>(k, v). map_insert k v) kvs m"

lemma trim_copy_blanks:
  assumes "s \<noteq> []" "\<not> blank (hd s)" "\<not> blank (last s)" "\<forall>c \<in> set t. blank c"
  shows "trim_copy (s @ t) = Some s"
proof -
  have "dropWhile blank (rev (s @ t)) = rev s"
    using assms by (cases s rule: rev_cases) (simp_all add: dropWhile_append)
  with assms show ?thesis
    by (cases s) (simp_all add: trim_copy_def trim_right_copy_def trim_left_copy_def)
qed

lemma trim_copy_only_blanks: "\<forall>c \<in> set t. blank c \<Longrightarrow> trim_copy t = None"
proof -
  assume "\<forall>c \<in> set t. blank c"
  then have d: "dropWhile blank (rev t) = []" by (simp add: dropWhile_eq_Nil_conv)
  show ?thesis by (simp add: trim_copy_def trim_right_copy_def trim_left_copy_def d)
qed

lemma strtok_key:
  assumes "k \<noteq> []" "CHR ''='' \<notin> set k"
  shows "strtok_eq (k @ CHR ''='' # r) = Some (k, r)"
proof -
  have "dropWhile (\<lambda>c. c = CHR ''='') (k @ CHR ''='' # r) = k @ CHR ''='' # r"
    using assms by (cases k) auto
  moreover have "\<forall>c \<in> set k. c \<noteq> CHR ''=''" using assms(2) by auto
  ultimately show ?thesis
    by (simp add: strtok_eq_def Let_def takeWhile_append dropWhile_append)
qed

lemma strtok_last:
  assumes "v \<noteq> []" "CHR ''='' \<notin> set v"
  shows "strtok_eq v = Some (v, [])"
proof -
  have "dropWhile (\<lambda>c. c = CHR ''='') v = v" using assms by (cases v) auto
  moreover have "\<forall>c \<in> set v. c \<noteq> CHR ''=''" using assms(2) by auto
  then have w: "takeWhile (\<lambda>c. c \<noteq> CHR ''='') v = v" "dropWhile (\<lambda>c. c \<noteq> CHR ''='') v = []"
    by (simp_all add: takeWhile_eq_all_conv dropWhile_eq_Nil_conv)
  ultimately show ?thesis using assms(1) by (simp add: strtok_eq_def Let_def w)
qed

lemma blank_newline [simp]: "blank newline" and not_blank_eq [simp]: "\<not> blank (CHR ''='')"
  by (simp_all add: blank_def)

lemma not_blank_nul: "\<not> blank nul"
  by (simp add: blank_def)

lemma config_line_blanks:
  assumes k: "config_text k" "hd k \<noteq> CHR ''#''" and v: "config_text v" and b: "\<forall>c \<in> set t. blank c"
  shows "config_line (k @ ''='' @ v @ t @ [newline]) = Binding k v"
proof -
  have eq: "CHR ''='' \<notin> set (v @ t @ [newline])"
    using v b not_blank_eq by (auto simp: config_text_def)
  have "trim_copy k = Some k"
    using trim_copy_blanks [of k "[]"] k by (simp add: config_text_def)
  moreover have "trim_copy (v @ t @ [newline]) = Some v"
    using trim_copy_blanks [of v "t @ [newline]"] v b by (auto simp: config_text_def)
  moreover have "strtok_eq (k @ ''='' @ v @ t @ [newline]) = Some (k, v @ t @ [newline])"
    using strtok_key [of k "v @ t @ [newline]"] k(1) by (simp add: config_text_def)
  moreover have "strtok_eq (v @ t @ [newline]) = Some (v @ t @ [newline], [])"
    by (rule strtok_last [OF _ eq]) simp
  moreover have "hd (k @ r) \<noteq> CHR ''#''" for r
    using k by (simp add: config_text_def)
  ultimately show ?thesis
    by (simp only: config_line_def simp_thms if_False option.case prod.case)
qed

lemma config_line_blank_value:
  assumes k: "config_text k" "hd k \<noteq> CHR ''#''" and b: "\<forall>c \<in> set t. blank c"
  shows "config_line (k @ ''='' @ t @ [newline]) = Throws"
proof -
  have eq: "CHR ''='' \<notin> set (t @ [newline])" using b not_blank_eq by auto
  have "trim_copy (t @ [newline]) = None"
    using b by (intro trim_copy_only_blanks) auto
  moreover have "strtok_eq (k @ ''='' @ t @ [newline]) = Some (k, t @ [newline])"
    using strtok_key [of k "t @ [newline]"] k(1) by (simp add: config_text_def)
  moreover have "strtok_eq (t @ [newline]) = Some (t @ [newline], [])"
    by (rule strtok_last [OF _ eq]) simp
  moreover have "hd (k @ r) \<noteq> CHR ''#''" for r
    using k by (simp add: config_text_def)
  moreover have "trim_copy k = Some k"
    using trim_copy_blanks [of k "[]"] k by (simp add: config_text_def)
  ultimately show ?thesis
    by (simp only: config_line_def simp_thms if_False option.case prod.case)
qed

text \<open>One printed line is one step of the loop.\<close>

lemma load_lines_line:
  assumes "newline \<notin> set l" "length l < 511" "nul \<notin> set l"
  shows "load_lines (l @ newline # content) m =
     (case config_line (l @ [newline]) of
        Skip \<Rightarrow> load_lines content m
      | Binding k v \<Rightarrow> load_lines content (map_insert k v m)
      | Throws \<Rightarrow> None)"
proof -
  have "cstr_of (l @ [newline]) = l @ [newline]"
    using assms(3) by (intro cstr_of_nul_free) (auto simp: nul_free_def)
  then show ?thesis
    using fgets_line [OF assms(1,2), of content] by (simp add: load_lines.simps [of "l @ newline # content"])
qed

lemma load_lines_entry:
  assumes "config_entry (k, v)"
  shows "load_lines (print_entry (k, v) @ content) m = load_lines content (map_insert k v m)"
proof -
  have "newline \<notin> set (k @ ''='' @ v)" "nul \<notin> set (k @ ''='' @ v)" "length (k @ ''='' @ v) < 511"
    using assms by (auto simp: config_entry_def config_text_def)
  from load_lines_line [OF this(1,3,2), of content m] show ?thesis
    using config_line_blanks [of k v "[]"] assms
    by (simp add: config_entry_def print_entry_def)
qed

lemma load_lines_end: "newline \<notin> set l \<Longrightarrow> length l < 511 \<Longrightarrow> load_lines l m = Some m"
  using fgets_last [of l 511] by (simp add: load_lines.simps [of l])

lemma load_lines_print:
  "\<forall>p \<in> set kvs. config_entry p \<Longrightarrow> newline \<notin> set t \<Longrightarrow> length t < 511 \<Longrightarrow>
   load_lines (concat (map print_entry kvs) @ t) m = Some (insert_all kvs m)"
proof (induction kvs arbitrary: m)
  case Nil
  then show ?case by (simp add: load_lines_end insert_all_def)
next
  case (Cons p kvs)
  obtain k v where p: "p = (k, v)" by force
  with Cons show ?case by (simp add: load_lines_entry insert_all_def)
qed

text \<open>The first binding of a key wins, over what the map held before.\<close>

lemma insert_all_lookup:
  "map_ok m \<Longrightarrow> map_ok (insert_all kvs m) \<and>
   map_of (insert_all kvs m) k = (case map_of m k of Some v \<Rightarrow> Some v | None \<Rightarrow> map_of kvs k)"
proof (induction kvs arbitrary: m)
  case Nil
  then show ?case by (simp add: insert_all_def split: option.splits)
next
  case (Cons p kvs)
  obtain j v where p: "p = (j, v)" by force
  have "map_ok (map_insert j v m)" using Cons.prems by (rule smap.invar_insert)
  from Cons.IH [OF this] Cons.prems show ?case
    by (auto simp: p insert_all_def map_lookup_simps split: option.splits)
qed

lemma load_lines_blank_value:
  assumes "\<forall>p \<in> set kvs. config_entry p" "config_text k" "hd k \<noteq> CHR ''#''"
    and "\<forall>c \<in> set t. blank c \<and> c \<noteq> newline" "length k + length t < 510"
  shows "load_lines (concat (map print_entry kvs) @ k @ ''='' @ t @ newline # rest) m = None"
  using assms(1)
proof (induction kvs arbitrary: m)
  case Nil
  have "nul \<notin> set t" using assms(4) not_blank_nul by auto
  then have l: "newline \<notin> set (k @ ''='' @ t)" "nul \<notin> set (k @ ''='' @ t)"
    "length (k @ ''='' @ t) < 511"
    using assms by (auto simp: config_text_def)
  show ?case
    using load_lines_line [OF l(1,3,2), of rest m] config_line_blank_value [OF assms(2,3), of t] assms(4)
    by (simp only: append_assoc append.simps list.map concat.simps config_line.case) (simp add: assms(4))
next
  case (Cons p kvs)
  obtain k v where p: "p = (k, v)" by force
  with Cons show ?case by (simp add: load_lines_entry)
qed

section \<open>Properties\<close>

text \<open>
  C26: loading the printed form of a list of bindings gives exactly these bindings, the first
  one of a key winning; an unterminated last line is dropped.
\<close>

theorem load_config_roundtrip:
  assumes "h_fopen H f ForRead w = (True, w')" "h_content H f w' = concat (map print_entry kvs) @ t"
    and "\<forall>p \<in> set kvs. config_entry p" "newline \<notin> set t" "length t < 511"
  shows "\<exists>m. load_config H f [] w = (Loaded m, w') \<and> map_ok m \<and> (\<forall>k. map_of m k = map_of kvs k)"
  using load_lines_print [OF assms(3-5), of "[]"] insert_all_lookup [OF map_ok_Nil, of kvs] assms(1,2)
  by (simp add: load_config_def)

definition config_world :: "string \<Rightarrow> ref_world" where
  "config_world c = ref_world0\<lparr>rw_files := [(''vRTM.cfg'', c)]\<rparr>"

theorem load_config_roundtrip_witness:
  "\<exists>m. load_config ref_host ''vRTM.cfg'' []
      (config_world (concat (map print_entry [(''port'', ''1''), (''ip'', ''a b''), (''port'', ''2'')]) @ ''x=y'')) =
      (Loaded m, config_world (concat (map print_entry [(''port'', ''1''), (''ip'', ''a b''), (''port'', ''2'')]) @ ''x=y'')) \<and>
    map_ok m \<and> (\<forall>k. map_of m k = map_of [(''port'', ''1''), (''ip'', ''a b''), (''port'', ''2'')] k)"
  by (rule load_config_roundtrip
      [where kvs = "[(''port'', ''1''), (''ip'', ''a b''), (''port'', ''2'')]" and t = "''x=y''"])
    (simp_all add: ref_host_def config_world_def ref_file_def map_get_def config_entry_def
      config_text_def blank_def)

text \<open>
  A key with a blank value anywhere in the file ends the load with an exception, which no
  caller catches.
\<close>

lemma load_config_blank_value:
  assumes "h_fopen H f ForRead w = (True, w')"
    and "h_content H f w' = concat (map print_entry kvs) @ k @ ''='' @ t @ newline # rest"
    and "\<forall>p \<in> set kvs. config_entry p" "config_text k" "hd k \<noteq> CHR ''#''"
    and "\<forall>c \<in> set t. blank c \<and> c \<noteq> newline" "length k + length t < 510"
  shows "load_config H f m w = (Load_throws, w')"
  using load_lines_blank_value [OF assms(3-7)] assms(1,2) by (simp add: load_config_def)

end
