(* ===== verification/Saml_Report.thy ===== *)
theory Saml_Report
  imports Tc_Service Load_Config Base64
begin

text \<open>
  The signed report of an instance: \<open>extractCert\<close>, \<open>appendCert\<close>, \<open>calculateHash\<close>,
  \<open>canonicalizeXml\<close> and \<open>tcServiceInterface::GenerateSAMLAndGetDir\<close> of
  \<open>vrtmcore/modtcService.cpp\<close> (the Linux branches).  The hash functions, the copy of a PEM
  certificate and the canonicalisation of an XML text belong to OpenSSL and libxml2: they are
  the parameter \<open>sign_lib\<close>.
\<close>

record 'h hash_lib =
  hl_init :: 'h
  hl_update :: "'h \<Rightarrow> string \<Rightarrow> 'h"
  hl_final :: "'h \<Rightarrow> string"

record 'h sign_lib =
  sl_sha1 :: "'h hash_lib"
  sl_sha256 :: "'h hash_lib"
  sl_pem :: "string \<Rightarrow> string option"
  sl_c14n :: "string \<Rightarrow> string option"

text \<open>
  How a step of the report ends: with a result code for the caller, with an exception, with
  undefined behaviour, or normally.
\<close>

datatype 'a saml = Saml_fail int | Saml_throw | Saml_undef | Saml_ok 'a

definition saml_bind ::
  "'a saml \<times> 'w \<Rightarrow> ('a \<Rightarrow> 'w \<Rightarrow> 'b saml \<times> 'w) \<Rightarrow> 'b saml \<times> 'w"
where
  "saml_bind m f =
     (case m of
        (Saml_fail c, w) \<Rightarrow> (Saml_fail c, w)
      | (Saml_throw, w) \<Rightarrow> (Saml_throw, w)
      | (Saml_undef, w) \<Rightarrow> (Saml_undef, w)
      | (Saml_ok x, w) \<Rightarrow> f x w)"

section \<open>Certificates\<close>

text \<open>\<open>strstr\<close>.\<close>

fun contains :: "string \<Rightarrow> string \<Rightarrow> bool" where
  "contains pat [] = (pat = [])"
| "contains pat (c # s) = (take (length pat) (c # s) = pat \<or> contains pat s)"

text \<open>
  \<open>extractCert\<close>: the lines between the markers, appended to a buffer of the given size.  A
  line that does not fit any more empties the buffer (\<open>strcat_s\<close>).
\<close>

function cert_lines :: "nat \<Rightarrow> cstr \<Rightarrow> string \<Rightarrow> cstr" where
  "cert_lines sz cert content =
     (case fgets 4095 content of (line, rest, eof) \<Rightarrow>
        if eof then cert
        else let l = cstr_of line
             in if contains ''BEGIN'' l \<or> contains ''END'' l then cert_lines sz cert rest
                else cert_lines sz (strcat_s sz cert l) rest)"
  by auto

lemma fgets_4095_progress: "(l, r, False) = fgets 4095 s \<Longrightarrow> length r < length s"
proof -
  have "fgets 4095 s = fgets (Suc 4094) s" by (simp only: eval_nat_numeral)
  then show "(l, r, False) = fgets 4095 s \<Longrightarrow> length r < length s"
    using fgets_progress by metis
qed

termination cert_lines
  by (relation "measure (\<lambda>(sz, cert, content). length content)")
    (auto dest: fgets_4095_progress simp del: fgets.simps)

declare cert_lines.simps [simp del]

definition extractCert :: "'w host \<Rightarrow> cstr \<Rightarrow> cstr \<Rightarrow> nat \<Rightarrow> 'w \<Rightarrow> (int \<times> cstr) \<times> 'w" where
  "extractCert H pem_file certBuffer sz w =
     (case h_fopen H pem_file ForRead w of
        (False, w) \<Rightarrow> ((- 1, certBuffer), w)
      | (True, w) \<Rightarrow> ((0, cert_lines sz certBuffer (h_content H pem_file w)), w))"

definition appendCert ::
  "'w host \<Rightarrow> 'h sign_lib \<Rightarrow> cstr \<Rightarrow> cstr \<Rightarrow> nat \<Rightarrow> cstr \<Rightarrow> 'w \<Rightarrow> (int \<times> cstr) \<times> 'w"
where
  "appendCert H C certBuffer manifest_dir sz signingkey_file w =
     (let outfile = snprintf 1048 (manifest_dir @ ''temp.pem'');
          (inbio, w) = h_fopen H signingkey_file ForRead w;
          (outbio, w) = h_fopen H outfile ForWrite w
      in if \<not> inbio then ((- 1, certBuffer), w)
         else case sl_pem C (h_content H signingkey_file w) of
                None \<Rightarrow> ((- 1, certBuffer), w)
              | Some pem \<Rightarrow>
                  if \<not> outbio then ((- 1, certBuffer), w)
                  else let w = h_fwrite H outfile pem w;
                           ((r, cert), w) = extractCert H outfile certBuffer sz w
                       in if r \<noteq> 0 then ((- 1, cert), w) else ((0, cert), w))"

section \<open>Hashing\<close>

text \<open>The loop over \<open>fread\<close> with a buffer of 65000 bytes.\<close>

function hash_chunks :: "'h hash_lib \<Rightarrow> 'h \<Rightarrow> string \<Rightarrow> 'h" where
  "hash_chunks L st s =
     (if s = [] then st else hash_chunks L (hl_update L st (take 65000 s)) (drop 65000 s))"
  by auto
termination
  by (relation "measure (\<lambda>(L, st, s). length s)") auto

declare hash_chunks.simps [simp del]

text \<open>\<open>calculateHash\<close>: the returned size, and the bytes of the hash.\<close>

definition calculateHash ::
  "'w host \<Rightarrow> 'h sign_lib \<Rightarrow> cstr \<Rightarrow> cstr \<Rightarrow> 'w \<Rightarrow> (int \<times> string) \<times> 'w"
where
  "calculateHash H C xml_file hash_alg w =
     (case h_fopen H xml_file ForRead w of
        (False, w) \<Rightarrow> ((- 1, []), w)
      | (True, w) \<Rightarrow>
          if hash_alg = ''sha1''
          then ((20, hl_final (sl_sha1 C)
                  (hash_chunks (sl_sha1 C) (hl_init (sl_sha1 C)) (h_content H xml_file w))), w)
          else ((32, hl_final (sl_sha256 C)
                  (hash_chunks (sl_sha256 C) (hl_init (sl_sha256 C)) (h_content H xml_file w))), w))"

definition canonicalizeXml ::
  "'w host \<Rightarrow> 'h sign_lib \<Rightarrow> cstr \<Rightarrow> cstr \<Rightarrow> 'w \<Rightarrow> int \<times> 'w"
where
  "canonicalizeXml H C infile outfile w =
     (case sl_c14n C (h_content H infile w) of
        None \<Rightarrow> (- 1, w)
      | Some t \<Rightarrow>
          (case h_fopen H outfile ForWrite w of
             (False, w) \<Rightarrow> (- 1, w)
           | (True, w) \<Rightarrow> (0, h_fwrite H outfile t w)))"

section \<open>The report\<close>

text \<open>Lines 826 to 861: the entry, by UUID or by the name of a container.\<close>

definition find_report_entry :: "cstr \<Rightarrow> ptab \<Rightarrow> serviceprocEnt saml" where
  "find_report_entry vm_uuid t =
     (let proc_id = getprocIdfromuuid vm_uuid t;
          proc_id = (if proc_id = 0 then getprocIdfrominstance_name (Some vm_uuid) t else proc_id)
      in if proc_id = 0 then Saml_fail TCSERVICE_RESULT_FAILED
         else case getEntfromprocId proc_id t of
                None \<Rightarrow> Saml_undef
              | Some e \<Rightarrow> if m_vm_status e = VM_STATUS_STOPPED then Saml_fail TCSERVICE_RESULT_FAILED
                          else Saml_ok e)"

record signing_config =
  sc_key_file :: cstr
  sc_key_blob :: cstr
  sc_version_file :: cstr
  sc_sign_cmd :: cstr

text \<open>Lines 863 to 904.\<close>

definition read_signing_config :: "'w host \<Rightarrow> 'w \<Rightarrow> signing_config saml \<times> 'w" where
  "read_signing_config H w =
     (case load_config H ''../configuration/vRTM.cfg'' [] w of
        (Load_failed, w) \<Rightarrow> (Saml_fail EXIT_FAILURE, w)
      | (Load_throws, w) \<Rightarrow> (Saml_throw, w)
      | (Loaded m, w) \<Rightarrow>
          (let key_file = map_get [] m ''signingkey_file'';
               key_blob = map_get [] m ''signingkey_blob'';
               version_file = map_get [] m ''tpm_version_file'';
               sign_cmd = map_get [] m ''tpm_signdata_cmd''
           in if key_file = [] \<or> key_blob = [] \<or> version_file = [] \<or> sign_cmd = []
              then (Saml_fail EXIT_FAILURE, w)
              else (Saml_ok \<lparr>sc_key_file = strcpy_s 1048 key_file, sc_key_blob = strcpy_s 1048 key_blob,
                      sc_version_file = strcpy_s 1048 version_file,
                      sc_sign_cmd = strcpy_s 1048 sign_cmd\<rparr>, w)))"

text \<open>Lines 906 to 924: the hash algorithm of the TPM's version.\<close>

definition tpm_hash_alg :: "'w host \<Rightarrow> cstr \<Rightarrow> 'w \<Rightarrow> cstr saml \<times> 'w" where
  "tpm_hash_alg H tpm_version_file w =
     (case h_fopen H tpm_version_file ForRead w of
        (False, w) \<Rightarrow> (Saml_fail TCSERVICE_RESULT_FAILED, w)
      | (True, w) \<Rightarrow>
          (let tpm_version = cstr_of (fst (fgets 9 (h_content H tpm_version_file w)))
           in if tpm_version = ''2.0'' then (Saml_ok ''sha256'', w)
              else if tpm_version = ''1.2'' then (Saml_ok ''sha1'', w)
              else (Saml_fail TCSERVICE_RESULT_FAILED, w)))"

section \<open>The texts\<close>

definition vm_quote :: "cstr \<Rightarrow> cstr \<Rightarrow> cstr \<Rightarrow> cstr \<Rightarrow> string" where
  "vm_quote nonce uuid hash_alg hash =
     ''<VMQuote><nonce>'' @ nonce @ ''</nonce><vm_instance_id>'' @ uuid @
     ''</vm_instance_id><digest_alg>'' @ hash_alg @ ''</digest_alg><cumulative_hash>'' @ hash @
     ''</cumulative_hash>''"

definition attr :: "string \<Rightarrow> string \<Rightarrow> string" where
  "attr nm v = '' '' @ nm @ ''='' @ [CHR 0x22] @ v @ [CHR 0x22]"

definition dsig :: string where "dsig = ''http://www.w3.org/2000/09/xmldsig#''"
definition dsig_more :: string where "dsig_more = ''http://www.w3.org/2001/04/xmldsig-more#''"
definition exc_c14n :: string where "exc_c14n = ''http://www.w3.org/2001/10/xml-exc-c14n#''"

definition signature_method :: "cstr \<Rightarrow> string" where
  "signature_method hash_alg =
     (if hash_alg = ''sha1'' then dsig @ ''rsa-sha1'' else dsig_more @ ''rsa-sha256'')"

definition digest_method :: "cstr \<Rightarrow> string" where
  "digest_method hash_alg =
     (if hash_alg = ''sha1'' then dsig @ ''sha1'' else ''http://www.w3.org/2001/04/xmlenc#sha256'')"

text \<open>The \<open>SignedInfo\<close> up to the digest; \<open>elem\<close> writes an element without content.\<close>

definition signed_info :: "(string \<Rightarrow> string \<Rightarrow> string) \<Rightarrow> string \<Rightarrow> cstr \<Rightarrow> string" where
  "signed_info elem ns hash_alg =
     ''<SignedInfo'' @ ns @ ''>'' @ elem ''CanonicalizationMethod'' (attr ''Algorithm'' exc_c14n) @
     elem ''SignatureMethod'' (attr ''Algorithm'' (signature_method hash_alg)) @
     ''<Reference'' @ attr ''URI'' [] @ ''><Transforms>'' @
     elem ''Transform'' (attr ''Algorithm'' (dsig @ ''enveloped-signature'')) @
     elem ''Transform'' (attr ''Algorithm'' exc_c14n) @ ''</Transforms>'' @
     elem ''DigestMethod'' (attr ''Algorithm'' (digest_method hash_alg)) @ ''<DigestValue>''"

definition short_elem :: "string \<Rightarrow> string \<Rightarrow> string" where
  "short_elem nm attrs = ''<'' @ nm @ attrs @ ''/>''"

definition long_elem :: "string \<Rightarrow> string \<Rightarrow> string" where
  "long_elem nm attrs = ''<'' @ nm @ attrs @ ''></'' @ nm @ ''>''"

definition xml_decl :: string where
  "xml_decl = ''<?xml'' @ attr ''version'' ''1.0'' @ attr ''encoding'' ''UTF-8'' @
     attr ''standalone'' ''yes'' @ ''?>''"

definition report_head :: "cstr \<Rightarrow> cstr \<Rightarrow> cstr \<Rightarrow> cstr \<Rightarrow> string" where
  "report_head nonce uuid hash_alg hash =
     snprintf 8192 (vm_quote nonce uuid hash_alg hash @ ''<Signature'' @ attr ''xmlns'' dsig @ ''>'' @
       signed_info short_elem [] hash_alg)"

definition digest_end :: string where
  "digest_end = ''</DigestValue></Reference></SignedInfo><SignatureValue>''"

definition signature_end :: string where
  "signature_end = ''</SignatureValue><KeyInfo><X509Data><X509Certificate>''"

definition report_end :: string where
  "report_end = ''</X509Certificate></X509Data></KeyInfo></Signature></VMQuote>''"

section \<open>Building the report\<close>

text \<open>Encoding without a final line feed; an empty text makes the code read before its start.\<close>

definition encode_line :: "b64_lib \<Rightarrow> string \<Rightarrow> nat \<Rightarrow> cstr saml" where
  "encode_line B bytes n =
     (case Base64EncodeWithLength B bytes n of
        None \<Rightarrow> Saml_fail TCSERVICE_RESULT_FAILED
      | Some b \<Rightarrow>
          (let len = strnlen_s b MAX_LEN
           in if len = 0 then Saml_undef
              else if b ! (len - 1) = newline then Saml_ok (take (len - 1) b) else Saml_ok b))"

definition must_open :: "'w host \<Rightarrow> cstr \<Rightarrow> fmode \<Rightarrow> 'w \<Rightarrow> unit saml \<times> 'w" where
  "must_open H f m w =
     (case h_fopen H f m w of
        (True, w) \<Rightarrow> (Saml_ok (), w)
      | (False, w) \<Rightarrow> (Saml_fail TCSERVICE_RESULT_FAILED, w))"

text \<open>A text canonicalised and hashed through the directory's files (lines 967 to 976 and 1048 to 1056).\<close>

definition hash_of_file ::
  "'w host \<Rightarrow> 'h sign_lib \<Rightarrow> cstr \<Rightarrow> cstr \<Rightarrow> cstr \<Rightarrow> 'w \<Rightarrow> (int \<times> string) saml \<times> 'w"
where
  "hash_of_file H C tempfile outfile hash_alg w =
     (let (r, w) = canonicalizeXml H C tempfile outfile w
      in if r \<noteq> 0 then (Saml_fail TCSERVICE_RESULT_FAILED, w)
         else let ((n, hash), w) = calculateHash H C outfile hash_alg w
              in if n = - 1 then (Saml_fail TCSERVICE_RESULT_FAILED, w) else (Saml_ok (n, hash), w))"

text \<open>Lines 926 to 991: the report up to its signature; the result is the encoded digest.\<close>

definition write_report_head ::
  "'w host \<Rightarrow> 'h sign_lib \<Rightarrow> b64_lib \<Rightarrow> cstr \<Rightarrow> cstr \<Rightarrow> serviceprocEnt \<Rightarrow> cstr \<Rightarrow> 'w
     \<Rightarrow> cstr saml \<times> 'w"
where
  "write_report_head H C B dir nonce e hash_alg w =
     (let outfile = snprintf 1048 (dir @ ''temp.xml'');
          filepath = snprintf 1048 (dir @ ''signed_report.xml'');
          tempfile = snprintf 1048 (dir @ ''us_xml.xml'')
      in saml_bind (must_open H filepath ForWrite w) (\<lambda>_ w.
         let w = h_fwrite H filepath xml_decl w;
             w = h_fwrite H filepath (report_head nonce (m_uuid e) hash_alg (m_vm_manifest_hash e)) w;
             w = h_chmod H filepath w
         in saml_bind (must_open H tempfile ForWrite w) (\<lambda>_ w.
            let w = h_fwrite H tempfile
                      (snprintf 8192 (vm_quote nonce (m_uuid e) hash_alg (m_vm_manifest_hash e) @
                         ''</VMQuote>'')) w
            in saml_bind (hash_of_file H C tempfile outfile hash_alg w) (\<lambda>(n, hash) w.
               saml_bind (encode_line B hash (nat n), w) (\<lambda>b64_str w.
               let w = h_fwrite H filepath b64_str w;
                   w = h_fwrite H filepath digest_end w
               in (Saml_ok b64_str, w))))))"

text \<open>Lines 1025 to 1044: the password of the signing key.\<close>

definition passwd_command :: "cstr \<Rightarrow> cstr" where
  "passwd_command dir =
     snprintf 2304 (''tagent config '' @ [CHR 0x22] @ ''signing.key.secret'' @ [CHR 0x22] @ '' > '' @ dir @
       ''sign_key_passwd'')"

definition read_signkey_passwd :: "'w host \<Rightarrow> cstr \<Rightarrow> 'w \<Rightarrow> cstr saml \<times> 'w" where
  "read_signkey_passwd H dir w =
     (let (_, w) = h_system H (passwd_command dir) w;
          tempfile = snprintf 1048 (dir @ ''sign_key_passwd'')
      in saml_bind (must_open H tempfile ForRead w) (\<lambda>_ w.
         let passwd = cstr_of (fst (fgets 99 (h_content H tempfile w)))
         in if passwd = [] then (Saml_undef, w)
            else if last passwd = newline then (Saml_ok (butlast passwd), w)
            else (Saml_ok passwd, w)))"

text \<open>Lines 993 to 1097: the signature over \<open>SignedInfo\<close>, by the TPM's command.\<close>

definition signing_command :: "signing_config \<Rightarrow> cstr \<Rightarrow> cstr \<Rightarrow> cstr" where
  "signing_command sc dir passwd =
     snprintf 2304 (''. /opt/trustagent/env.d/trustagent-lib && '' @ sc_sign_cmd sc @ '' -i '' @ dir @
       ''us_can.xml -k '' @ sc_key_blob sc @ '' -o '' @ dir @ ''hash.sig -q '' @ passwd @ '' -x'')"

definition make_signature ::
  "'w host \<Rightarrow> 'h sign_lib \<Rightarrow> b64_lib \<Rightarrow> signing_config \<Rightarrow> cstr \<Rightarrow> cstr \<Rightarrow> cstr \<Rightarrow> 'w
     \<Rightarrow> cstr saml \<times> 'w"
where
  "make_signature H C B sc dir hash_alg digest w =
     (let tempfile = snprintf 1048 (dir @ ''us_can.xml'')
      in saml_bind (must_open H tempfile ForWrite w) (\<lambda>_ w.
         let w = h_fwrite H tempfile (signed_info long_elem (attr ''xmlns'' dsig) hash_alg) w;
             w = h_fwrite H tempfile digest w;
             w = h_fwrite H tempfile ''</DigestValue></Reference></SignedInfo>'' w
         in saml_bind (read_signkey_passwd H dir w) (\<lambda>passwd w.
            saml_bind (hash_of_file H C tempfile (snprintf 1048 (dir @ ''temp.xml'')) hash_alg w)
              (\<lambda>(n, hash) w.
            let inputfile = snprintf 1048 (dir @ ''hash.input'')
            in saml_bind (must_open H inputfile ForWrite w) (\<lambda>_ w.
               let w = h_fwrite H inputfile (take (nat n) hash) w;
                   (i, w) = h_system H (signing_command sc dir passwd) w
               in if i \<noteq> 0 then (Saml_fail TCSERVICE_RESULT_FAILED, w)
                  else let sigfile = snprintf 1048 (dir @ ''hash.sig'')
                       in saml_bind (must_open H sigfile ForRead w) (\<lambda>_ w.
                          let signature = take 256 (h_content H sigfile w)
                          in (encode_line B signature (length signature), w)))))))"

text \<open>Lines 1099 to 1121: the signature and the certificate.\<close>

definition finish_report ::
  "'w host \<Rightarrow> 'h sign_lib \<Rightarrow> signing_config \<Rightarrow> cstr \<Rightarrow> cstr \<Rightarrow> 'w \<Rightarrow> unit saml \<times> 'w"
where
  "finish_report H C sc dir signature w =
     (let filepath = snprintf 1048 (dir @ ''signed_report.xml'')
      in saml_bind (must_open H filepath ForAppend w) (\<lambda>_ w.
         let w = h_fwrite H filepath signature w;
             w = h_fwrite H filepath signature_end w;
             ((r, cert), w) = appendCert H C [] dir 2048 (sc_key_file sc) w
         in if r \<noteq> 0 then (Saml_fail TCSERVICE_RESULT_FAILED, w)
            else let w = h_fwrite H filepath cert w;
                     w = h_fwrite H filepath report_end w
                 in (Saml_ok (), w)))"

text \<open>The result on success is the directory written to \<open>vm_manifest_dir\<close>.\<close>

definition GenerateSAMLAndGetDir ::
  "'w host \<Rightarrow> 'h sign_lib \<Rightarrow> b64_lib \<Rightarrow> globals \<Rightarrow> ptab \<Rightarrow> cstr \<Rightarrow> cstr \<Rightarrow> 'w \<Rightarrow> cstr saml \<times> 'w"
where
  "GenerateSAMLAndGetDir H C B G t vm_uuid nonce w =
     saml_bind (find_report_entry vm_uuid t, w) (\<lambda>e w.
     saml_bind (read_signing_config H w) (\<lambda>sc w.
     saml_bind (tpm_hash_alg H (sc_version_file sc) w) (\<lambda>hash_alg w.
     let dir = snprintf MANIFEST_DIR_SIZE (g_trust_report_dir G @ m_uuid e @ ''/'')
     in saml_bind (write_report_head H C B dir nonce e hash_alg w) (\<lambda>digest w.
        saml_bind (make_signature H C B sc dir hash_alg digest w) (\<lambda>signature w.
        saml_bind (finish_report H C sc dir signature w) (\<lambda>_ w. (Saml_ok dir, w)))))))"

end
