(* ===== verification/Channel_Coding.thy ===== *)
theory Channel_Coding
  imports Xml_Rpc
begin

text \<open>
  \<open>vrtmchannel/channelcoding.cpp\<close>: one encoder and one decoder per message, over
  \<open>parser.cpp\<close>.  A decoder of a request yields its result and the caller's method name and
  argument array, \<open>None\<close> when it writes behind the array; an error return leaves the
  caller's \<open>method_name = NULL\<close> and \<open>an = 0\<close> as they were.  \<open>buf\<close> is what the output
  buffer holds before the call, and for the four functions that test it, \<open>None\<close> is NULL.
\<close>

section \<open>Shared parts\<close>

type_synonym decoded_args = "bool \<times> cstr option \<times> cstr list"

definition memset0 :: "int \<Rightarrow> cstr \<Rightarrow> cstr" where
  "memset0 bufsize buf = (if bufsize = 0 then buf else [])"

definition decode_args :: "args_result \<Rightarrow> decoded_args option" where
  "decode_args r =
     (case r of
        Args m av \<Rightarrow> Some (0 < length av, m, av)
      | Args_error \<Rightarrow> Some (False, None, [])
      | Args_overflow \<Rightarrow> None)"

definition decode_cbuf :: "cbuf_out option \<Rightarrow> (bool \<times> cbuf_out) option" where
  "decode_cbuf r = map_option (\<lambda>c. (0 < xmldata_size c, c)) r"

section \<open>Starting an instance\<close>

definition encodeVM2RP_STARTAPP ::
  "xml_lib \<Rightarrow> b64_lib \<Rightarrow> cstr \<Rightarrow> cstr list \<Rightarrow> int \<Rightarrow> cstr \<Rightarrow> int \<times> cstr"
where
  "encodeVM2RP_STARTAPP X B file args bufsize buf =
     args_to_xmlrpc X B file args (memset0 bufsize buf)"

definition decodeVM2RP_STARTAPP :: "xml_lib \<Rightarrow> b64_lib \<Rightarrow> nat \<Rightarrow> cstr \<Rightarrow> decoded_args option" where
  "decodeVM2RP_STARTAPP X B cap buf = decode_args (xmlrpc_to_args X B cap buf)"

definition encodeRP2VM_STARTAPP ::
  "xml_lib \<Rightarrow> b64_lib \<Rightarrow> cstr \<Rightarrow> cstr option \<Rightarrow> int \<times> cstr option"
where
  "encodeRP2VM_STARTAPP X B response buf =
     (case buf of None \<Rightarrow> (0, None)
      | Some b \<Rightarrow> map_prod id Some (cbuf_to_xmlrpc X B ''StartApp'' response b))"

definition decodeRP2VM_STARTAPP ::
  "xml_lib \<Rightarrow> b64_lib \<Rightarrow> nat \<Rightarrow> int \<Rightarrow> cstr \<Rightarrow> cstr option \<Rightarrow> (bool \<times> cbuf_out) option"
where
  "decodeRP2VM_STARTAPP X B cap data_size data buf =
     (case buf of
        None \<Rightarrow> Some (False, \<lparr>xmldata_size = - 1, psize = data_size, cbuf_data = data\<rparr>)
      | Some b \<Rightarrow> decode_cbuf (xmlrpc_to_cbuf X B cap data_size data b))"

section \<open>Updating the status of a VM\<close>

definition encodeVM2RP_SETVM_STATUS ::
  "xml_lib \<Rightarrow> b64_lib \<Rightarrow> cstr \<Rightarrow> int \<Rightarrow> int \<Rightarrow> cstr \<Rightarrow> int \<times> cstr"
where
  "encodeVM2RP_SETVM_STATUS X B uuid vm_status bufsize buf =
     (let status = snprintf 64 (show_int vm_status)
      in args_to_xmlrpc X B ''set_vm_uuid'' [uuid, status] (memset0 bufsize buf))"

definition decodeVM2RP_SETVM_STATUS ::
  "xml_lib \<Rightarrow> b64_lib \<Rightarrow> nat \<Rightarrow> cstr \<Rightarrow> decoded_args option"
where
  "decodeVM2RP_SETVM_STATUS X B cap buf = decode_args (xmlrpc_to_args X B cap buf)"

definition encodeRP2VM_SETVM_STATUS ::
  "xml_lib \<Rightarrow> b64_lib \<Rightarrow> cstr \<Rightarrow> cstr option \<Rightarrow> int \<times> cstr option"
where
  "encodeRP2VM_SETVM_STATUS X B response buf =
     (case buf of None \<Rightarrow> (0, None)
      | Some b \<Rightarrow> map_prod id Some (cbuf_to_xmlrpc X B ''update_vm_status'' response b))"

definition decodeRP2VM_SETVM_STATUS ::
  "xml_lib \<Rightarrow> b64_lib \<Rightarrow> nat \<Rightarrow> int \<Rightarrow> cstr \<Rightarrow> cstr option \<Rightarrow> (bool \<times> cbuf_out) option"
where
  "decodeRP2VM_SETVM_STATUS X B cap data_size data buf =
     (case buf of
        None \<Rightarrow> Some (False, \<lparr>xmldata_size = - 1, psize = data_size, cbuf_data = data\<rparr>)
      | Some b \<Rightarrow> decode_cbuf (xmlrpc_to_cbuf X B cap data_size data b))"

section \<open>Terminating an instance\<close>

definition encodeVM2RP_TERMINATEAPP ::
  "xml_lib \<Rightarrow> b64_lib \<Rightarrow> cstr \<Rightarrow> int \<Rightarrow> cstr \<Rightarrow> int \<times> cstr"
where
  "encodeVM2RP_TERMINATEAPP X B data bufsize buf =
     cbuf_to_xmlrpc X B ''delete_vm'' data (memset0 bufsize buf)"

definition decodeVM2RP_TERMINATEAPP ::
  "xml_lib \<Rightarrow> b64_lib \<Rightarrow> nat \<Rightarrow> cstr \<Rightarrow> decoded_args option"
where
  "decodeVM2RP_TERMINATEAPP X B cap buf = decode_args (xmlrpc_to_args X B cap buf)"

definition encodeRP2VM_TERMINATEAPP ::
  "xml_lib \<Rightarrow> b64_lib \<Rightarrow> cstr \<Rightarrow> int \<Rightarrow> cstr \<Rightarrow> int \<times> cstr"
where
  "encodeRP2VM_TERMINATEAPP X B data bufsize buf =
     cbuf_to_xmlrpc X B [] data (memset0 bufsize buf)"

definition decodeRP2VM_TERMINATEAPP ::
  "xml_lib \<Rightarrow> b64_lib \<Rightarrow> nat \<Rightarrow> int \<Rightarrow> cstr \<Rightarrow> cstr \<Rightarrow> (bool \<times> cbuf_out) option"
where
  "decodeRP2VM_TERMINATEAPP X B cap data_size data buf =
     decode_cbuf (xmlrpc_to_cbuf X B cap data_size data buf)"

section \<open>Queries\<close>

text \<open>The names are those of the sources: these decode the request, in the vRTM core.\<close>

definition decodeRP2VM_GETRPID :: "xml_lib \<Rightarrow> b64_lib \<Rightarrow> nat \<Rightarrow> cstr \<Rightarrow> decoded_args option" where
  "decodeRP2VM_GETRPID X B cap buf = decode_args (xmlrpc_to_args X B cap buf)"

definition encodeRP2VM_GETRPID ::
  "xml_lib \<Rightarrow> b64_lib \<Rightarrow> cstr \<Rightarrow> int \<Rightarrow> cstr \<Rightarrow> int \<times> cstr"
where
  "encodeRP2VM_GETRPID X B data bufsize buf =
     cbuf_to_xmlrpc X B [] data (memset0 bufsize buf)"

definition decodeRP2VM_GETVMMETA :: "xml_lib \<Rightarrow> b64_lib \<Rightarrow> nat \<Rightarrow> cstr \<Rightarrow> decoded_args option" where
  "decodeRP2VM_GETVMMETA X B cap buf = decode_args (xmlrpc_to_args X B cap buf)"

definition encodeRP2VM_GETVMMETA ::
  "xml_lib \<Rightarrow> b64_lib \<Rightarrow> cstr list \<Rightarrow> int \<Rightarrow> cstr \<Rightarrow> int \<times> cstr"
where
  "encodeRP2VM_GETVMMETA X B metadata bufsize buf =
     args_to_xmlrpc X B ''get_vmmeta'' metadata (memset0 bufsize buf)"

definition decodeRP2VM_ISVERIFIED :: "xml_lib \<Rightarrow> b64_lib \<Rightarrow> nat \<Rightarrow> cstr \<Rightarrow> decoded_args option" where
  "decodeRP2VM_ISVERIFIED X B cap buf = decode_args (xmlrpc_to_args X B cap buf)"

definition encodeRP2VM_ISVERIFIED ::
  "xml_lib \<Rightarrow> b64_lib \<Rightarrow> cstr \<Rightarrow> int \<Rightarrow> cstr \<Rightarrow> int \<times> cstr"
where
  "encodeRP2VM_ISVERIFIED X B data bufsize buf =
     cbuf_to_xmlrpc X B [] data (memset0 bufsize buf)"

definition decodeRP2VM_GETVMREPORT :: "xml_lib \<Rightarrow> b64_lib \<Rightarrow> nat \<Rightarrow> cstr \<Rightarrow> decoded_args option" where
  "decodeRP2VM_GETVMREPORT X B cap buf = decode_args (xmlrpc_to_args X B cap buf)"

definition encodeRP2VM_GETVMREPORT ::
  "xml_lib \<Rightarrow> b64_lib \<Rightarrow> cstr \<Rightarrow> int \<Rightarrow> cstr \<Rightarrow> int \<times> cstr"
where
  "encodeRP2VM_GETVMREPORT X B data bufsize buf =
     cbuf_to_xmlrpc X B [] data (memset0 bufsize buf)"

section \<open>Round trips\<close>

lemmas coding_defs =
  encodeVM2RP_STARTAPP_def decodeVM2RP_STARTAPP_def encodeRP2VM_STARTAPP_def
  decodeRP2VM_STARTAPP_def encodeVM2RP_SETVM_STATUS_def decodeVM2RP_SETVM_STATUS_def
  encodeRP2VM_SETVM_STATUS_def decodeRP2VM_SETVM_STATUS_def encodeVM2RP_TERMINATEAPP_def
  decodeVM2RP_TERMINATEAPP_def encodeRP2VM_TERMINATEAPP_def decodeRP2VM_TERMINATEAPP_def
  decodeRP2VM_GETRPID_def encodeRP2VM_GETRPID_def decodeRP2VM_GETVMMETA_def
  encodeRP2VM_GETVMMETA_def decodeRP2VM_ISVERIFIED_def encodeRP2VM_ISVERIFIED_def
  decodeRP2VM_GETVMREPORT_def encodeRP2VM_GETVMREPORT_def

lemma wire_arg_show_int [simp]: "int32 i \<Longrightarrow> wire_arg (show_int i)"
  using length_show_int [of i] by (simp add: wire_arg_def)

lemma snprintf_show_int [simp]: "int32 i \<Longrightarrow> 11 < n \<Longrightarrow> snprintf n (show_int i) = show_int i"
  using length_show_int [of i] by simp

lemma method_names:
  "list_all inert_char ''set_vm_uuid''" "list_all inert_char ''update_vm_status''"
  "list_all inert_char ''StartApp''" "list_all inert_char ''foo''"
  "list_all inert_char ''get_vmmeta''" "list_all inert_char ''delete_vm''"
  by (simp_all add: inert_char_def b64_char_def)

lemma decode_args_Args [simp]:
  "decode_args (Args m av) = Some (0 < length av, m, av)"
  "decode_args Args_error = Some (False, None, [])" "decode_args Args_overflow = None"
  by (simp_all add: decode_args_def)

lemma decode_args_ok:
  "decode_args r = Some (ok, m, av) \<Longrightarrow> ok \<longleftrightarrow> av \<noteq> []"
  by (auto simp: decode_args_def split: args_result.splits)

lemma decode_args_wire:
  "decode_args (xmlrpc_to_args X B cap buf) = Some (ok, m, av) \<Longrightarrow>
   length av \<le> cap \<and> (\<forall>a \<in> set av. wire_arg a)"
  by (auto simp: decode_args_def split: args_result.splits
      dest: xmlrpc_to_args_bound xmlrpc_to_args_wire)

lemma STARTAPP_request_roundtrip:
  assumes "xml_law X" "b64_law B" "list_all inert_char file" "\<forall>a \<in> set args. wire_arg a"
    and "length (rpc_text X B file args) < MAX_LEN"
  shows "decodeVM2RP_STARTAPP X B cap (snd (encodeVM2RP_STARTAPP X B file args n buf)) =
     (if length args \<le> cap then Some (0 < length args, Some file, args) else None)"
  using args_roundtrip [OF assms, of cap] by (simp add: coding_defs)

lemma SETVM_STATUS_request_roundtrip:
  assumes "xml_law X" "b64_law B" "wire_arg uuid" "int32 status" "2 \<le> cap"
    and "length (rpc_text X B ''set_vm_uuid'' [uuid, show_int status]) < MAX_LEN"
  shows "decodeVM2RP_SETVM_STATUS X B cap
       (snd (encodeVM2RP_SETVM_STATUS X B uuid status n buf)) =
     Some (True, Some ''set_vm_uuid'', [uuid, show_int status])"
  using assms args_roundtrip [OF assms(1,2) method_names(1), of "[uuid, show_int status]" cap]
  by (simp add: coding_defs Let_def)

text \<open>A reply is decoded to the text it was built from.\<close>

lemma decode_reply:
  assumes "xml_law X" "b64_law B" "list_all inert_char m" "wire_arg d" "d \<noteq> []"
    and "length (rpc_text X B m [d]) < MAX_LEN" "length d < cap"
  shows "decode_cbuf (xmlrpc_to_cbuf X B cap n data (snd (cbuf_to_xmlrpc X B m d buf))) =
     Some (True, \<lparr>xmldata_size = int (length d), psize = int (length d), cbuf_data = d\<rparr>)"
  using cbuf_roundtrip [OF assms(1-4,6), of cap] assms(5,7) by (simp add: decode_cbuf_def)

lemma STARTAPP_reply_roundtrip:
  assumes "xml_law X" "b64_law B" "int32 i" "12 \<le> cap"
    and "length (rpc_text X B ''StartApp'' [show_int i]) < MAX_LEN"
  shows "decodeRP2VM_STARTAPP X B cap n data
       (snd (encodeRP2VM_STARTAPP X B (show_int i) (Some buf))) =
     Some (True, \<lparr>xmldata_size = int (length (show_int i)),
                  psize = int (length (show_int i)), cbuf_data = show_int i\<rparr>)"
  using assms decode_reply [OF assms(1,2) method_names(3), of "show_int i" cap] length_show_int [of i]
  by (simp add: coding_defs)

lemma SETVM_STATUS_reply_roundtrip:
  assumes "xml_law X" "b64_law B" "int32 r" "12 \<le> cap"
    and "length (rpc_text X B ''update_vm_status'' [show_int r]) < MAX_LEN"
  shows "decodeRP2VM_SETVM_STATUS X B cap n data
       (snd (encodeRP2VM_SETVM_STATUS X B (show_int r) (Some buf))) =
     Some (True, \<lparr>xmldata_size = int (length (show_int r)),
                  psize = int (length (show_int r)), cbuf_data = show_int r\<rparr>)"
  using assms decode_reply [OF assms(1,2) method_names(2), of "show_int r" cap]
    length_show_int [of r]
  by (simp add: coding_defs)

end
