(* ===== verification/Tcp_Channel.thy ===== *)
theory Tcp_Channel
  imports Host
begin

text \<open>
  \<open>vrtmchannel/tcpchan.h\<close> and \<open>.cpp\<close>: the message header and the loops that move a message
  through a stream socket.  A byte is a \<open>char\<close>.  The socket calls are parameters; the locales
  \<open>byte_source\<close> and \<open>byte_sink\<close> say what the loops rely on, and are interpreted on sockets
  that deliver and accept a message in arbitrary pieces.
\<close>

section \<open>The header\<close>

abbreviation PADDEDREQ :: nat where "PADDEDREQ \<equiv> 64 * 1024"
abbreviation HEADER :: nat where "HEADER \<equiv> 12"
abbreviation PARAMSIZE :: nat where "PARAMSIZE \<equiv> 65524"

record tcBuffer =
  m_reqID :: u32
  m_reqSize :: u32
  m_ustatus :: u32

text \<open>An \<open>unsigned int\<close> in memory, least significant byte first.\<close>

definition le32 :: "u32 \<Rightarrow> string" where
  "le32 w = [char_of (unat w), char_of (unat (drop_bit 8 w)), char_of (unat (drop_bit 16 w)),
             char_of (unat (drop_bit 24 w))]"

definition read_le32 :: "string \<Rightarrow> u32" where
  "read_le32 s = word_of_nat (of_char (s ! 0) + 256 * (of_char (s ! 1) +
     256 * (of_char (s ! 2) + 256 * of_char (s ! 3))))"

definition put_header :: "tcBuffer \<Rightarrow> string" where
  "put_header h = le32 (m_reqID h) @ le32 (m_reqSize h) @ le32 (m_ustatus h)"

text \<open>The header at the start of a buffer that was cleared before the bytes arrived.\<close>

definition get_header :: "string \<Rightarrow> tcBuffer" where
  "get_header bytes =
     (let b = take HEADER (bytes @ replicate HEADER nul)
      in \<lparr>m_reqID = read_le32 b, m_reqSize = read_le32 (drop 4 b),
          m_ustatus = read_le32 (drop 8 b)\<rparr>)"

lemma length_le32 [simp]: "length (le32 w) = 4"
  by (simp add: le32_def)

lemma length_put_header [simp]: "length (put_header h) = HEADER"
  by (simp add: put_header_def)

lemma unat_bytes:
  fixes n :: nat
  assumes "n < 2 ^ 32"
  shows "n mod 256 + 256 * (n div 2 ^ 8 mod 256 + 256 * (n div 2 ^ 16 mod 256 +
     256 * (n div 2 ^ 24 mod 256))) = n"
proof -
  define q1 q2 q3 where "q1 = n div 256" and "q2 = q1 div 256" and "q3 = q2 div 256"
  have q: "n div 2 ^ 8 = q1" "n div 2 ^ 16 = q2" "n div 2 ^ 24 = q3"
    by (simp_all add: q1_def q2_def q3_def div_mult2_eq [symmetric])
  have "q3 < 256" using assms unfolding q [symmetric] by (simp add: less_mult_imp_div_less)
  then have "q3 mod 256 = q3" by (rule mod_less)
  moreover have "q2 mod 256 + 256 * q3 = q2" "q1 mod 256 + 256 * q2 = q1"
    "n mod 256 + 256 * q1 = n"
    unfolding q1_def q2_def q3_def by (rule mod_mult_div_eq)+
  ultimately show ?thesis unfolding q by (simp only:)
qed

lemma unat_drop_bit_div: "unat (drop_bit k w) = unat w div 2 ^ k"
  by (rule unat_drop_bit_eq [unfolded drop_bit_eq_div [where ?'a = nat]])

lemma le32_nth:
  "of_char ((le32 w @ t) ! 0) = unat w mod 256"
  "of_char ((le32 w @ t) ! 1) = unat w div 2 ^ 8 mod 256"
  "of_char ((le32 w @ t) ! 2) = unat w div 2 ^ 16 mod 256"
  "of_char ((le32 w @ t) ! 3) = unat w div 2 ^ 24 mod 256"
  by (simp_all only: le32_def append.simps nth_Cons_0 nth_Cons_numeral nth_Cons_Suc One_nat_def
      of_char_of unat_drop_bit_div) simp_all

lemma read_le32_le32 [simp]: "read_le32 (le32 w @ t) = w"
proof -
  have "unat w < 2 ^ 32" using unsigned_less [of w] by simp
  then show ?thesis
    unfolding read_le32_def le32_nth by (simp only: unat_bytes of_nat_unat ucast_id)
qed

lemma read_le32_exact [simp]: "read_le32 (le32 w) = w"
  using read_le32_le32 [of w "[]"] by simp

lemma get_put_header [wire_simps]: "get_header (put_header h @ t) = h"
proof -
  have "take HEADER ((put_header h @ t) @ replicate HEADER nul) = put_header h"
    by simp
  then show ?thesis
    by (simp add: get_header_def Let_def) (simp add: put_header_def)
qed

lemma get_put_header_exact [wire_simps]: "get_header (put_header h) = h"
  using get_put_header [of h "[]"] by simp

section \<open>\<open>ch_read\<close>\<close>

text \<open>What \<open>recv\<close> returns: an error with its \<open>errno\<close>, or the bytes received.\<close>

datatype recv_result = Recv_error int | Received string

text \<open>
  The loop: ask for what is missing up to \<open>limit\<close> bytes in the buffer, until \<open>target\<close> bytes
  are there or nothing more comes.  A call that delivered more than was asked for would have
  written behind the buffer.
\<close>

datatype 'a io = Io_error int | Io_ok 'a | Io_overrun

function recv_loop ::
  "(nat \<Rightarrow> 's \<Rightarrow> recv_result \<times> 's) \<Rightarrow> nat \<Rightarrow> nat \<Rightarrow> string \<Rightarrow> 's \<Rightarrow> string io \<times> 's"
where
  "recv_loop rcv limit target bytes s =
     (case rcv (limit - length bytes) s of
        (Recv_error e, s') \<Rightarrow> (Io_error e, s')
      | (Received d, s') \<Rightarrow>
          if d = [] then (Io_ok bytes, s')
          else if limit - length bytes < length d then (Io_overrun, s')
          else if length bytes + length d < target
          then recv_loop rcv limit target (bytes @ d) s'
          else (Io_ok (bytes @ d), s'))"
  by auto
termination
  by (relation "measure (\<lambda>(rcv, limit, target, bytes, s). limit - length bytes)")
    (auto simp flip: length_greater_0_conv)

declare recv_loop.simps [simp del]

text \<open>
  \<open>data_len = sz_header + pReq->m_reqSize\<close> is computed in 32-bit unsigned arithmetic.
\<close>

definition ch_read :: "(nat \<Rightarrow> 's \<Rightarrow> recv_result \<times> 's) \<Rightarrow> nat \<Rightarrow> 's \<Rightarrow> string io \<times> 's" where
  "ch_read rcv bufsize s =
     (case recv_loop rcv HEADER HEADER [] s of
        (Io_ok bytes, s') \<Rightarrow>
          (let reqSize = m_reqSize (get_header bytes)
           in if reqSize = 0 then (Io_ok bytes, s')
              else recv_loop rcv bufsize (unat (12 + reqSize)) bytes s')
      | r \<Rightarrow> r)"

text \<open>The contract of a socket that delivers a stream of bytes.\<close>

locale byte_source =
  fixes rcv :: "nat \<Rightarrow> 's \<Rightarrow> recv_result \<times> 's"
    and pending :: "'s \<Rightarrow> string"
  assumes rcv_stream: "\<exists>d s'. rcv n s = (Received d, s') \<and> pending s = d @ pending s' \<and>
      length d \<le> n \<and> (d = [] \<longrightarrow> n = 0 \<or> pending s = [])"
begin

text \<open>
  The loop takes a prefix of the stream: at most \<open>limit\<close> bytes, and fewer than \<open>target\<close> only
  at the end of the stream or of the buffer.
\<close>

lemma recv_loop_prefix:
  "length bytes \<le> limit \<Longrightarrow>
   \<exists>d s'. recv_loop rcv limit target bytes s = (Io_ok (bytes @ d), s') \<and>
     pending s = d @ pending s' \<and> length (bytes @ d) \<le> limit \<and>
     (target \<le> length (bytes @ d) \<or> pending s' = [] \<or> length (bytes @ d) = limit)"
proof (induction "limit - length bytes" arbitrary: bytes s rule: less_induct)
  case less
  obtain d s' where r: "rcv (limit - length bytes) s = (Received d, s')"
    and p: "pending s = d @ pending s'" "length d \<le> limit - length bytes"
    and e: "d = [] \<longrightarrow> limit - length bytes = 0 \<or> pending s = []"
    using rcv_stream by blast
  show ?case
  proof (cases "d = []")
    case True
    with r p e less.prems show ?thesis
      by (intro exI [of _ "[]"] exI [of _ s']) (auto simp: recv_loop.simps [of rcv])
  next
    case False
    show ?thesis
    proof (cases "length bytes + length d < target")
      case True
      have "limit - length (bytes @ d) < limit - length bytes"
        using False p(2) by (cases d) auto
      moreover have "length (bytes @ d) \<le> limit" using p(2) less.prems by simp
      ultimately obtain d' s'' where i: "recv_loop rcv limit target (bytes @ d) s' =
          (Io_ok ((bytes @ d) @ d'), s'')" "pending s' = d' @ pending s''"
          "length ((bytes @ d) @ d') \<le> limit"
          "target \<le> length ((bytes @ d) @ d') \<or> pending s'' = [] \<or> length ((bytes @ d) @ d') = limit"
        using less.hyps by blast
      then show ?thesis
        using r p False True
        by (intro exI [of _ "d @ d'"] exI [of _ s''])
          (simp add: recv_loop.simps [of rcv limit target bytes])
    next
      case n: False
      then show ?thesis
        using r p False less.prems
        by (intro exI [of _ d] exI [of _ s'])
          (auto simp: recv_loop.simps [of rcv limit target bytes])
    qed
  qed
qed

text \<open>
  One message, in whatever pieces the socket delivers it, is read whole when it is all that
  the peer sends.
\<close>

lemma ch_read_message_in:
  assumes pend: "pending s = put_header h @ payload"
    and size: "m_reqSize h = word_of_nat (length payload)"
    and fits: "length payload + HEADER \<le> bufsize" "bufsize \<le> PADDEDREQ"
  shows "\<exists>s'. ch_read rcv bufsize s = (Io_ok (put_header h @ payload), s') \<and> pending s' = []"
proof -
  obtain d s1 where d: "recv_loop rcv HEADER HEADER [] s = (Io_ok d, s1)"
    "pending s = d @ pending s1" "length d \<le> HEADER"
    "HEADER \<le> length d \<or> pending s1 = [] \<or> length d = HEADER"
    using recv_loop_prefix [of "[]" HEADER HEADER s] by auto
  have "length d = HEADER"
    using d(2-4) pend by (metis append_Nil2 le_add1 le_antisym length_append length_put_header)
  then have dh: "d = put_header h" and p1: "pending s1 = payload"
    using d(2) pend by (metis append_eq_append_conv length_put_header)+
  have len: "unat (12 + m_reqSize h) = HEADER + length payload" (is "?n = _")
    using fits by (simp add: size unat_word_ariths unat_of_nat)
  show ?thesis
  proof (cases "m_reqSize h = 0")
    case True
    then have "payload = []" using len by simp
    with True d(1) dh p1 show ?thesis by (simp add: ch_read_def get_put_header_exact)
  next
    case False
    obtain d2 s2 where d2: "recv_loop rcv bufsize ?n d s1 = (Io_ok (d @ d2), s2)"
      "pending s1 = d2 @ pending s2" "length (d @ d2) \<le> bufsize"
      "?n \<le> length (d @ d2) \<or> pending s2 = [] \<or> length (d @ d2) = bufsize"
      using recv_loop_prefix [of d bufsize ?n s1] \<open>length d = HEADER\<close> fits by auto
    have "pending s2 = []"
    proof -
      have "length d2 + length (pending s2) = length payload"
        using d2(2) p1 by (metis length_append)
      then show ?thesis
        using d2(4) len fits \<open>length d = HEADER\<close> by (auto simp flip: length_0_conv)
    qed
    then have "d2 = payload" using d2(2) p1 by simp
    with False d(1) d2(1) dh \<open>pending s2 = []\<close> show ?thesis
      by (simp add: ch_read_def get_put_header_exact Let_def)
  qed
qed

lemma ch_read_message:
  assumes "pending s = put_header h @ payload" "m_reqSize h = word_of_nat (length payload)"
    "length payload \<le> PARAMSIZE"
  shows "\<exists>s'. ch_read rcv PADDEDREQ s = (Io_ok (put_header h @ payload), s') \<and> pending s' = []"
  using assms by (intro ch_read_message_in) simp_all

text \<open>Whatever arrives, no more than the buffer's size is stored.\<close>

lemma ch_read_bound:
  assumes "HEADER \<le> bufsize"
  shows "\<exists>d s'. ch_read rcv bufsize s = (Io_ok d, s') \<and> length d \<le> bufsize \<and>
      pending s = d @ pending s'"
proof -
  obtain d s1 where d: "recv_loop rcv HEADER HEADER [] s = (Io_ok d, s1)"
    "pending s = d @ pending s1" "length d \<le> HEADER"
    using recv_loop_prefix [of "[]" HEADER HEADER s] by auto
  obtain d2 s2 where d2: "recv_loop rcv bufsize (unat (12 + m_reqSize (get_header d))) d s1 =
      (Io_ok (d @ d2), s2)" "pending s1 = d2 @ pending s2" "length (d @ d2) \<le> bufsize"
    using recv_loop_prefix [of d bufsize _ s1] d(3) assms by (meson le_trans)
  show ?thesis
  proof (cases "m_reqSize (get_header d) = 0")
    case True
    with d assms show ?thesis by (simp add: ch_read_def)
  next
    case False
    with d d2 show ?thesis by (simp add: ch_read_def)
  qed
qed

text \<open>Such a socket never makes the loops report an error.\<close>

lemma recv_loop_no_error: "recv_loop rcv limit target bytes s \<noteq> (Io_error e, t)"
proof (induction "limit - length bytes" arbitrary: bytes s rule: less_induct)
  case less
  obtain d s' where d: "rcv (limit - length bytes) s = (Received d, s')" "length d \<le> limit - length bytes"
    using rcv_stream by blast
  have "recv_loop rcv limit target (bytes @ d) s' \<noteq> (Io_error e, t)" if "d \<noteq> []"
    using that d(2) by (intro less.hyps) (cases d, auto)
  with d show ?case
    by (auto simp: recv_loop.simps [of rcv limit target bytes s] Let_def)
qed

lemma ch_read_no_error: "ch_read rcv n s \<noteq> (Io_error e, s')"
  by (auto simp: ch_read_def Let_def recv_loop_no_error split: io.splits prod.splits)

end

text \<open>A socket that delivers its bytes in given pieces.\<close>

fun chunk_recv :: "nat \<Rightarrow> string list \<Rightarrow> recv_result \<times> string list" where
  "chunk_recv n [] = (Received [], [])"
| "chunk_recv n (c # cs) =
     (if c = [] then chunk_recv n cs
      else if length c \<le> n then (Received c, cs)
      else (Received (take n c), drop n c # cs))"

lemma chunk_recv_stream:
  "\<exists>d s'. chunk_recv n s = (Received d, s') \<and> concat s = d @ concat s' \<and> length d \<le> n \<and>
     (d = [] \<longrightarrow> n = 0 \<or> concat s = [])"
  by (induction n s rule: chunk_recv.induct) auto

interpretation chunks: byte_source chunk_recv concat
  by unfold_locales (rule chunk_recv_stream)

section \<open>\<open>ch_write\<close>\<close>

text \<open>
  The result of \<open>send\<close>, like that of the C function, is negative on failure.  The loop has no
  bound: \<open>None\<close> is a run that never returns, as when \<open>send\<close> keeps accepting nothing.
\<close>

partial_function (option) send_loop ::
  "(string \<Rightarrow> 's \<Rightarrow> int \<times> 's) \<Rightarrow> string \<Rightarrow> nat \<Rightarrow> nat \<Rightarrow> 's \<Rightarrow> (int \<times> 's) option"
where
  "send_loop snd_fn buf len written s =
     (case snd_fn (take (len - written) (drop written buf)) s of
        (ret, s') \<Rightarrow>
          if ret < 0 then Some (ret, s')
          else if written + nat ret < len then send_loop snd_fn buf len (written + nat ret) s'
          else Some (int (written + nat ret), s'))"

definition ch_write ::
  "(string \<Rightarrow> 's \<Rightarrow> int \<times> 's) \<Rightarrow> string \<Rightarrow> nat \<Rightarrow> 's \<Rightarrow> (int \<times> 's) option"
where
  "ch_write snd_fn buf len s = send_loop snd_fn buf len 0 s"

text \<open>The contract of a socket that takes at least one byte of what it is offered.\<close>

locale byte_sink =
  fixes snd_fn :: "string \<Rightarrow> 's \<Rightarrow> int \<times> 's"
    and sent :: "'s \<Rightarrow> string"
  assumes snd_progress: "\<exists>k s'. snd_fn d s = (int k, s') \<and> k \<le> length d \<and>
      (d \<noteq> [] \<longrightarrow> 0 < k) \<and> sent s' = sent s @ take k d"
begin

lemma send_loop_all:
  "len \<le> length buf \<Longrightarrow> written \<le> len \<Longrightarrow>
   \<exists>s'. send_loop snd_fn buf len written s = Some (int len, s') \<and>
     sent s' = sent s @ take (len - written) (drop written buf)"
proof (induction "len - written" arbitrary: written s rule: less_induct)
  case less
  let ?d = "take (len - written) (drop written buf)"
  have ld: "length ?d = len - written" using less.prems by simp
  obtain k s' where k: "snd_fn ?d s = (int k, s')" "k \<le> len - written" "?d \<noteq> [] \<longrightarrow> 0 < k"
    "sent s' = sent s @ take k ?d"
    using snd_progress [of ?d s] ld by auto
  show ?case
  proof (cases "written + k < len")
    case True
    then have "?d \<noteq> []" using ld by auto
    then have "len - (written + k) < len - written" using k(3) True by simp
    then obtain s'' where s'': "send_loop snd_fn buf len (written + k) s' = Some (int len, s'')"
      "sent s'' = sent s' @ take (len - (written + k)) (drop (written + k) buf)"
      using less.hyps less.prems(1) True by (meson less_imp_le)
    have "take k ?d @ take (len - (written + k)) (drop (written + k) buf) = ?d"
      using k(2) by (metis add.commute diff_diff_left drop_drop le_add_diff_inverse min.absorb1
          take_add take_take)
    then have "sent s'' = sent s @ ?d"
      using s''(2) k(4) by (metis append.assoc)
    then show ?thesis
      using s'' k(1) True by (subst send_loop.simps) simp
  next
    case False
    then have "k = len - written" using k(2) less.prems by simp
    then have "sent s' = sent s @ ?d" using k(4) ld by simp
    moreover have "written + nat (int len - int written) = len"
      using less.prems by simp
    ultimately show ?thesis
      using k(1) False \<open>k = len - written\<close> less.prems by (subst send_loop.simps) simp
  qed
qed

lemma ch_write_all:
  "len \<le> length buf \<Longrightarrow>
   \<exists>s'. ch_write snd_fn buf len s = Some (int len, s') \<and> sent s' = sent s @ take len buf"
  using send_loop_all [of len buf 0 s] by (simp add: ch_write_def)

end

text \<open>A socket whose buffer has room for the listed amounts, then for everything.\<close>

fun chunk_send :: "string \<Rightarrow> nat list \<times> string \<Rightarrow> int \<times> nat list \<times> string" where
  "chunk_send d ([], out) = (int (length d), [], out @ d)"
| "chunk_send d (c # cs, out) =
     (let k = min (length d) (Suc c) in (int k, cs, out @ take k d))"

lemma chunk_send_progress:
  "\<exists>k s'. chunk_send d s = (int k, s') \<and> k \<le> length d \<and> (d \<noteq> [] \<longrightarrow> 0 < k) \<and>
     snd s' = snd s @ take k d"
proof -
  obtain cs out where s: "s = (cs, out)" by force
  show ?thesis
  proof (cases cs)
    case Nil
    then show ?thesis by (intro exI [of _ "length d"]) (simp add: s)
  next
    case (Cons c cs')
    then show ?thesis by (intro exI [of _ "min (length d) (Suc c)"]) (auto simp: s Let_def)
  qed
qed

interpretation chunk_out: byte_sink chunk_send snd
  by unfold_locales (rule chunk_send_progress)

section \<open>Both directions\<close>

text \<open>A connection whose two directions do not disturb each other.\<close>

locale full_duplex = byte_source rcv pending + byte_sink snd_fn sent
  for rcv :: "nat \<Rightarrow> 's \<Rightarrow> recv_result \<times> 's" and pending :: "'s \<Rightarrow> string"
    and snd_fn :: "string \<Rightarrow> 's \<Rightarrow> int \<times> 's" and sent :: "'s \<Rightarrow> string" +
  assumes rcv_sent: "sent (snd (rcv n s)) = sent s"
    and snd_pending: "pending (snd (snd_fn d s)) = pending s"
begin

lemma recv_loop_sent: "sent (snd (recv_loop rcv limit target bytes s)) = sent s"
proof (induction "limit - length bytes" arbitrary: bytes s rule: less_induct)
  case less
  obtain r s' where r: "rcv (limit - length bytes) s = (r, s')" by force
  then have s': "sent s' = sent s" using rcv_sent by (metis snd_conv)
  have "sent (snd (recv_loop rcv limit target (bytes @ d) s')) = sent s'"
    if "d \<noteq> []" "length d \<le> limit - length bytes" for d
  proof -
    have "limit - length (bytes @ d) < limit - length bytes" using that by (cases d) auto
    then show ?thesis by (rule less.hyps)
  qed
  with r s' show ?case
    by (auto simp: recv_loop.simps [of rcv limit target bytes s] split: recv_result.splits)
qed

lemma ch_read_sent: "sent (snd (ch_read rcv n s)) = sent s"
proof -
  obtain r s' where r: "recv_loop rcv HEADER HEADER [] s = (r, s')" by force
  then have "sent s' = sent s" using recv_loop_sent by (metis snd_conv)
  with r show ?thesis
    by (auto simp: ch_read_def Let_def recv_loop_sent split: io.splits)
qed

lemma ch_write_pending: "ch_write snd_fn buf len s = Some (n, s') \<Longrightarrow> pending s' = pending s"
proof -
  have snd: "snd_fn d s = (k, s') \<Longrightarrow> pending s' = pending s" for d s k s'
    using snd_pending by (metis snd_conv)
  have "send_loop f buf len k s = Some y \<Longrightarrow> f = snd_fn \<longrightarrow> pending (snd y) = pending s" for f k y
    by (erule send_loop.raw_induct [where P = "\<lambda>f buf len k s y. f = snd_fn \<longrightarrow> pending (snd y) = pending s", rotated])
      (auto split: prod.splits if_splits dest: snd)
  then show "ch_write snd_fn buf len s = Some (n, s') \<Longrightarrow> pending s' = pending s"
    unfolding ch_write_def by fastforce
qed

end

text \<open>A connection with the call that closes it, which takes nothing back that was sent.\<close>

locale closing_end = full_duplex rcv pending snd_fn sent
  for rcv :: "nat \<Rightarrow> 's \<Rightarrow> recv_result \<times> 's" and pending :: "'s \<Rightarrow> string"
    and snd_fn :: "string \<Rightarrow> 's \<Rightarrow> int \<times> 's" and sent :: "'s \<Rightarrow> string" +
  fixes cl :: "'s \<Rightarrow> 's"
  assumes cl_sent: "sent (cl s) = sent s"

section \<open>Opening a channel\<close>

text \<open>The calls that set up a socket, over a state of the network.\<close>

record 'n net =
  n_startup :: "'n \<Rightarrow> bool"
  n_getaddrinfo :: "cstr \<Rightarrow> cstr \<Rightarrow> 'n \<Rightarrow> bool"
  n_socket :: "'n \<Rightarrow> int \<times> 'n"
  n_connect :: "int \<Rightarrow> cstr \<Rightarrow> cstr \<Rightarrow> 'n \<Rightarrow> bool \<times> 'n"
  n_bind :: "int \<Rightarrow> cstr \<Rightarrow> cstr \<Rightarrow> 'n \<Rightarrow> bool \<times> 'n"
  n_listen :: "int \<Rightarrow> nat \<Rightarrow> 'n \<Rightarrow> bool \<times> 'n"
  n_accept :: "int \<Rightarrow> 'n \<Rightarrow> int \<times> 'n"
  n_close :: "int \<Rightarrow> 'n \<Rightarrow> 'n"

definition ch_open :: "'n net \<Rightarrow> platform \<Rightarrow> cstr option \<Rightarrow> int \<Rightarrow> 'n \<Rightarrow> int \<times> 'n" where
  "ch_open N plat serverip port n =
     (let ip = (case serverip of None \<Rightarrow> ''127.0.0.1'' | Some s \<Rightarrow> s);
          p = (if port = 0 then 16005 else port);
          server_port = snprintf 10 (show_int p)
      in if plat = Windows \<and> \<not> n_startup N n then (- 1, n)
         else if \<not> n_getaddrinfo N ip server_port n then (- 1, n)
         else let (fd, n1) = n_socket N n
              in if fd < 0 then (- 1, n1)
                 else case n_connect N fd ip server_port n1 of
                        (True, n2) \<Rightarrow> (fd, n2)
                      | (False, n2) \<Rightarrow> (- 1, n_close N fd n2))"

lemma ch_open_negative: "fst (ch_open N plat ip port n) < 0 \<Longrightarrow> fst (ch_open N plat ip port n) = - 1"
  by (auto simp: ch_open_def Let_def split: if_splits prod.splits bool.splits)

end
