(* ===== verification/Requests.thy ===== *)
theory Requests
  imports Start_App_Spec Saml_Report Channel_Coding Tcp_Channel
begin

text \<open>
  Serving a request: \<open>serviceRequest\<close> (\<open>vrtmcore/modtcService.cpp\<close>) and
  \<open>generate_req_id\<close>, \<open>process_request\<close>, \<open>handle_session\<close>, \<open>dom_listener_main\<close> and
  \<open>start_vrtm_interface\<close> (\<open>vrtmcore/vrtminterface.cpp\<close>).
\<close>

section \<open>Parameters and outcomes\<close>

record ('w, 'h) env =
  e_host :: "'w host"
  e_xml :: xml_lib
  e_b64 :: b64_lib
  e_xpath :: xpath_lib
  e_sign :: "'h sign_lib"
  e_globals :: globals

text \<open>\<open>Uncaught\<close> ends the process; \<open>Undefined\<close> is undefined behaviour.\<close>

datatype 'a outcome = Done 'a | Uncaught | Undefined

text \<open>\<open>vrtm_api_code.h\<close>.\<close>

abbreviation VM2RP_STARTAPP :: u32 where "VM2RP_STARTAPP \<equiv> 15"
abbreviation VM2RP_TERMINATEAPP :: u32 where "VM2RP_TERMINATEAPP \<equiv> 17"
abbreviation VM2RP_SETVM_STATUS :: u32 where "VM2RP_SETVM_STATUS \<equiv> 25"
abbreviation VM2RP_GETRPID :: u32 where "VM2RP_GETRPID \<equiv> 36"
abbreviation VM2RP_GETVMMETA :: u32 where "VM2RP_GETVMMETA \<equiv> 38"
abbreviation VM2RP_ISVERIFIED :: u32 where "VM2RP_ISVERIFIED \<equiv> 40"
abbreviation VM2RP_GETVMREPORT :: u32 where "VM2RP_GETVMREPORT \<equiv> 42"

section \<open>\<open>serviceRequest\<close>\<close>

text \<open>
  The result, \<open>*outparamsize\<close> and the text in \<open>outparams\<close> (cleared by the caller).  \<open>av\<close> has 32
  slots; a handler that reads a slot the decoder did not fill is \<open>Undefined\<close>.
\<close>

record reply =
  ret_val :: bool
  outparamsize :: int
  outparams :: cstr

definition refuse :: "cstr \<Rightarrow> reply" where
  "refuse out = \<lparr>ret_val = False, outparamsize = 0, outparams = out\<rparr>"

definition answer :: "int \<times> cstr \<Rightarrow> reply" where
  "answer r = (if fst r < 0 then refuse (snd r)
               else \<lparr>ret_val = True, outparamsize = fst r, outparams = snd r\<rparr>)"

abbreviation AV_SLOTS :: nat where "AV_SLOTS \<equiv> 32"

definition serve_STARTAPP ::
  "('w, 'h) env \<Rightarrow> int \<Rightarrow> cstr \<Rightarrow> 'w core \<Rightarrow> (reply \<times> 'w core) outcome"
where
  "serve_STARTAPP E procid inparams s =
     (case decodeVM2RP_STARTAPP (e_xml E) (e_b64 E) AV_SLOTS inparams of
        None \<Rightarrow> Undefined
      | Some (ok, _, av) \<Rightarrow>
          if \<not> ok then Done (refuse [], s)
          else (case StartApp (e_host E) (e_xpath E) (e_globals E) procid av s of
                  None \<Rightarrow> Undefined
                | Some ((c, out), s') \<Rightarrow>
                    if c \<noteq> 0 then Done (refuse [], s')
                    else (case out of
                            None \<Rightarrow> Undefined
                          | Some v \<Rightarrow>
                              (let (n, text) = encodeRP2VM_STARTAPP (e_xml E) (e_b64 E)
                                     (snprintf 64 (show_int v)) (Some [])
                               in Done (answer (n, the text), s')))))"

definition serve_SETVM_STATUS ::
  "('w, 'h) env \<Rightarrow> cstr \<Rightarrow> 'w core \<Rightarrow> (reply \<times> 'w core) outcome"
where
  "serve_SETVM_STATUS E inparams s =
     (case decodeVM2RP_SETVM_STATUS (e_xml E) (e_b64 E) AV_SLOTS inparams of
        None \<Rightarrow> Undefined
      | Some (ok, _, av) \<Rightarrow>
          if \<not> ok then Done (refuse [], s)
          else if length av < 2 then Undefined
          else let (r, s') = UpdateAppStatus (e_host E) (av ! 0) (atoi (av ! 1)) s;
                   response = snprintf 64 (show_int (if r \<noteq> TCSERVICE_RESULT_SUCCESS then - 1 else 0));
                   (n, text) = encodeRP2VM_SETVM_STATUS (e_xml E) (e_b64 E) response (Some [])
               in Done (answer (n, the text), s'))"

definition serve_GETRPID ::
  "('w, 'h) env \<Rightarrow> cstr \<Rightarrow> 'w core \<Rightarrow> (reply \<times> 'w core) outcome"
where
  "serve_GETRPID E inparams s =
     (case decodeRP2VM_GETRPID (e_xml E) (e_b64 E) AV_SLOTS inparams of
        None \<Rightarrow> Undefined
      | Some (ok, _, av) \<Rightarrow>
          if \<not> ok \<or> length av = 0 then Done (refuse [], s)
          else (case GetRpId (av ! 0) (proc_table s) of
                  Inl _ \<Rightarrow> Done (refuse [], s)
                | Inr (rpid, rpidsize) \<Rightarrow>
                    Done (answer (encodeRP2VM_GETRPID (e_xml E) (e_b64 E) rpid 0 []), s)))"

definition serve_GETVMMETA ::
  "('w, 'h) env \<Rightarrow> cstr \<Rightarrow> 'w core \<Rightarrow> (reply \<times> 'w core) outcome"
where
  "serve_GETVMMETA E inparams s =
     (case decodeRP2VM_GETVMMETA (e_xml E) (e_b64 E) AV_SLOTS inparams of
        None \<Rightarrow> Undefined
      | Some (ok, _, av) \<Rightarrow>
          if \<not> ok \<or> length av = 0 then Done (refuse [], s)
          else (case GetVmMeta (atoi (av ! 0)) (proc_table s) of
                  None \<Rightarrow> Undefined
                | Some (Inl _) \<Rightarrow> Done (refuse [], s)
                | Some (Inr ((img, _), (customer, _), (hash, _), (signature, _))) \<Rightarrow>
                    Done (answer (encodeRP2VM_GETVMMETA (e_xml E) (e_b64 E)
                                    [img, customer, hash, signature] 0 []), s)))"

definition serve_ISVERIFIED ::
  "('w, 'h) env \<Rightarrow> cstr \<Rightarrow> 'w core \<Rightarrow> (reply \<times> 'w core) outcome"
where
  "serve_ISVERIFIED E inparams s =
     (case decodeRP2VM_ISVERIFIED (e_xml E) (e_b64 E) AV_SLOTS inparams of
        None \<Rightarrow> Undefined
      | Some (ok, _, av) \<Rightarrow>
          if \<not> ok \<or> length av = 0 then Done (refuse [], s)
          else (case IsVerified (av ! 0) (proc_table s) of
                  Inl _ \<Rightarrow> Done (refuse [], s)
                | Inr status \<Rightarrow>
                    Done (answer (encodeRP2VM_ISVERIFIED (e_xml E) (e_b64 E)
                                    (snprintf 8 (show_int status)) (int PARAMSIZE) []), s)))"

text \<open>
  The test of the encoder's result compares the pointer \<open>outparamsize\<close>, so a negative size is
  passed on.
\<close>

definition serve_GETVMREPORT ::
  "('w, 'h) env \<Rightarrow> cstr \<Rightarrow> 'w core \<Rightarrow> (reply \<times> 'w core) outcome"
where
  "serve_GETVMREPORT E inparams s =
     (case decodeRP2VM_GETVMREPORT (e_xml E) (e_b64 E) AV_SLOTS inparams of
        None \<Rightarrow> Undefined
      | Some (ok, _, av) \<Rightarrow>
          if \<not> ok then Done (refuse [], s)
          else if length av < 2 then Undefined
          else (case GenerateSAMLAndGetDir (e_host E) (e_sign E) (e_b64 E) (e_globals E) (proc_table s)
                       (av ! 0) (av ! 1) (os s) of
                  (Saml_fail _, w) \<Rightarrow> Done (refuse [], s\<lparr>os := w\<rparr>)
                | (Saml_throw, w) \<Rightarrow> Uncaught
                | (Saml_undef, w) \<Rightarrow> Undefined
                | (Saml_ok dir, w) \<Rightarrow>
                    (let (n, text) = encodeRP2VM_GETVMREPORT (e_xml E) (e_b64 E) dir (int PARAMSIZE) []
                     in Done (\<lparr>ret_val = True, outparamsize = n, outparams = text\<rparr>, s\<lparr>os := w\<rparr>))))"

text \<open>The \<open>switch\<close>: the case for TERMINATEAPP is commented out.\<close>

definition serviceRequest ::
  "('w, 'h) env \<Rightarrow> int \<Rightarrow> u32 \<Rightarrow> cstr \<Rightarrow> 'w core \<Rightarrow> (reply \<times> 'w core) outcome"
where
  "serviceRequest E procid uReq inparams s =
     (if uReq = VM2RP_STARTAPP then serve_STARTAPP E procid inparams s
      else if uReq = VM2RP_SETVM_STATUS then serve_SETVM_STATUS E inparams s
      else if uReq = VM2RP_GETRPID then serve_GETRPID E inparams s
      else if uReq = VM2RP_GETVMMETA then serve_GETVMMETA E inparams s
      else if uReq = VM2RP_ISVERIFIED then serve_ISVERIFIED E inparams s
      else if uReq = VM2RP_GETVMREPORT then serve_GETVMREPORT E inparams s
      else Done (refuse [], s))"

section \<open>\<open>vrtminterface.cpp\<close>\<close>

definition INT32_MAX :: int where "INT32_MAX = 2147483647"

text \<open>The counter and the number handed out.\<close>

definition generate_req_id :: "int \<Rightarrow> int \<times> int" where
  "generate_req_id req_id = (let r = (req_id + 1) mod INT32_MAX in (r, r))"

text \<open>\<open>pad n s\<close>: a cleared buffer of \<open>n\<close> bytes with \<open>s\<close> at its start.\<close>

definition pad :: "nat \<Rightarrow> string \<Rightarrow> string" where
  "pad n s = take n (s @ replicate n nul)"

text \<open>The bytes of the answer, from the buffer of \<open>PADDEDREQ\<close> bytes; \<open>None\<close> reads behind it.\<close>

definition response_bytes :: "u32 \<Rightarrow> reply \<Rightarrow> string option" where
  "response_bytes uReq r =
     (let n = outparamsize r;
          h = \<lparr>m_reqID = uReq, m_reqSize = word_of_int n, m_ustatus = (if n = 0 then - 1 else 0)\<rparr>;
          buf = pad PADDEDREQ (put_header h @ pad (PARAMSIZE - HEADER - 1) (outparams r));
          res_buf_size = int HEADER + n
      in if res_buf_size < 0 \<or> int PADDEDREQ < res_buf_size then None
         else Some (take (nat res_buf_size) buf))"

text \<open>
  \<open>process_request\<close>: the result and what the socket did.  \<open>data\<close> are the bytes that were
  read; a run of \<open>ch_write\<close> that never returns is \<open>Undefined\<close> too.
\<close>

definition process_request ::
  "('w, 'h) env \<Rightarrow> (string \<Rightarrow> 's \<Rightarrow> int \<times> 's) \<Rightarrow> int \<Rightarrow> string \<Rightarrow> 's \<Rightarrow> 'w core
     \<Rightarrow> (int \<times> 's \<times> 'w core) outcome"
where
  "process_request E snd_fn req_id data sock s =
     (if length data < HEADER then Done (- 1, sock, s)
      else let h = get_header data
           in if int PARAMSIZE < sint (m_reqSize h) then Done (- 1, sock, s)
              else case serviceRequest E req_id (m_reqID h) (cstr_of (drop HEADER data)) s of
                     Uncaught \<Rightarrow> Uncaught
                   | Undefined \<Rightarrow> Undefined
                   | Done (r, s') \<Rightarrow>
                       if int PADDEDREQ < outparamsize r then Done (- 1, sock, s')
                       else (case response_bytes (m_reqID h) r of
                               None \<Rightarrow> Undefined
                             | Some bytes \<Rightarrow>
                                 (case ch_write snd_fn bytes (length bytes) sock of
                                    None \<Rightarrow> Undefined
                                  | Some (n, sock') \<Rightarrow>
                                      Done (if n < 0 then - 1 else 0, sock', s'))))"

text \<open>\<open>handle_session\<close>: one request per connection; the last step closes the socket.\<close>

definition handle_session ::
  "('w, 'h) env \<Rightarrow> (nat \<Rightarrow> 's \<Rightarrow> recv_result \<times> 's) \<Rightarrow> (string \<Rightarrow> 's \<Rightarrow> int \<times> 's) \<Rightarrow> ('s \<Rightarrow> 's)
     \<Rightarrow> int \<Rightarrow> 's \<Rightarrow> 'w core \<Rightarrow> (int \<times> 's \<times> 'w core) outcome"
where
  "handle_session E rcv snd_fn close_fn req_id sock s =
     (let (domid, req_id') = generate_req_id req_id
      in case ch_read rcv PADDEDREQ sock of
           (Io_overrun, _) \<Rightarrow> Undefined
         | (Io_error e, sock') \<Rightarrow> Done (req_id', close_fn sock', s)
         | (Io_ok data, sock') \<Rightarrow>
             (case process_request E snd_fn domid data sock' s of
                Uncaught \<Rightarrow> Uncaught
              | Undefined \<Rightarrow> Undefined
              | Done (_, sock'', s') \<Rightarrow> Done (req_id', close_fn sock'', s')))"

text \<open>The state of the interface, and the part of \<open>dom_listener_main\<close> before its loop.\<close>

datatype ifc_status = IFC_UNKNOWN | IFC_ERR | IFC_UP

definition dom_listener_setup ::
  "'n net \<Rightarrow> platform \<Rightarrow> globals \<Rightarrow> 'n \<Rightarrow> (ifc_status \<times> int option) \<times> 'n"
where
  "dom_listener_setup N plat G n =
     (let vrtm_port = snprintf 6 (show_int (g_vrtmcore_port G)); ip = g_vrtmcore_ip G
      in if plat = Windows \<and> \<not> n_startup N n then ((IFC_UNKNOWN, None), n)
         else if \<not> n_getaddrinfo N ip vrtm_port n then ((IFC_UNKNOWN, None), n)
         else let (fd, n) = n_socket N n
              in if fd < 0 then ((IFC_ERR, None), n)
                 else case n_bind N fd ip vrtm_port n of
                        (False, n) \<Rightarrow> ((IFC_ERR, None), n_close N fd n)
                      | (True, n) \<Rightarrow>
                          (case n_listen N fd 100 n of
                             (False, n) \<Rightarrow> ((IFC_ERR, None), n_close N fd n)
                           | (True, n) \<Rightarrow> ((IFC_UP, Some fd), n)))"

text \<open>
  One round of the accept loop: nothing on failure, else a thread for the new socket.  The
  result of \<open>pthread_create\<close> is not looked at.
\<close>

definition accept_round :: "'n net \<Rightarrow> int \<Rightarrow> 'n \<Rightarrow> int option \<times> 'n" where
  "accept_round N fd n =
     (let (newfd, n) = n_accept N fd n in (if newfd < 0 then None else Some newfd, n))"

text \<open>
  The accept loop.  \<open>spawn\<close> starts the thread that runs \<open>handle_session\<close> on the new socket (it
  does nothing when the memory for its argument cannot be had); its result is \<open>None\<close> when the
  process has ended before the loop goes on, by what a session does: the signal \<open>SIGPIPE\<close> of a
  \<open>send\<close> to a client that is gone, a copy that the Windows build refuses, undefined
  behaviour.  \<open>g_quit\<close> is 0 from the start and no code sets it.
\<close>

datatype 'a run_end = Ends 'a | Killed

definition g_quit :: bool where "g_quit = False"

partial_function (option) accept_loop ::
  "'n net \<Rightarrow> (int \<Rightarrow> 'n \<Rightarrow> 'n option) \<Rightarrow> bool \<Rightarrow> int \<Rightarrow> 'n \<Rightarrow> 'n run_end option"
where
  "accept_loop N spawn quit fd n =
     (if quit then Some (Ends n)
      else case accept_round N fd n of
             (None, n') \<Rightarrow> accept_loop N spawn quit fd n'
           | (Some newfd, n') \<Rightarrow>
               (case spawn newfd n' of
                  None \<Rightarrow> Some Killed
                | Some n'' \<Rightarrow> accept_loop N spawn quit fd n''))"

text \<open>The thread's end state of the interface; \<open>None\<close> is a thread that does not end.\<close>

definition dom_listener_main ::
  "'n net \<Rightarrow> (int \<Rightarrow> 'n \<Rightarrow> 'n option) \<Rightarrow> platform \<Rightarrow> globals \<Rightarrow> 'n \<Rightarrow> (ifc_status \<times> 'n) run_end option"
where
  "dom_listener_main N spawn plat G n =
     (case dom_listener_setup N plat G n of
        ((st, None), n') \<Rightarrow> Some (Ends (st, n'))
      | ((st, Some fd), n') \<Rightarrow>
          map_option (map_run_end (\<lambda>n''. (IFC_ERR, n_close N fd n''))) (accept_loop N spawn g_quit fd n'))"

text \<open>
  \<open>start_vrtm_interface\<close> joins the listener thread and then waits until the state of the
  interface is known; nothing changes it any more.
\<close>

partial_function (option) wait_ifc :: "ifc_status \<Rightarrow> ifc_status option" where
  "wait_ifc g_ifc_status =
     (if g_ifc_status = IFC_UNKNOWN then wait_ifc g_ifc_status else Some g_ifc_status)"

definition start_vrtm_interface ::
  "'n net \<Rightarrow> (int \<Rightarrow> 'n \<Rightarrow> 'n option) \<Rightarrow> platform \<Rightarrow> globals \<Rightarrow> 'n \<Rightarrow> (ifc_status \<times> 'n) run_end option"
where
  "start_vrtm_interface N spawn plat G n =
     (case dom_listener_main N spawn plat G n of
        None \<Rightarrow> None
      | Some Killed \<Rightarrow> Some Killed
      | Some (Ends (st, n')) \<Rightarrow> map_option (\<lambda>r. Ends (r, n')) (wait_ifc st))"

end
