(* ===== verification/Request_Props.thy ===== *)
theory Request_Props
  imports Requests Ref_Xml
begin

text \<open>
  What serving a request does to the process table, what the answers are, and the bytes a
  client receives.
\<close>

section \<open>The process table\<close>

lemma table_inv_serve_STARTAPP:
  assumes "serve_STARTAPP E procid inparams s = Done (r, s')" "table_inv (proc_table s)" "procid \<noteq> 0"
  shows "table_inv (proc_table s')"
  using assms
  by (auto simp: serve_STARTAPP_def Let_def intro: table_inv_StartApp
      split: option.splits prod.splits if_splits)

lemma table_inv_serve_SETVM_STATUS:
  assumes "serve_SETVM_STATUS E inparams s = Done (r, s')" "table_inv (proc_table s)"
  shows "table_inv (proc_table s')"
proof -
  have "table_inv (proc_table t)" if "UpdateAppStatus (e_host E) u n s = (c, t)" for u n c t
    using table_inv_UpdateAppStatus [OF assms(2), of "e_host E" u n] that by simp
  with assms show ?thesis
    by (auto simp: serve_SETVM_STATUS_def Let_def split: option.splits prod.splits if_splits)
qed

lemma serve_queries_state:
  "serve_GETRPID E inparams s = Done (r, s') \<Longrightarrow> s' = s"
  "serve_GETVMMETA E inparams s = Done (r, s') \<Longrightarrow> s' = s"
  "serve_ISVERIFIED E inparams s = Done (r, s') \<Longrightarrow> s' = s"
  "serve_GETVMREPORT E inparams s = Done (r, s') \<Longrightarrow> proc_table s' = proc_table s"
  by (auto simp: serve_GETRPID_def serve_GETVMMETA_def serve_ISVERIFIED_def serve_GETVMREPORT_def Let_def
      split: option.splits prod.splits if_splits sum.splits saml.splits)

lemma table_inv_serviceRequest:
  assumes "serviceRequest E procid uReq inparams s = Done (r, s')"
    and "table_inv (proc_table s)" "procid \<noteq> 0"
  shows "table_inv (proc_table s')"
  using assms
  by (auto simp: serviceRequest_def dest: table_inv_serve_STARTAPP table_inv_serve_SETVM_STATUS
      serve_queries_state split: if_splits)

lemma table_inv_process_request:
  assumes "process_request E snd_fn procid data sock s = Done (c, sock', s')"
    and "table_inv (proc_table s)" "procid \<noteq> 0"
  shows "table_inv (proc_table s')"
  using assms
  by (auto simp: process_request_def Let_def intro: table_inv_serviceRequest
      split: if_splits outcome.splits option.splits prod.splits)

lemma table_inv_handle_session:
  assumes "handle_session E rcv snd_fn cl n sock s = Done (n', sock', s')"
    and "table_inv (proc_table s)" "fst (generate_req_id n) \<noteq> 0"
  shows "table_inv (proc_table s')"
  using assms
  by (auto simp: handle_session_def Let_def intro: table_inv_process_request
      split: outcome.splits io.splits prod.splits)

section \<open>Request numbers\<close>

lemma INT32_MAX_pos [simp]: "0 < INT32_MAX"
  by (simp add: INT32_MAX_def)

lemma generate_req_id_range: "0 \<le> fst (generate_req_id n)" "fst (generate_req_id n) < INT32_MAX"
  by (simp_all add: generate_req_id_def Let_def)

lemma generate_req_id_iter:
  "((fst \<circ> generate_req_id) ^^ k) n = (if k = 0 then n else (n + int k) mod INT32_MAX)"
proof (induction k)
  case (Suc k)
  show ?case
  proof (cases k)
    case 0
    then show ?thesis by (simp add: generate_req_id_def Let_def)
  next
    case (Suc j)
    have "((n + int k) mod INT32_MAX + 1) mod INT32_MAX = (n + int (Suc k)) mod INT32_MAX"
      by (simp add: mod_simps add.commute add.left_commute)
    then show ?thesis using Suc.IH Suc by (simp add: generate_req_id_def Let_def)
  qed
qed simp

section \<open>Requests as a client encodes them\<close>

text \<open>The document for a method and its arguments, and the documents that fit a buffer.\<close>

abbreviation doc_text :: "('w, 'h) env \<Rightarrow> cstr \<Rightarrow> cstr list \<Rightarrow> string" where
  "doc_text E \<equiv> rpc_text (e_xml E) (e_b64 E)"

definition env_law :: "('w, 'h) env \<Rightarrow> bool" where
  "env_law E \<longleftrightarrow> xml_law (e_xml E) \<and> b64_law (e_b64 E)"

definition sendable :: "('w, 'h) env \<Rightarrow> cstr \<Rightarrow> cstr list \<Rightarrow> bool" where
  "sendable E m args \<longleftrightarrow> list_all inert_char m \<and> (\<forall>a \<in> set args. wire_arg a) \<and>
     length (doc_text E m args) < MAX_LEN"

lemma sendable_store: "sendable E m args \<Longrightarrow> store_xml (doc_text E m args) = doc_text E m args"
  by (simp add: sendable_def store_xml_def)

lemma decode_request:
  assumes "env_law E" "sendable E m args"
  shows "decode_args (xmlrpc_to_args (e_xml E) (e_b64 E) cap (doc_text E m args)) =
     (if length args \<le> cap then Some (0 < length args, Some m, args) else None)"
  using args_roundtrip [of "e_xml E" "e_b64 E" m args cap "[]"] assms
    args_to_xmlrpc_law [of "e_b64 E" args "e_xml E" m "[]"]
  by (simp add: env_law_def sendable_def store_xml_def)

lemma encode_reply:
  assumes "env_law E" "wire_arg d"
  shows "cbuf_to_xmlrpc (e_xml E) (e_b64 E) m d buf =
    (int (length (doc_text E m [d])), store_xml (doc_text E m [d]))"
  using assms by (simp add: env_law_def cbuf_to_xmlrpc_law)

text \<open>The reply that carries a document.\<close>

definition reply_doc :: "('w, 'h) env \<Rightarrow> cstr \<Rightarrow> cstr list \<Rightarrow> reply" where
  "reply_doc E m args =
     \<lparr>ret_val = True, outparamsize = int (length (doc_text E m args)),
      outparams = store_xml (doc_text E m args)\<rparr>"

lemma answer_reply [simp]: "answer (int (length (doc_text E m args)), store_xml (doc_text E m args)) =
  reply_doc E m args"
  by (simp add: answer_def reply_doc_def)

lemmas request_defs = serviceRequest_def serve_STARTAPP_def serve_SETVM_STATUS_def serve_GETRPID_def
  serve_GETVMMETA_def serve_ISVERIFIED_def serve_GETVMREPORT_def

lemma IsVerified_find:
  "IsVerified u t = (case find (\<lambda>(k, e). m_uuid e = u) t of
      None \<Rightarrow> Inl TCSERVICE_RESULT_FAILED | Some (k, e) \<Rightarrow> Inr (if m_vm_verfication_status e then 1 else 0))"
  by (induction u t rule: IsVerified.induct) auto

lemma getprocId_find:
  "getprocIdfromuuid u t = (case find (\<lambda>(k, e). m_uuid e = u) t of None \<Rightarrow> 0 | Some (k, e) \<Rightarrow> k)"
  by (induction u t rule: getprocIdfromuuid.induct) auto

lemma bits_show: "show_int 1 = ''1''" "show_int 0 = ''0''" "show_int (- 1) = ''-1''"
  by code_simp+

lemma serve_ISVERIFIED_doc:
  assumes "env_law E" "sendable E m [uuid]"
  shows "serviceRequest E procid VM2RP_ISVERIFIED (doc_text E m [uuid]) s =
     Done (case find (\<lambda>(k, e). m_uuid e = uuid) (proc_table s) of
         None \<Rightarrow> refuse []
       | Some (k, e) \<Rightarrow> reply_doc E [] [if m_vm_verfication_status e then ''1'' else ''0''], s)"
  using decode_request [OF assms]
  by (auto simp: request_defs coding_defs IsVerified_find memset0_def encode_reply [OF assms(1)] bits_show
      wire_arg_def nul_free_def split: option.splits)

lemma serve_GETRPID_doc:
  assumes "env_law E" "sendable E m [uuid]" "table_inv (proc_table s)"
    and "\<forall>(k, e) \<in> set (proc_table s). int32 k"
  shows "serviceRequest E procid VM2RP_GETRPID (doc_text E m [uuid]) s =
     Done (case find (\<lambda>(k, e). m_uuid e = uuid) (proc_table s) of
         None \<Rightarrow> refuse []
       | Some (k, e) \<Rightarrow> reply_doc E [] [show_int k], s)"
proof -
  have "k \<noteq> 0 \<and> int32 k" if "find (\<lambda>(k, e). m_uuid e = uuid) (proc_table s) = Some (k, e)" for k e
    using find_Some_in [OF that] assms(4) table_invD(4) [OF assms(3)] by (auto simp: keys_nonzero_def)
  then show ?thesis
    using decode_request [OF assms(1,2)]
    by (auto simp: request_defs coding_defs GetRpId_def getprocId_find memset0_def Let_def
        encode_reply [OF assms(1)] split: option.splits)
qed

lemma serve_GETVMMETA_doc:
  assumes "env_law E" "sendable E m [show_int k]" "int32 k" "table_inv (proc_table s)"
    and "\<forall>(k, e) \<in> set (proc_table s).
      \<forall>a \<in> {m_vm_image_id e, m_vm_customer_id e, m_vm_manifest_hash e, m_vm_manifest_signature e}. nul_free a"
  shows "serviceRequest E procid VM2RP_GETVMMETA (doc_text E m [show_int k]) s =
     Done (case map_of (proc_table s) k of
         None \<Rightarrow> refuse []
       | Some e \<Rightarrow> reply_doc E ''get_vmmeta''
           [m_vm_image_id e, m_vm_customer_id e, m_vm_manifest_hash e, m_vm_manifest_signature e], s)"
proof (cases "map_of (proc_table s) k")
  case None
  then show ?thesis
    using decode_request [OF assms(1,2)] assms(3)
    by (simp add: request_defs coding_defs GetVmMeta_total [OF table_invD(1) [OF assms(4)]] atoi_show_int)
next
  case (Some e)
  let ?l = "[m_vm_image_id e, m_vm_customer_id e, m_vm_manifest_hash e, m_vm_manifest_signature e]"
  have "ent_ok e" using table_allD [OF table_invD(1) [OF assms(4)] Some] .
  then have "\<forall>a \<in> set ?l. wire_arg a"
    using map_of_SomeD [OF Some] assms(5) by (fastforce simp: wire_arg_def ent_ok_def)
  then have "args_to_xmlrpc (e_xml E) (e_b64 E) ''get_vmmeta'' ?l [] =
      (int (length (doc_text E ''get_vmmeta'' ?l)), store_xml (doc_text E ''get_vmmeta'' ?l))"
    using assms(1) by (intro args_to_xmlrpc_law) (simp_all add: env_law_def)
  then show ?thesis
    using decode_request [OF assms(1,2)] assms(3) Some
    by (simp add: request_defs coding_defs GetVmMeta_total [OF table_invD(1) [OF assms(4)]] atoi_show_int
        memset0_def)
qed

lemma serve_SETVM_STATUS_doc:
  assumes "env_law E" "sendable E m [uuid, show_int st]" "int32 st"
  shows "serviceRequest E procid VM2RP_SETVM_STATUS (doc_text E m [uuid, show_int st]) s =
     (case UpdateAppStatus (e_host E) uuid st s of
        (r, s') \<Rightarrow> Done (reply_doc E ''update_vm_status''
            [if r = TCSERVICE_RESULT_SUCCESS then ''0'' else ''-1''], s'))"
  using decode_request [OF assms(1,2)] assms(3)
  by (auto simp: request_defs coding_defs atoi_show_int encode_reply [OF assms(1)] bits_show Let_def
      wire_arg_def nul_free_def split: prod.splits)

lemma overflow_undefined:
  assumes "env_law E" "sendable E m args" "AV_SLOTS < length args"
    and "uReq \<in> {VM2RP_STARTAPP, VM2RP_SETVM_STATUS, VM2RP_GETRPID, VM2RP_GETVMMETA, VM2RP_ISVERIFIED,
      VM2RP_GETVMREPORT}"
  shows "serviceRequest E procid uReq (doc_text E m args) s = Undefined"
  using decode_request [OF assms(1,2), of AV_SLOTS] assms(3,4)
  by (auto simp: request_defs coding_defs)

lemma one_argument_undefined:
  assumes "env_law E" "sendable E m [a]" "uReq \<in> {VM2RP_SETVM_STATUS, VM2RP_GETVMREPORT}"
  shows "serviceRequest E procid uReq (doc_text E m [a]) s = Undefined"
  using decode_request [OF assms(1,2), of AV_SLOTS] assms(3)
  by (auto simp: request_defs coding_defs)

end
