(* ===== verification/Saml_Props.thy ===== *)
theory Saml_Props
  imports Saml_Report
begin

text \<open>
  What a successful report contains.  The laws of files are the hypothesis \<open>file_law\<close> on the
  host: different names are different files (no links in the report directory).  The two
  commands that making a report runs may change every file but the report itself, and the
  first of them not the text that is to be signed.
\<close>

section \<open>Laws of the parameters\<close>

definition file_law :: "'w host \<Rightarrow> bool" where
  "file_law H \<longleftrightarrow>
     (\<forall>f m w b w' g. h_fopen H f m w = (b, w') \<longrightarrow>
        h_content H g w' = (if b \<and> g = f \<and> m = ForWrite then [] else h_content H g w)) \<and>
     (\<forall>f c w g. h_content H g (h_fwrite H f c w) =
        (if g = f then h_content H f w @ c else h_content H g w)) \<and>
     (\<forall>f w g. h_content H g (h_chmod H f w) = h_content H g w)"

definition commands_keep :: "'w host \<Rightarrow> signing_config \<Rightarrow> cstr \<Rightarrow> bool" where
  "commands_keep H sc dir \<longleftrightarrow>
     (\<forall>w. \<forall>f \<in> {dir @ ''signed_report.xml'', dir @ ''us_can.xml''}.
        h_content H f (snd (h_system H (passwd_command dir) w)) = h_content H f w) \<and>
     (\<forall>passwd w. h_content H (dir @ ''signed_report.xml'') (snd (h_system H (signing_command sc dir passwd) w)) =
        h_content H (dir @ ''signed_report.xml'') w)"

definition hash_law :: "'h hash_lib \<Rightarrow> bool" where
  "hash_law L \<longleftrightarrow> (\<forall>st. hl_update L st [] = st) \<and>
     (\<forall>st a b. hl_update L (hl_update L st a) b = hl_update L st (a @ b))"

lemma file_lawD:
  assumes "file_law H"
  shows "h_fopen H f m w = (b, w') \<Longrightarrow>
      h_content H g w' = (if b \<and> g = f \<and> m = ForWrite then [] else h_content H g w)"
    and "h_content H g (h_fwrite H f c w) = (if g = f then h_content H f w @ c else h_content H g w)"
    and "h_content H g (h_chmod H f w) = h_content H g w"
  using assms unfolding file_law_def by blast+

text \<open>Hashing in chunks is hashing the whole text.\<close>

lemma hash_chunks_whole: "hash_law L \<Longrightarrow> hash_chunks L st s = hl_update L st s"
proof (induction L st s rule: hash_chunks.induct)
  case (1 L st s)
  show ?case
  proof (cases "s = []")
    case True
    with 1 show ?thesis by (simp add: hash_chunks.simps [of L st "[]"] hash_law_def)
  next
    case False
    with 1 show ?thesis
      by (simp add: hash_chunks.simps [of L st s]) (simp add: hash_law_def)
  qed
qed

definition hash_text :: "'h sign_lib \<Rightarrow> cstr \<Rightarrow> string \<Rightarrow> int \<times> string" where
  "hash_text C hash_alg t =
     (if hash_alg = ''sha1'' then (20, hl_final (sl_sha1 C) (hl_update (sl_sha1 C) (hl_init (sl_sha1 C)) t))
      else (32, hl_final (sl_sha256 C) (hl_update (sl_sha256 C) (hl_init (sl_sha256 C)) t)))"

section \<open>The steps\<close>

lemma saml_bind_ok:
  "saml_bind m f = (Saml_ok y, w') \<longleftrightarrow> (\<exists>x w. m = (Saml_ok x, w) \<and> f x w = (Saml_ok y, w'))"
  by (auto simp: saml_bind_def split: prod.splits saml.splits)

lemma saml_bindE:
  assumes "saml_bind m f = (Saml_ok y, w')"
  obtains x w where "m = (Saml_ok x, w)" "f x w = (Saml_ok y, w')"
  using assms by (auto simp: saml_bind_ok)

lemma must_open_ok:
  "must_open H f m w = (Saml_ok x, w') \<longleftrightarrow> h_fopen H f m w = (True, w')"
  by (auto simp: must_open_def split: prod.splits bool.splits)

lemma calculateHash_ok:
  assumes "file_law H" "hash_law (sl_sha1 C)" "hash_law (sl_sha256 C)"
    and "calculateHash H C f alg w = ((n, h), w')" "n \<noteq> - 1"
  shows "(n, h) = hash_text C alg (h_content H f w) \<and> (\<forall>g. h_content H g w' = h_content H g w)"
  using assms(4,5) file_lawD(1) [OF assms(1), of f ForRead w]
  by (auto simp: calculateHash_def hash_text_def hash_chunks_whole [OF assms(2)]
      hash_chunks_whole [OF assms(3)] split: prod.splits bool.splits if_splits)

lemma hash_of_file_ok:
  assumes law: "file_law H" "hash_law (sl_sha1 C)" "hash_law (sl_sha256 C)"
    and run: "hash_of_file H C tempfile outfile alg w = (Saml_ok r, w')"
  shows "\<exists>t. sl_c14n C (h_content H tempfile w) = Some t \<and> r = hash_text C alg t \<and>
     (\<forall>g. g \<noteq> outfile \<longrightarrow> h_content H g w' = h_content H g w)"
proof -
  obtain c w1 n h w2 where c: "canonicalizeXml H C tempfile outfile w = (c, w1)" "c = 0"
    "calculateHash H C outfile alg w1 = ((n, h), w2)" "n \<noteq> - 1" "r = (n, h)" "w' = w2"
    using run by (auto simp: hash_of_file_def Let_def split: prod.splits if_splits)
  then obtain t w0 where t: "sl_c14n C (h_content H tempfile w) = Some t"
    "h_fopen H outfile ForWrite w = (True, w0)" "w1 = h_fwrite H outfile t w0"
    by (auto simp: canonicalizeXml_def split: option.splits prod.splits bool.splits)
  have "h_content H outfile w1 = t" "\<And>g. g \<noteq> outfile \<Longrightarrow> h_content H g w1 = h_content H g w"
    using file_lawD(1) [OF law(1) t(2)] file_lawD(2) [OF law(1)] t(3) by simp_all
  with calculateHash_ok [OF law c(3,4)] c(5,6) t(1) show ?thesis by auto
qed

text \<open>Names of files in the report directory.\<close>

lemma dir_file:
  "length dir < 1024 \<Longrightarrow> length nm \<le> 17 \<Longrightarrow> snprintf 1048 (dir @ nm) = dir @ nm"
  by simp

lemma write_report_head_ok:
  assumes law: "file_law H" "hash_law (sl_sha1 C)" "hash_law (sl_sha256 C)" and dir: "length dir < 1024"
    and run: "write_report_head H C B dir nonce e alg w = (Saml_ok digest, w')"
  shows "h_content H (dir @ ''signed_report.xml'') w' =
       xml_decl @ report_head nonce (m_uuid e) alg (m_vm_manifest_hash e) @ digest @ digest_end"
    and "\<exists>t. sl_c14n C (snprintf 8192 (vm_quote nonce (m_uuid e) alg (m_vm_manifest_hash e) @
           ''</VMQuote>'')) = Some t \<and>
         encode_line B (snd (hash_text C alg t)) (nat (fst (hash_text C alg t))) = Saml_ok digest"
proof -
  define rep tmp out where "rep = dir @ ''signed_report.xml''" and "tmp = dir @ ''us_xml.xml''"
    and "out = dir @ ''temp.xml''"
  define q where
    "q = snprintf 8192 (vm_quote nonce (m_uuid e) alg (m_vm_manifest_hash e) @ ''</VMQuote>'')"
  define hd where "hd = report_head nonce (m_uuid e) alg (m_vm_manifest_hash e)"
  have nm: "snprintf 1048 (dir @ ''signed_report.xml'') = rep" "snprintf 1048 (dir @ ''us_xml.xml'') = tmp"
    "snprintf 1048 (dir @ ''temp.xml'') = out"
    unfolding rep_def tmp_def out_def by (rule dir_file [OF dir], simp)+
  have ne: "rep \<noteq> tmp" "rep \<noteq> out" unfolding rep_def tmp_def out_def by simp_all
  note run' = run [unfolded write_report_head_def nm Let_def, folded q_def hd_def]
  obtain w1 w2 n h w3 where
    1: "h_fopen H rep ForWrite w = (True, w1)" and
    2: "h_fopen H tmp ForWrite (h_chmod H rep (h_fwrite H rep hd (h_fwrite H rep xml_decl w1))) = (True, w2)"
    and 3: "hash_of_file H C tmp out alg (h_fwrite H tmp q w2) = (Saml_ok (n, h), w3)"
    and 4: "encode_line B h (nat n) = Saml_ok digest"
    and 5: "w' = h_fwrite H rep digest_end (h_fwrite H rep digest w3)"
    using run' by (elim saml_bindE) (clarsimp simp: must_open_ok split: prod.splits, elim saml_bindE, simp)
  have c2: "h_content H rep w2 = xml_decl @ hd" "h_content H tmp w2 = []"
    using file_lawD(1) [OF law(1) 1, of rep] file_lawD(1) [OF law(1) 2, of rep]
      file_lawD(1) [OF law(1) 2, of tmp] ne
    by (simp_all add: file_lawD(2,3) [OF law(1)])
  obtain t where t: "sl_c14n C (h_content H tmp (h_fwrite H tmp q w2)) = Some t"
    "(n, h) = hash_text C alg t"
    "\<forall>g. g \<noteq> out \<longrightarrow> h_content H g w3 = h_content H g (h_fwrite H tmp q w2)"
    using hash_of_file_ok [OF law 3] by blast
  have "h_content H rep w3 = xml_decl @ hd"
    using t(3) ne c2 by (simp add: file_lawD(2) [OF law(1)])
  then show "h_content H (dir @ ''signed_report.xml'') w' = xml_decl @
      report_head nonce (m_uuid e) alg (m_vm_manifest_hash e) @ digest @ digest_end"
    unfolding rep_def [symmetric] hd_def [symmetric] 5 by (simp add: file_lawD(2) [OF law(1)])
  have "sl_c14n C q = Some t" using t(1) c2(2) by (simp add: file_lawD(2) [OF law(1)])
  with 4 t(2) show "\<exists>t. sl_c14n C (snprintf 8192 (vm_quote nonce (m_uuid e) alg
      (m_vm_manifest_hash e) @ ''</VMQuote>'')) = Some t \<and>
      encode_line B (snd (hash_text C alg t)) (nat (fst (hash_text C alg t))) = Saml_ok digest"
    unfolding q_def [symmetric] by (metis fst_conv snd_conv)
qed

text \<open>
  The text that is signed, and the signature in the report: the encoded first 256 bytes of the
  file that the command leaves.
\<close>

definition signed_text :: "cstr \<Rightarrow> cstr \<Rightarrow> string" where
  "signed_text hash_alg digest =
     signed_info long_elem (attr ''xmlns'' dsig) hash_alg @ digest @ ''</DigestValue></Reference></SignedInfo>''"

definition encodes_signature :: "b64_lib \<Rightarrow> string \<Rightarrow> cstr \<Rightarrow> bool" where
  "encodes_signature B content sig \<longleftrightarrow> encode_line B (take 256 content) (length (take 256 content)) = Saml_ok sig"

text \<open>The later steps keep what is in the report and append to it.\<close>

lemma read_signkey_passwd_frame:
  assumes law: "file_law H" and dir: "length dir < 1024"
    and keeps: "\<And>w. h_content H f (snd (h_system H (passwd_command dir) w)) = h_content H f w"
    and run: "read_signkey_passwd H dir w = (Saml_ok p, w')"
  shows "h_content H f w' = h_content H f w"
proof -
  have nm: "snprintf 1048 (dir @ ''sign_key_passwd'') = dir @ ''sign_key_passwd''"
    by (rule dir_file [OF dir]) simp
  obtain x w1 where
    "must_open H (dir @ ''sign_key_passwd'') ForRead (snd (h_system H (passwd_command dir) w)) = (Saml_ok x, w1)"
    "w' = w1"
    using run [unfolded read_signkey_passwd_def nm]
    by (cases "h_system H (passwd_command dir) w") (auto simp: Let_def elim!: saml_bindE split: if_splits)
  then have "h_fopen H (dir @ ''sign_key_passwd'') ForRead (snd (h_system H (passwd_command dir) w)) = (True, w')"
    by (simp add: must_open_ok)
  from file_lawD(1) [OF law this, of f] keeps [of w] show ?thesis by simp
qed

lemma make_signature_ok:
  assumes law: "file_law H" "hash_law (sl_sha1 C)" "hash_law (sl_sha256 C)" and dir: "length dir < 1024"
    and keeps: "commands_keep H sc dir"
    and run: "make_signature H C B sc dir alg digest w = (Saml_ok sig, w')"
  shows "h_content H (dir @ ''signed_report.xml'') w' = h_content H (dir @ ''signed_report.xml'') w"
    and "\<exists>passwd ws ws'. h_content H (dir @ ''us_can.xml'') ws = signed_text alg digest \<and>
      h_system H (signing_command sc dir passwd) ws = (0, ws') \<and>
      encodes_signature B (h_content H (dir @ ''hash.sig'') ws') sig"
proof -
  define rep tmp out where "rep = dir @ ''signed_report.xml''" and "tmp = dir @ ''us_can.xml''"
    and "out = dir @ ''temp.xml''"
  define inp sgf where "inp = dir @ ''hash.input''" and "sgf = dir @ ''hash.sig''"
  have nm: "snprintf 1048 (dir @ ''us_can.xml'') = tmp" "snprintf 1048 (dir @ ''temp.xml'') = out"
    "snprintf 1048 (dir @ ''hash.input'') = inp" "snprintf 1048 (dir @ ''hash.sig'') = sgf"
    unfolding tmp_def out_def inp_def sgf_def by (rule dir_file [OF dir], simp)+
  have ne: "rep \<noteq> tmp" "rep \<noteq> out" "rep \<noteq> inp" "tmp \<noteq> out" "tmp \<noteq> inp"
    unfolding rep_def tmp_def out_def inp_def by simp_all
  have pw: "h_content H f (snd (h_system H (passwd_command dir) w)) = h_content H f w" if "f \<in> {rep, tmp}" for f w
    using keeps that unfolding commands_keep_def rep_def tmp_def by blast
  have sign: "h_content H rep (snd (h_system H (signing_command sc dir p) w)) = h_content H rep w" for p w
    using keeps unfolding commands_keep_def rep_def by blast
  note run' = run [unfolded make_signature_def nm Let_def]
  obtain w1 p w2 n h w3 w4 w5 where
    1: "h_fopen H tmp ForWrite w = (True, w1)"
    and 2: "read_signkey_passwd H dir (h_fwrite H tmp ''</DigestValue></Reference></SignedInfo>''
       (h_fwrite H tmp digest (h_fwrite H tmp (signed_info long_elem (attr ''xmlns'' dsig) alg) w1))) =
       (Saml_ok p, w2)"
    and 3: "hash_of_file H C tmp out alg w2 = (Saml_ok (n, h), w3)"
    and 4: "h_fopen H inp ForWrite w3 = (True, w4)"
    and 5: "h_system H (signing_command sc dir p) (h_fwrite H inp (take (nat n) h) w4) = (0, w5)"
    and 6: "h_fopen H sgf ForRead w5 = (True, w')"
    and 7: "encode_line B (take 256 (h_content H sgf w')) (length (take 256 (h_content H sgf w'))) = Saml_ok sig"
    using run' by (elim saml_bindE) (clarsimp simp: must_open_ok split: prod.splits if_splits,
      elim saml_bindE, clarsimp simp: must_open_ok split: prod.splits if_splits,
      elim saml_bindE, clarsimp simp: must_open_ok split: prod.splits if_splits)
  have c2: "h_content H f w2 = (if f = tmp then signed_text alg digest else h_content H f w)" if "f \<in> {rep, tmp}" for f
    using read_signkey_passwd_frame [OF law(1) dir pw [OF that] 2] file_lawD(1) [OF law(1) 1, of f] that ne
    by (auto simp: file_lawD(2) [OF law(1)] signed_text_def)
  let ?ws = "h_fwrite H inp (take (nat n) h) w4"
  have cs: "h_content H f ?ws = (if f = tmp then signed_text alg digest else h_content H f w)" if "f \<in> {rep, tmp}" for f
    using c2 [OF that] hash_of_file_ok [OF law 3] file_lawD(1) [OF law(1) 4, of f] that ne
    by (auto simp: file_lawD(2) [OF law(1)])
  have "h_content H rep w' = h_content H rep w"
    using file_lawD(1) [OF law(1) 6, of rep] sign [of p ?ws] 5 cs [of rep] ne by simp
  then show "h_content H (dir @ ''signed_report.xml'') w' = h_content H (dir @ ''signed_report.xml'') w"
    unfolding rep_def .
  have "encodes_signature B (h_content H sgf w5) sig"
    using 7 file_lawD(1) [OF law(1) 6, of sgf] by (simp add: encodes_signature_def)
  moreover have "h_content H tmp ?ws = signed_text alg digest" using cs [of tmp] by simp
  ultimately show "\<exists>passwd ws ws'. h_content H (dir @ ''us_can.xml'') ws = signed_text alg digest \<and>
      h_system H (signing_command sc dir passwd) ws = (0, ws') \<and>
      encodes_signature B (h_content H (dir @ ''hash.sig'') ws') sig"
    using 5 unfolding tmp_def sgf_def by blast
qed

lemma extractCert_frame:
  assumes "file_law H" "extractCert H f c sz w = ((r, cert), w')"
  shows "h_content H g w' = h_content H g w"
  using assms(2) file_lawD(1) [OF assms(1), of f ForRead w]
  by (auto simp: extractCert_def split: prod.splits bool.splits)

text \<open>The certificate is read from the copy of the key file.\<close>

lemma appendCert_ok:
  assumes law: "file_law H" and dir: "length dir < 1024" and key: "key \<noteq> dir @ ''temp.pem''"
    and run: "appendCert H C c dir sz key w = ((0, cert), w')"
  shows "g \<noteq> dir @ ''temp.pem'' \<Longrightarrow> h_content H g w' = h_content H g w"
    and "\<exists>pem. sl_pem C (h_content H key w') = Some pem \<and> cert = cert_lines sz c pem"
proof -
  define out where "out = dir @ ''temp.pem''"
  have nm: "snprintf 1048 (dir @ ''temp.pem'') = out"
    unfolding out_def by (rule dir_file [OF dir]) simp
  obtain w1 w2 pem where
    1: "h_fopen H key ForRead w = (True, w1)" "h_fopen H out ForWrite w1 = (True, w2)"
    and pem: "sl_pem C (h_content H key w2) = Some pem"
    and 2: "extractCert H out c sz (h_fwrite H out pem w2) = ((0, cert), w')"
    using run [unfolded appendCert_def nm Let_def]
    by (auto split: prod.splits if_splits option.splits)
  have frame: "h_content H g w' = h_content H g (h_fwrite H out pem w2)" for g
    using extractCert_frame [OF law 2] .
  show "g \<noteq> dir @ ''temp.pem'' \<Longrightarrow> h_content H g w' = h_content H g w"
    using frame [of g] file_lawD(1) [OF law 1(1), of g] file_lawD(1) [OF law 1(2), of g]
    by (simp add: file_lawD(2) [OF law] out_def)
  have "h_content H key w' = h_content H key w2"
    using frame [of key] key by (simp add: file_lawD(2) [OF law] out_def)
  moreover have "cert = cert_lines sz c pem"
    using 2 file_lawD(1) [OF law 1(2), of out] file_lawD(1) [OF law, of out ForRead _ _ _ out]
    by (auto simp: extractCert_def file_lawD(2) [OF law] split: prod.splits bool.splits)
  ultimately show "\<exists>pem. sl_pem C (h_content H key w') = Some pem \<and> cert = cert_lines sz c pem"
    using pem by simp
qed

text \<open>The text of a report, in both builds.\<close>

definition report_text :: "string \<Rightarrow> cstr \<Rightarrow> cstr \<Rightarrow> cstr \<Rightarrow> string" where
  "report_text head digest sig cert =
     xml_decl @ head @ digest @ digest_end @ sig @ signature_end @ cert @ report_end"

lemma finish_report_ok:
  assumes law: "file_law H" and dir: "length dir < 1024"
    and key: "sc_key_file sc \<notin> {dir @ ''temp.pem'', dir @ ''signed_report.xml''}"
    and run: "finish_report H C sc dir sig w = (Saml_ok x, w')"
  shows "\<exists>pem. sl_pem C (h_content H (sc_key_file sc) w') = Some pem \<and>
     h_content H (dir @ ''signed_report.xml'') w' =
       h_content H (dir @ ''signed_report.xml'') w @ sig @ signature_end @ cert_lines 2048 [] pem @ report_end"
proof -
  define rep where "rep = dir @ ''signed_report.xml''"
  have nm: "snprintf 1048 (dir @ ''signed_report.xml'') = rep"
    unfolding rep_def by (rule dir_file [OF dir]) simp
  have ne: "rep \<noteq> dir @ ''temp.pem''" and k: "sc_key_file sc \<noteq> dir @ ''temp.pem''" "sc_key_file sc \<noteq> rep"
    using key by (simp_all add: rep_def)
  obtain w1 cert w2 where
    1: "h_fopen H rep ForAppend w = (True, w1)" and
    2: "appendCert H C [] dir 2048 (sc_key_file sc) (h_fwrite H rep signature_end (h_fwrite H rep sig w1)) =
         ((0, cert), w2)"
    and 3: "w' = h_fwrite H rep report_end (h_fwrite H rep cert w2)"
    using run [unfolded finish_report_def nm Let_def]
    by (elim saml_bindE) (auto simp: must_open_ok split: prod.splits if_splits)
  have "h_content H rep w1 = h_content H rep w"
    using file_lawD(1) [OF law 1, of rep] by simp
  then have "h_content H rep w2 = h_content H rep w @ sig @ signature_end"
    using appendCert_ok(1) [OF law dir k(1) 2 ne] by (simp add: file_lawD(2) [OF law])
  moreover obtain pem where "sl_pem C (h_content H (sc_key_file sc) w2) = Some pem" "cert = cert_lines 2048 [] pem"
    using appendCert_ok(2) [OF law dir k(1) 2] by blast
  ultimately show ?thesis
    unfolding rep_def [symmetric] 3 using k(2) by (auto simp: file_lawD(2) [OF law])
qed

section \<open>Properties\<close>

lemma find_report_entry_ok:
  assumes "find_report_entry u t = Saml_ok e" "map_ok t"
  shows "(\<exists>k. map_of t k = Some e) \<and> (m_uuid e = u \<or> m_instance_name e = u) \<and>
     m_vm_status e \<noteq> VM_STATUS_STOPPED"
proof -
  let ?k = "if getprocIdfromuuid u t = 0 then find_instance_name u t else getprocIdfromuuid u t"
  have k: "?k \<noteq> 0" "map_of t ?k = Some e" "m_vm_status e \<noteq> VM_STATUS_STOPPED"
    using assms(1) by (auto simp: find_report_entry_def getEntfromprocId_def
        getprocIdfrominstance_name_def Let_def split: if_splits option.splits)
  show ?thesis
  proof (cases "getprocIdfromuuid u t = 0")
    case True
    with k find_instance_name_found [of u t] in_set_map_of [OF assms(2)] show ?thesis by fastforce
  next
    case False
    with k getprocIdfromuuid_lookup [OF assms(2) refl False] show ?thesis by auto
  qed
qed

text \<open>
  C12: a successful report names its subject and is signed.  It is written for a registered
  instance, found by UUID or by container name and not in the state STOPPED; the answer is the
  directory of that instance's UUID; and the file \<open>signed_report.xml\<close> there is, from its first to
  its last character, the declaration, the quote of nonce, UUID and measured hash, the digest,
  the signature and the certificate.  The digest encodes the hash of the canonical quote; the
  signature encodes what the configured command, successful, left in \<open>hash.sig\<close> when
  \<open>us_can.xml\<close> held the \<open>SignedInfo\<close> with that digest; and the certificate is the lines of the
  PEM copy of the configured key file.  The report's own two commands leave the report alone,
  and the key file is none of the files the report writes last.
\<close>

theorem report_content:
  assumes law: "file_law H" "hash_law (sl_sha1 C)" "hash_law (sl_sha256 C)"
    and config: "read_signing_config H w = (Saml_ok sc, w0)"
    and keeps: "commands_keep H sc dir"
    and key: "sc_key_file sc \<notin> {dir @ ''temp.pem'', dir @ ''signed_report.xml''}"
    and run: "GenerateSAMLAndGetDir H C B G t vm_uuid nonce w = (Saml_ok dir, w')" and t: "map_ok t"
  shows "\<exists>e hash_alg digest sig pem q passwd ws ws'.
     (\<exists>k. map_of t k = Some e) \<and> (m_uuid e = vm_uuid \<or> m_instance_name e = vm_uuid) \<and>
     m_vm_status e \<noteq> VM_STATUS_STOPPED \<and> hash_alg \<in> {''sha1'', ''sha256''} \<and>
     dir = snprintf MANIFEST_DIR_SIZE (g_trust_report_dir G @ m_uuid e @ ''/'') \<and>
     sl_c14n C (snprintf 8192 (vm_quote nonce (m_uuid e) hash_alg (m_vm_manifest_hash e) @
       ''</VMQuote>'')) = Some q \<and>
     encode_line B (snd (hash_text C hash_alg q)) (nat (fst (hash_text C hash_alg q))) = Saml_ok digest \<and>
     h_content H (dir @ ''us_can.xml'') ws = signed_text hash_alg digest \<and>
     h_system H (signing_command sc dir passwd) ws = (0, ws') \<and>
     encodes_signature B (h_content H (dir @ ''hash.sig'') ws') sig \<and>
     sl_pem C (h_content H (sc_key_file sc) w') = Some pem \<and>
     h_content H (dir @ ''signed_report.xml'') w' =
       report_text (report_head nonce (m_uuid e) hash_alg (m_vm_manifest_hash e)) digest sig (cert_lines 2048 [] pem)"
proof -
  obtain e hash_alg digest sig w1 w2 w3 w4 where
    1: "find_report_entry vm_uuid t = Saml_ok e"
    and 2: "tpm_hash_alg H (sc_version_file sc) w1 = (Saml_ok hash_alg, w2)"
    and d: "dir = snprintf MANIFEST_DIR_SIZE (g_trust_report_dir G @ m_uuid e @ ''/'')"
    and 3: "write_report_head H C B dir nonce e hash_alg w2 = (Saml_ok digest, w3)"
    and 4: "make_signature H C B sc dir hash_alg digest w3 = (Saml_ok sig, w4)"
    and 5: "finish_report H C sc dir sig w4 = (Saml_ok (), w')"
    using run config unfolding GenerateSAMLAndGetDir_def Let_def by (elim saml_bindE) auto
  have dl: "length dir < 1024" unfolding d by (rule snprintf_length) simp
  have alg: "hash_alg \<in> {''sha1'', ''sha256''}"
    using 2 by (auto simp: tpm_hash_alg_def Let_def split: prod.splits bool.splits if_splits)
  obtain q where q: "sl_c14n C (snprintf 8192 (vm_quote nonce (m_uuid e) hash_alg (m_vm_manifest_hash e) @
       ''</VMQuote>'')) = Some q"
    "encode_line B (snd (hash_text C hash_alg q)) (nat (fst (hash_text C hash_alg q))) = Saml_ok digest"
    using write_report_head_ok(2) [OF law dl 3] by blast
  obtain passwd ws ws' where sig: "h_content H (dir @ ''us_can.xml'') ws = signed_text hash_alg digest"
    "h_system H (signing_command sc dir passwd) ws = (0, ws')"
    "encodes_signature B (h_content H (dir @ ''hash.sig'') ws') sig"
    using make_signature_ok(2) [OF law dl keeps 4] by blast
  obtain pem where pem: "sl_pem C (h_content H (sc_key_file sc) w') = Some pem"
    "h_content H (dir @ ''signed_report.xml'') w' =
       h_content H (dir @ ''signed_report.xml'') w4 @ sig @ signature_end @ cert_lines 2048 [] pem @ report_end"
    using finish_report_ok [OF law(1) dl key 5] by blast
  have c: "h_content H (dir @ ''signed_report.xml'') w4 = xml_decl @
      report_head nonce (m_uuid e) hash_alg (m_vm_manifest_hash e) @ digest @ digest_end"
    using make_signature_ok(1) [OF law dl keeps 4] write_report_head_ok(1) [OF law dl 3] by simp
  have r: "h_content H (dir @ ''signed_report.xml'') w' =
      report_text (report_head nonce (m_uuid e) hash_alg (m_vm_manifest_hash e)) digest sig (cert_lines 2048 [] pem)"
    unfolding pem(2) c report_text_def by (simp only: append_assoc)
  note f = find_report_entry_ok [OF 1 t]
  show ?thesis
    by (rule exI [of _ e], rule exI [of _ hash_alg], rule exI [of _ digest], rule exI [of _ sig],
        rule exI [of _ pem], rule exI [of _ q], rule exI [of _ passwd], rule exI [of _ ws], rule exI [of _ ws'])
      (use f alg d q sig pem(1) r in blast)
qed

text \<open>
  An instance of the parameters: files are a function from names to contents, every command
  succeeds without effect, and the hash of a text is constant.
\<close>

definition demo_sign :: "string sign_lib" where
  "demo_sign =
     \<lparr>sl_sha1 = \<lparr>hl_init = [], hl_update = (@), hl_final = (\<lambda>_. ''sha1'')\<rparr>,
      sl_sha256 = \<lparr>hl_init = [], hl_update = (@), hl_final = (\<lambda>_. ''sha256'')\<rparr>,
      sl_pem = Some, sl_c14n = Some\<rparr>"

lemma demo_sign_law: "hash_law (sl_sha1 demo_sign)" "hash_law (sl_sha256 demo_sign)"
  by (simp_all add: demo_sign_def hash_law_def)

definition fun_host :: "(cstr \<Rightarrow> string) host" where
  "fun_host =
     \<lparr>h_system = (\<lambda>c w. (0, w)), h_mkdir = (\<lambda>d w. (MkdirOk, w)), h_stat = (\<lambda>d w. StatDir),
      h_access = (\<lambda>f w. True), h_chmod = (\<lambda>f w. w),
      h_fopen = (\<lambda>f m w. (True, if m = ForWrite then w(f := []) else w)),
      h_content = (\<lambda>f w. w f), h_fwrite = (\<lambda>f c w. w(f := w f @ c)), h_time = (\<lambda>w. (0, w)),
      h_localtime_ok = (\<lambda>_. True), h_setdetach_ok = (\<lambda>_. True),
      h_pthread_create = (\<lambda>w. (True, w))\<rparr>"

lemma fun_host_simps [simp]:
  "h_system fun_host c w = (0, w)" "h_chmod fun_host f w = w"
  "h_fopen fun_host f m w = (True, if m = ForWrite then w(f := []) else w)"
  "h_content fun_host f w = w f" "h_fwrite fun_host f c w = w(f := w f @ c)"
  by (simp_all add: fun_host_def)

lemma fun_host_file_law: "file_law fun_host"
  by (auto simp: file_law_def fun_host_def)

lemma fun_host_commands_keep: "commands_keep fun_host sc dir"
  by (simp add: commands_keep_def fun_host_def)

definition saml_config :: "(cstr \<times> cstr) list" where
  "saml_config = [(''signingkey_file'', ''/k.pem''), (''signingkey_blob'', ''/k.blob''),
     (''tpm_version_file'', ''/v''), (''tpm_signdata_cmd'', ''/bin/sign'')]"

definition saml_files :: "cstr \<Rightarrow> string" where
  "saml_files f =
     (if f = ''../configuration/vRTM.cfg'' then concat (map print_entry saml_config)
      else if f = ''/v'' then ''2.0'' else if f = ''/r/u1/sign_key_passwd'' then ''pw''
      else if f = ''/r/u1/hash.sig'' then ''sig'' else [])"

definition saml_table :: ptab where
  "saml_table = [(5, (new_serviceprocEnt 0)\<lparr>m_uuid := ''u1'', m_vm_manifest_hash := ''ab12'',
     m_vm_status := VM_STATUS_STARTED\<rparr>)]"

definition saml_globals :: globals where
  "saml_globals = (default_globals Linux)\<lparr>g_trust_report_dir := ''/r/''\<rparr>"

lemma demo_load:
  "read_signing_config fun_host saml_files = (Saml_ok \<lparr>sc_key_file = ''/k.pem'',
     sc_key_blob = ''/k.blob'', sc_version_file = ''/v'', sc_sign_cmd = ''/bin/sign''\<rparr>, saml_files)"
proof -
  have e: "\<forall>p \<in> set saml_config. config_entry p"
    by (simp add: saml_config_def config_entry_def config_text_def blank_def)
  have "load_lines (saml_files ''../configuration/vRTM.cfg'') [] = Some (insert_all saml_config [])"
    using load_lines_print [OF e, of "[]" "[]"] by (simp add: saml_files_def)
  moreover have "map_of (insert_all saml_config []) k = map_of saml_config k" for k
    using insert_all_lookup [OF map_ok_Nil, of saml_config k] by simp
  ultimately show ?thesis
    by (simp add: read_signing_config_def load_config_def fun_host_def map_get_def)
      (simp add: saml_config_def)
qed

lemma demo_encode:
  "encode_line rfc4648 ''sha256'' 32 = Saml_ok ''c2hhMjU2''"
  "encode_line rfc4648 ''sig'' 3 = Saml_ok ''c2ln''"
  by (simp_all add: encode_line_def Base64EncodeWithLength_def rfc4648_def b64_digit_def Let_def
      strnlen_s_def char_of_def bit_0)

lemmas demo_encode_Suc = demo_encode(2) [unfolded numeral_3_eq_3]

lemma demo_open: "must_open fun_host f m w = (Saml_ok (), if m = ForWrite then w(f := []) else w)"
  by (simp add: must_open_def fun_host_def)

lemma demo_hash:
  "\<exists>t. hash_of_file fun_host demo_sign f out ''sha256'' w = (Saml_ok (32, ''sha256''), w(out := t))"
  by (auto simp: hash_of_file_def canonicalizeXml_def calculateHash_def fun_host_def demo_sign_def)

lemma demo_head:
  "\<exists>w'. write_report_head fun_host demo_sign rfc4648 ''/r/u1/'' nonce e ''sha256'' w =
      (Saml_ok ''c2hhMjU2'', w') \<and>
      (\<forall>f. f \<notin> {''/r/u1/signed_report.xml'', ''/r/u1/us_xml.xml'', ''/r/u1/temp.xml''} \<longrightarrow> w' f = w f)"
proof -
  let ?w = "h_fwrite fun_host ''/r/u1/us_xml.xml'' (snprintf 8192 (vm_quote nonce (m_uuid e) ''sha256''
      (m_vm_manifest_hash e) @ ''</VMQuote>''))
    ((h_chmod fun_host ''/r/u1/signed_report.xml'' (h_fwrite fun_host ''/r/u1/signed_report.xml''
      (report_head nonce (m_uuid e) ''sha256'' (m_vm_manifest_hash e))
      (h_fwrite fun_host ''/r/u1/signed_report.xml'' xml_decl (w(''/r/u1/signed_report.xml'' := [])))))
     (''/r/u1/us_xml.xml'' := []))"
  obtain t where t: "hash_of_file fun_host demo_sign ''/r/u1/us_xml.xml'' ''/r/u1/temp.xml'' ''sha256'' ?w =
      (Saml_ok (32, ''sha256''), ?w(''/r/u1/temp.xml'' := t))"
    using demo_hash by blast
  show ?thesis
    using t by (simp add: write_report_head_def saml_bind_def demo_open demo_encode Let_def)
qed

lemma demo_run:
  "fst (GenerateSAMLAndGetDir fun_host demo_sign rfc4648 saml_globals saml_table ''u1'' ''n0'' saml_files)
     = Saml_ok ''/r/u1/''"
proof -
  let ?e = "snd (hd saml_table)"
  have find: "find_report_entry ''u1'' saml_table = Saml_ok ?e"
    by (simp add: find_report_entry_def saml_table_def getEntfromprocId_def)
  have alg: "tpm_hash_alg fun_host ''/v'' saml_files = (Saml_ok ''sha256'', saml_files)"
    by (simp add: tpm_hash_alg_def fun_host_def saml_files_def fgets_code Let_def)
  have dir: "snprintf MANIFEST_DIR_SIZE (g_trust_report_dir saml_globals @ m_uuid ?e @ ''/'') = ''/r/u1/''"
    by (simp add: saml_globals_def saml_table_def)
  obtain w1 where w1: "write_report_head fun_host demo_sign rfc4648 ''/r/u1/'' ''n0'' ?e ''sha256'' saml_files =
      (Saml_ok ''c2hhMjU2'', w1)" "w1 ''/r/u1/sign_key_passwd'' = ''pw''" "w1 ''/r/u1/hash.sig'' = ''sig''"
    using demo_head [of "''n0''" ?e saml_files] by (force simp: saml_files_def)
  have pw: "read_signkey_passwd fun_host ''/r/u1/'' w = (Saml_ok ''pw'', w)"
    if "w ''/r/u1/sign_key_passwd'' = ''pw''" for w
    using that by (simp add: read_signkey_passwd_def saml_bind_def demo_open fgets_code Let_def)
  obtain w2 where w2: "make_signature fun_host demo_sign rfc4648 \<lparr>sc_key_file = ''/k.pem'',
      sc_key_blob = ''/k.blob'', sc_version_file = ''/v'', sc_sign_cmd = ''/bin/sign''\<rparr> ''/r/u1/'' ''sha256''
      ''c2hhMjU2'' w1 = (Saml_ok ''c2ln'', w2)"
  proof -
    let ?w = "h_fwrite fun_host ''/r/u1/us_can.xml'' ''</DigestValue></Reference></SignedInfo>''
      (h_fwrite fun_host ''/r/u1/us_can.xml'' ''c2hhMjU2'' (h_fwrite fun_host ''/r/u1/us_can.xml''
        (signed_info long_elem (attr ''xmlns'' dsig) ''sha256'') (w1(''/r/u1/us_can.xml'' := []))))"
    obtain t where t: "hash_of_file fun_host demo_sign ''/r/u1/us_can.xml'' ''/r/u1/temp.xml'' ''sha256'' ?w =
        (Saml_ok (32, ''sha256''), ?w(''/r/u1/temp.xml'' := t))"
      using demo_hash by blast
    have "?w ''/r/u1/sign_key_passwd'' = ''pw''" "?w ''/r/u1/hash.sig'' = ''sig''"
      using w1(2,3) by simp_all
    then show thesis
      using t that pw [of ?w]
      by (simp add: make_signature_def saml_bind_def demo_open demo_encode_Suc Let_def)
  qed
  have "\<exists>w3. finish_report fun_host demo_sign \<lparr>sc_key_file = ''/k.pem'',
      sc_key_blob = ''/k.blob'', sc_version_file = ''/v'', sc_sign_cmd = ''/bin/sign''\<rparr> ''/r/u1/''
      ''c2ln'' w2 = (Saml_ok (), w3)"
    by (simp add: finish_report_def saml_bind_def demo_open appendCert_def extractCert_def demo_sign_def Let_def)
  then show ?thesis
    by (auto simp: GenerateSAMLAndGetDir_def saml_bind_def find demo_load alg dir w1 w2 Let_def)
qed

theorem report_content_witness:
  "\<exists>hash_alg digest sig pem w'.
     GenerateSAMLAndGetDir fun_host demo_sign rfc4648 saml_globals saml_table ''u1'' ''n0'' saml_files =
       (Saml_ok ''/r/u1/'', w') \<and>
     h_content fun_host (''/r/u1/'' @ ''signed_report.xml'') w' =
       report_text (report_head ''n0'' ''u1'' hash_alg ''ab12'') digest sig (cert_lines 2048 [] pem)"
proof -
  obtain w' where run: "GenerateSAMLAndGetDir fun_host demo_sign rfc4648 saml_globals saml_table ''u1''
      ''n0'' saml_files = (Saml_ok ''/r/u1/'', w')"
    using demo_run by (metis prod.collapse)
  have ok: "map_ok saml_table" by (simp add: saml_table_def map_ok_def)
  have e: "m_uuid e = ''u1'' \<and> m_vm_manifest_hash e = ''ab12''" if "map_of saml_table k = Some e" for k e
    using that by (auto simp: saml_table_def split: if_splits)
  from report_content [OF fun_host_file_law demo_sign_law demo_load fun_host_commands_keep _ run ok]
  obtain e hash_alg digest sig pem k where "map_of saml_table k = Some e"
    "h_content fun_host (''/r/u1/'' @ ''signed_report.xml'') w' =
       report_text (report_head ''n0'' (m_uuid e) hash_alg (m_vm_manifest_hash e)) digest sig (cert_lines 2048 [] pem)"
    by auto
  with e run show ?thesis by metis
qed

text \<open>
  No report is made for an instance that is unknown or in the state STOPPED: the result
  is FAILED and nothing is written or run.
\<close>

lemma report_refused:
  assumes "map_ok t"
    and "\<And>k e. map_of t k = Some e \<Longrightarrow> m_uuid e = u \<or> m_instance_name e = u \<Longrightarrow>
      k \<noteq> 0 \<and> m_vm_status e = VM_STATUS_STOPPED"
  shows "GenerateSAMLAndGetDir H C B G t u nonce w = (Saml_fail TCSERVICE_RESULT_FAILED, w)"
proof -
  have "find_report_entry u t = Saml_fail TCSERVICE_RESULT_FAILED"
  proof (cases "getprocIdfromuuid u t = 0")
    case True
    show ?thesis
    proof (cases "find_instance_name u t = 0")
      case False
      then obtain e where "(find_instance_name u t, e) \<in> set t" "m_instance_name e = u"
        using find_instance_name_found [OF refl] by blast
      with True False assms show ?thesis
        by (simp add: find_report_entry_def getprocIdfrominstance_name_def getEntfromprocId_def
            Let_def in_set_map_of)
    qed (simp add: find_report_entry_def getprocIdfrominstance_name_def True)
  next
    case False
    then show ?thesis
      using getprocIdfromuuid_lookup [OF assms(1) refl False] assms(2)
      by (auto simp: find_report_entry_def getEntfromprocId_def Let_def)
  qed
  then show ?thesis by (simp add: GenerateSAMLAndGetDir_def saml_bind_def)
qed

lemma report_refused_example:
  "GenerateSAMLAndGetDir fun_host demo_sign rfc4648 saml_globals saml_table ''u9'' ''n0'' saml_files =
     (Saml_fail TCSERVICE_RESULT_FAILED, saml_files)"
  by (rule report_refused)
    (auto simp: saml_table_def map_ok_def new_serviceprocEnt_def split: if_splits)

text \<open>
  Hashing a file in pieces of 65000 bytes gives the hash of its whole content.
\<close>

lemma calculateHash_whole:
  assumes "file_law H" "hash_law (sl_sha1 C)" "hash_law (sl_sha256 C)"
    and "calculateHash H C f hash_alg w = ((n, h), w')" "n \<noteq> - 1"
  shows "(n, h) = hash_text C hash_alg (h_content H f w)"
  using calculateHash_ok [OF assms] by blast

text \<open>Reading a certificate file line by line.\<close>

definition marked :: "string \<Rightarrow> bool" where
  "marked l \<longleftrightarrow> contains ''BEGIN'' (l @ [newline]) \<or> contains ''END'' (l @ [newline])"

lemma cert_lines_line:
  assumes "newline \<notin> set l" "length l < 4095" "nul \<notin> set l"
  shows "cert_lines sz c (l @ newline # rest) =
     (if marked l then cert_lines sz c rest else cert_lines sz (strcat_s sz c (l @ [newline])) rest)"
proof -
  have "cstr_of (l @ [newline]) = l @ [newline]"
    using assms(3) by (intro cstr_of_nul_free) (auto simp: nul_free_def)
  then show ?thesis
    using fgets_line [OF assms(1,2), of rest]
    by (simp add: cert_lines.simps [of sz c "l @ newline # rest"] marked_def)
qed

lemma cert_lines_Nil: "cert_lines sz c [] = c"
  using fgets_last [of "[]" 4095] by (simp add: cert_lines.simps [of sz c "[]"])

text \<open>
  The certificate in the report is the concatenation, in order, of the lines of the PEM
  file that contain neither BEGIN nor END, as long as they fit the buffer; so a line of the
  Base64 body in which these letters happen to occur is lost.
\<close>

lemma cert_lines_unmarked:
  assumes "\<forall>l \<in> set ls. newline \<notin> set l \<and> nul \<notin> set l \<and> length l < 4095"
    and "length c + length (concat (map (\<lambda>l. l @ [newline]) ls)) < sz"
  shows "cert_lines sz c (concat (map (\<lambda>l. l @ [newline]) ls)) =
     c @ concat (map (\<lambda>l. l @ [newline]) (filter (\<lambda>l. \<not> marked l) ls))"
  using assms
proof (induction ls arbitrary: c)
  case (Cons l ls)
  then show ?case
    by (auto simp: cert_lines_line strcat_s_fits)
qed (simp add: cert_lines_Nil)

lemma cert_lines_unmarked_example:
  "cert_lines 2048 [] (concat (map (\<lambda>l. l @ [newline])
     [''--BEGIN--'', ''AAAAENDA'', ''BBBB'', ''--END--''])) = ''BBBB'' @ [newline]"
  by (subst cert_lines_unmarked) (simp_all add: marked_def)

end
