(* ===== verification/Session.thy ===== *)
theory Session
  imports Request_Props Saml_Props
begin

text \<open>
  One connection from end to end: the bytes that arrive in pieces, the request they hold, and
  the bytes that are sent back, on a reference socket with an inbox of pieces and an outbox.
  The properties of requests are stated here.
\<close>

section \<open>A reference socket\<close>

record sock =
  inbox :: "string list"
  room :: "nat list"
  outbox :: string

definition sock_recv :: "nat \<Rightarrow> sock \<Rightarrow> recv_result \<times> sock" where
  "sock_recv n s = (case chunk_recv n (inbox s) of (r, i) \<Rightarrow> (r, s\<lparr>inbox := i\<rparr>))"

definition sock_send :: "string \<Rightarrow> sock \<Rightarrow> int \<times> sock" where
  "sock_send d s = (case chunk_send d (room s, outbox s) of (r, c, out) \<Rightarrow> (r, s\<lparr>room := c, outbox := out\<rparr>))"

definition pending_in :: "sock \<Rightarrow> string" where
  "pending_in s = concat (inbox s)"

lemma sock_recv_stream:
  "\<exists>d s'. sock_recv n s = (Received d, s') \<and> pending_in s = d @ pending_in s' \<and>
     length d \<le> n \<and> (d = [] \<longrightarrow> n = 0 \<or> pending_in s = [])"
  using chunk_recv_stream [of n "inbox s"] by (auto simp: sock_recv_def pending_in_def)

lemma sock_send_progress:
  "\<exists>k s'. sock_send d s = (int k, s') \<and> k \<le> length d \<and> (d \<noteq> [] \<longrightarrow> 0 < k) \<and>
     outbox s' = outbox s @ take k d"
  using chunk_send_progress [of d "(room s, outbox s)"] by (auto simp: sock_send_def)

lemma sock_directions:
  "outbox (snd (sock_recv n s)) = outbox s"
  "pending_in (snd (sock_send d s)) = pending_in s"
  by (simp_all add: sock_recv_def sock_send_def pending_in_def split: prod.splits)

interpretation wire: closing_end sock_recv pending_in sock_send outbox "\<lambda>s. s"
  by unfold_locales (rule sock_recv_stream sock_send_progress sock_directions refl)+

section \<open>The bytes of an answer\<close>

definition answer_header :: "u32 \<Rightarrow> reply \<Rightarrow> tcBuffer" where
  "answer_header uReq r =
     \<lparr>m_reqID = uReq, m_reqSize = word_of_int (outparamsize r),
      m_ustatus = (if outparamsize r = 0 then - 1 else 0)\<rparr>"

lemma length_pad [simp]: "length (pad n s) = n"
  by (simp add: pad_def)

lemma pad_zero [simp]: "pad 0 s = []"
  by (simp add: pad_def)

lemma pad_pad: "n \<le> m \<Longrightarrow> take n (pad m s) = pad n s"
  by (simp add: pad_def take_append)

lemma response_bytes_header:
  assumes "0 \<le> outparamsize r" "outparamsize r \<le> int (PARAMSIZE - HEADER - 1)"
  shows "response_bytes uReq r =
    Some (put_header (answer_header uReq r) @ pad (nat (outparamsize r)) (outparams r))"
proof -
  define n where "n = nat (outparamsize r)"
  have n: "outparamsize r = int n" "n \<le> PARAMSIZE - HEADER - 1"
    using assms by (simp_all add: n_def)
  define h where "h = answer_header uReq r"
  have "take (HEADER + n) (pad PADDEDREQ (put_header h @ pad (PARAMSIZE - HEADER - 1) (outparams r))) =
      take (HEADER + n) (put_header h @ pad (PARAMSIZE - HEADER - 1) (outparams r))"
    unfolding pad_def [of PADDEDREQ] using n(2) by (simp add: take_append)
  also have "\<dots> = put_header h @ pad n (outparams r)"
    using n(2) pad_pad [of n "PARAMSIZE - HEADER - 1" "outparams r"] by simp
  finally have "take (HEADER + n) (pad PADDEDREQ (put_header h @ pad (PARAMSIZE - HEADER - 1) (outparams r))) =
      put_header h @ pad n (outparams r)" .
  moreover have "nat (int HEADER + int n) = HEADER + n" by simp
  moreover have "\<not> (int HEADER + int n < 0 \<or> int PADDEDREQ < int HEADER + int n)"
    using n(2) by simp
  ultimately show ?thesis
    unfolding response_bytes_def Let_def n(1) nat_int h_def answer_header_def by simp
qed

section \<open>A session\<close>

lemma sint_size: "n \<le> PARAMSIZE \<Longrightarrow> sint (word_of_nat n :: u32) = int n"
  using int_word_sint [of "int n", where ?'a = 32] by simp

text \<open>A session over any such connection.\<close>

context full_duplex
begin

lemma process_request_bytes:
  assumes h: "get_header data = h" "HEADER \<le> length data" "sint (m_reqSize h) \<le> int PARAMSIZE"
    and serve: "serviceRequest E procid (m_reqID h) (cstr_of (drop HEADER data)) s = Done (r, s')"
    and n: "0 \<le> outparamsize r" "outparamsize r \<le> int (PARAMSIZE - HEADER - 1)"
  shows "\<exists>sock'. process_request E snd_fn procid data sock s = Done (0, sock', s') \<and>
    sent sock' = sent sock @ put_header (answer_header (m_reqID h) r) @
      pad (nat (outparamsize r)) (outparams r)"
proof -
  let ?b = "put_header (answer_header (m_reqID h) r) @ pad (nat (outparamsize r)) (outparams r)"
  obtain sock' where w: "ch_write snd_fn ?b (length ?b) sock = Some (int (length ?b), sock')"
    "sent sock' = sent sock @ ?b"
    using ch_write_all [of "length ?b" ?b sock] by auto
  have "\<not> int PADDEDREQ < outparamsize r" using n by simp
  then have "process_request E snd_fn procid data sock s =
      Done (if int (length ?b) < 0 then - 1 else 0, sock', s')"
    using h serve w(1) unfolding process_request_def
    by (simp only: response_bytes_header [OF n] Let_def outcome.case option.case prod.case if_False
        not_less [symmetric] not_not)
  with w(2) show ?thesis by simp
qed

lemma handle_session_bytes:
  assumes pend: "pending sock = put_header h @ payload"
    and size: "m_reqSize h = word_of_nat (length payload)" "length payload \<le> PARAMSIZE"
    and serve: "serviceRequest E (fst (generate_req_id n)) (m_reqID h) (cstr_of payload) s = Done (r, s')"
    and bounds: "0 \<le> outparamsize r" "outparamsize r \<le> int (PARAMSIZE - HEADER - 1)"
  shows "\<exists>sock'. handle_session E rcv snd_fn cl n sock s =
      Done (snd (generate_req_id n), cl sock', s') \<and>
    sent sock' = sent sock @ put_header (answer_header (m_reqID h) r) @
      pad (nat (outparamsize r)) (outparams r)"
proof -
  obtain k n' where g: "generate_req_id n = (k, n')" by force
  obtain s1 where s1: "ch_read rcv PADDEDREQ sock = (Io_ok (put_header h @ payload), s1)"
    "sent s1 = sent sock"
  proof -
    obtain s1 where r: "ch_read rcv PADDEDREQ sock = (Io_ok (put_header h @ payload), s1)"
      using ch_read_message [OF pend size] by blast
    have "sent (snd (ch_read rcv PADDEDREQ sock)) = sent sock"
      by (rule ch_read_sent)
    with r that show thesis by simp
  qed
  have "get_header (put_header h @ payload) = h" by (rule get_put_header)
  moreover have "sint (m_reqSize h) \<le> int PARAMSIZE"
    using sint_size [OF size(2)] size by simp
  ultimately obtain sock' where
    "process_request E snd_fn k (put_header h @ payload) s1 s = Done (0, sock', s')"
    "sent sock' = sent s1 @ put_header (answer_header (m_reqID h) r) @
      pad (nat (outparamsize r)) (outparams r)"
    using process_request_bytes [of "put_header h @ payload" h E k s r s' s1] serve bounds g by auto
  with s1 g show ?thesis
    by (auto simp: handle_session_def)
qed

end

section \<open>Serving requests: properties\<close>

definition demo_env :: "(ref_world, string) env" where
  "demo_env = \<lparr>e_host = ref_host, e_xml = ref_xml, e_b64 = rfc4648, e_xpath = ref_xpath,
     e_sign = demo_sign, e_globals = demo_globals\<rparr>"

definition demo_state :: "ptab \<Rightarrow> ref_world core" where
  "demo_state t = \<lparr>proc_table = t, cleanup_status = 0, cleaners = 0, os = ref_world0\<rparr>"

lemma demo_env_law [simp]: "env_law demo_env"
  by (simp add: env_law_def demo_env_def ref_xml_law rfc4648_law)

lemma demo_env_fields [simp]:
  "e_host demo_env = ref_host" "e_xml demo_env = ref_xml" "e_b64 demo_env = rfc4648"
  by (simp_all add: demo_env_def)

lemma demo_state_fields [simp]: "proc_table (demo_state t) = t" "os (demo_state t) = ref_world0"
  by (simp_all add: demo_state_def)

lemma demo_lengths:
  "length (rpc_text ref_xml rfc4648 ''foo'' [''u1'']) < 300"
  "length (rpc_text ref_xml rfc4648 ''foo'' [''5'']) < 300"
  "length (rpc_text ref_xml rfc4648 ''foo'' [''u1'', ''1'']) < 300"
  by code_simp+

lemma demo_overlong: "length (rpc_text ref_xml rfc4648 ''foo'' (replicate 33 [])) < 2200"
  by code_simp

lemma demo_sendable [simp]:
  "sendable demo_env ''foo'' [''u1'']" "sendable demo_env ''foo'' [''5'']"
  "sendable demo_env ''foo'' [''u1'', ''1'']"
  using demo_lengths method_names(4) by (simp_all add: sendable_def wire_arg_def nul_free_def)

text \<open>
  C19: the queries by UUID.  ISVERIFIED is answered with the stored verification status of the first
  entry with the UUID, as "1" or "0", and GETRPID with the key of that entry in decimal; without
  such an entry both are refused.  The state stays.
\<close>

theorem uuid_queries_answer:
  assumes "env_law E" "sendable E m [uuid]" "table_inv (proc_table s)"
    and "\<forall>(k, e) \<in> set (proc_table s). int32 k"
  shows "serviceRequest E procid VM2RP_ISVERIFIED (doc_text E m [uuid]) s =
     Done (case find (\<lambda>(k, e). m_uuid e = uuid) (proc_table s) of
         None \<Rightarrow> refuse []
       | Some (k, e) \<Rightarrow> reply_doc E [] [if m_vm_verfication_status e then ''1'' else ''0''], s) \<and>
    serviceRequest E procid VM2RP_GETRPID (doc_text E m [uuid]) s =
     Done (case find (\<lambda>(k, e). m_uuid e = uuid) (proc_table s) of
         None \<Rightarrow> refuse []
       | Some (k, e) \<Rightarrow> reply_doc E [] [show_int k], s)"
  by (intro conjI serve_ISVERIFIED_doc serve_GETRPID_doc assms)

theorem uuid_queries_answer_witness:
  "serviceRequest demo_env 6 VM2RP_ISVERIFIED (doc_text demo_env ''foo'' [''u1'']) (demo_state cancelled_table) =
     Done (reply_doc demo_env [] [''0''], demo_state cancelled_table) \<and>
   serviceRequest demo_env 6 VM2RP_GETRPID (doc_text demo_env ''foo'' [''u1'']) (demo_state cancelled_table) =
     Done (reply_doc demo_env [] [show_int 5], demo_state cancelled_table)"
  using uuid_queries_answer [of demo_env "''foo''" "''u1''" "demo_state cancelled_table" 6]
    cancelled_table_inv
  by (simp add: cancelled_table_def demo_entry_def int32_def)

text \<open>
  C20: the answer to GETVMMETA with a key is the image id, the customer id, the manifest hash and
  the signature that the entry stores, each as its own parameter, in this order; without an
  entry under the key the request is refused.  The state stays, and no copy misses the
  terminating NUL.
\<close>

theorem GETVMMETA_answer:
  assumes "env_law E" "sendable E m [show_int k]" "int32 k" "table_inv (proc_table s)"
    and "\<forall>(k, e) \<in> set (proc_table s).
      \<forall>a \<in> {m_vm_image_id e, m_vm_customer_id e, m_vm_manifest_hash e, m_vm_manifest_signature e}. nul_free a"
  shows "serviceRequest E procid VM2RP_GETVMMETA (doc_text E m [show_int k]) s =
     Done (case map_of (proc_table s) k of
         None \<Rightarrow> refuse []
       | Some e \<Rightarrow> reply_doc E ''get_vmmeta''
           [m_vm_image_id e, m_vm_customer_id e, m_vm_manifest_hash e, m_vm_manifest_signature e], s)"
  using assms by (rule serve_GETVMMETA_doc)

theorem GETVMMETA_answer_witness:
  "serviceRequest demo_env 6 VM2RP_GETVMMETA (doc_text demo_env ''foo'' [show_int 5]) (demo_state cancelled_table) =
     Done (reply_doc demo_env ''get_vmmeta'' [''i1'', ''c1'', ''ab13'', []], demo_state cancelled_table)"
proof -
  have five: "show_int 5 = ''5''" by code_simp
  from GETVMMETA_answer [of demo_env "''foo''" 5 "demo_state cancelled_table" 6] show ?thesis
    using cancelled_table_inv
    by (simp add: five cancelled_table_def demo_entry_def int32_def nul_free_def)
qed

text \<open>
  C21: SETVM_STATUS performs exactly the status update of its two arguments, and answers "0" when
  the update returned SUCCESS and "-1" otherwise.
\<close>

theorem SETVM_STATUS_answer:
  assumes "env_law E" "sendable E m [uuid, show_int st]" "int32 st"
  shows "serviceRequest E procid VM2RP_SETVM_STATUS (doc_text E m [uuid, show_int st]) s =
     (case UpdateAppStatus (e_host E) uuid st s of
        (r, s') \<Rightarrow> Done (reply_doc E ''update_vm_status''
            [if r = TCSERVICE_RESULT_SUCCESS then ''0'' else ''-1''], s'))"
  using assms by (rule serve_SETVM_STATUS_doc)

theorem SETVM_STATUS_answer_witness:
  "serviceRequest demo_env 6 VM2RP_SETVM_STATUS (doc_text demo_env ''foo'' [''u1'', show_int 1])
      (demo_state cancelled_table) =
     Done (reply_doc demo_env ''update_vm_status'' [''0''], demo_state cancelled_table)"
proof -
  have "UpdateAppStatus ref_host ''u1'' 1 (demo_state cancelled_table) =
      (TCSERVICE_RESULT_SUCCESS, demo_state cancelled_table)"
    by (rule UpdateAppStatus_cancelled [where k = 5 and e = "demo_entry ''Enforce'' ''ab13'' False VM_STATUS_CANCELLED"])
      (simp_all add: cancelled_table_def demo_entry_def)
  with SETVM_STATUS_answer [of demo_env "''foo''" "''u1''" 1 6 "demo_state cancelled_table"] show ?thesis
    by (simp add: bits_show int32_def)
qed

text \<open>
  C29: requests the handlers do not guard against.  More than 32 arguments are written behind the
  array \<open>av[32]\<close>, in every request that is decoded; and SETVM_STATUS and GETVMREPORT with a
  single argument read a slot that was never filled.
\<close>

theorem malformed_requests_undefined:
  assumes "env_law E" "sendable E m args"
    and "AV_SLOTS < length args \<and> uReq \<in> {VM2RP_STARTAPP, VM2RP_SETVM_STATUS, VM2RP_GETRPID,
        VM2RP_GETVMMETA, VM2RP_ISVERIFIED, VM2RP_GETVMREPORT} \<or>
      length args = 1 \<and> uReq \<in> {VM2RP_SETVM_STATUS, VM2RP_GETVMREPORT}"
  shows "serviceRequest E procid uReq (doc_text E m args) s = Undefined"
  using assms(3)
proof
  assume "AV_SLOTS < length args \<and> uReq \<in> {VM2RP_STARTAPP, VM2RP_SETVM_STATUS, VM2RP_GETRPID,
      VM2RP_GETVMMETA, VM2RP_ISVERIFIED, VM2RP_GETVMREPORT}"
  with overflow_undefined [OF assms(1,2)] show ?thesis by simp
next
  assume "length args = 1 \<and> uReq \<in> {VM2RP_SETVM_STATUS, VM2RP_GETVMREPORT}"
  moreover from this obtain a where "args = [a]" by (cases args) auto
  ultimately show ?thesis using one_argument_undefined [OF assms(1)] assms(2) by simp
qed

theorem malformed_requests_undefined_witness:
  "serviceRequest demo_env 6 VM2RP_SETVM_STATUS (doc_text demo_env ''foo'' [''u1'']) (demo_state []) = Undefined \<and>
   serviceRequest demo_env 6 VM2RP_GETRPID (doc_text demo_env ''foo'' (replicate 33 [])) (demo_state []) = Undefined"
proof -
  have "sendable demo_env ''foo'' (replicate 33 [])"
    using method_names(4) demo_overlong by (simp add: sendable_def wire_arg_def)
  with malformed_requests_undefined [of demo_env "''foo''" "replicate 33 []" VM2RP_GETRPID]
    malformed_requests_undefined [of demo_env "''foo''" "[''u1'']" VM2RP_SETVM_STATUS]
  show ?thesis by simp
qed

text \<open>
  C11: one connection from end to end, over any socket that keeps the contract of \<open>full_duplex\<close>.  When
  the peer sends one message, in whatever pieces it arrives and however little the socket takes
  at a time, the session serves the request of
  that message once, and sends back a header with the same code, the size of the answer and the
  status -1 exactly when the size is 0, followed by that many bytes of the answer.
\<close>

theorem session_reply:
  assumes "full_duplex rcv pending snd_fn sent" "pending sock = put_header h @ payload"
    and "m_reqSize h = word_of_nat (length payload)" "length payload \<le> PARAMSIZE"
    and "serviceRequest E (fst (generate_req_id n)) (m_reqID h) (cstr_of payload) s = Done (r, s')"
    and "0 \<le> outparamsize r" "outparamsize r \<le> int (PARAMSIZE - HEADER - 1)"
  shows "\<exists>sock'. handle_session E rcv snd_fn cl n sock s =
      Done (snd (generate_req_id n), cl sock', s') \<and>
    sent sock' = sent sock @ put_header
        \<lparr>m_reqID = m_reqID h, m_reqSize = word_of_int (outparamsize r),
         m_ustatus = (if outparamsize r = 0 then - 1 else 0)\<rparr> @
      pad (nat (outparamsize r)) (outparams r)"
  using full_duplex.handle_session_bytes [OF assms] unfolding answer_header_def .

theorem session_reply_witness:
  "\<exists>sock'. handle_session demo_env sock_recv sock_send (\<lambda>s. s) 8
      \<lparr>inbox = [take 5 (put_header \<lparr>m_reqID = VM2RP_TERMINATEAPP, m_reqSize = 2, m_ustatus = 0\<rparr>),
         drop 5 (put_header \<lparr>m_reqID = VM2RP_TERMINATEAPP, m_reqSize = 2, m_ustatus = 0\<rparr>) @ ''u'', ''1''],
       room = [3], outbox = []\<rparr> (demo_state cancelled_table) = Done (9, sock', demo_state cancelled_table) \<and>
    outbox sock' = put_header \<lparr>m_reqID = VM2RP_TERMINATEAPP, m_reqSize = 0, m_ustatus = - 1\<rparr>"
proof -
  let ?h = "\<lparr>m_reqID = VM2RP_TERMINATEAPP, m_reqSize = 2, m_ustatus = 0\<rparr>"
  let ?k = "\<lparr>inbox = [take 5 (put_header ?h), drop 5 (put_header ?h) @ ''u'', ''1''],
       room = [3], outbox = []\<rparr>"
  have p: "pending_in ?k = put_header ?h @ ''u1''"
    by (simp add: pending_in_def flip: append_assoc)
  have g: "generate_req_id 8 = (9, 9)"
    by (simp add: generate_req_id_def INT32_MAX_def)
  have "serviceRequest demo_env (fst (generate_req_id 8)) (m_reqID ?h) (cstr_of ''u1'')
      (demo_state cancelled_table) = Done (refuse [], demo_state cancelled_table)"
    by (simp add: serviceRequest_def)
  from session_reply [OF wire.full_duplex_axioms p _ _ this] show ?thesis
    by (simp add: g refuse_def)
qed

section \<open>Request numbers and the interface\<close>

lemma wait_ifc_diverges: "wait_ifc IFC_UNKNOWN = None"
proof -
  have "wait_ifc st = Some r \<Longrightarrow> st \<noteq> IFC_UNKNOWN" for st r
    by (erule wait_ifc.raw_induct [where P = "\<lambda>st r. st \<noteq> IFC_UNKNOWN", rotated]) (auto split: if_splits)
  then show ?thesis by (metis not_None_eq)
qed

lemma wait_ifc_result: "wait_ifc st = (if st = IFC_UNKNOWN then None else Some st)"
  using wait_ifc_diverges by (simp add: wait_ifc.simps [of st])

text \<open>The rounds of the accept loop, as long as no session ends the process.\<close>

fun accept_rounds :: "'n net \<Rightarrow> (int \<Rightarrow> 'n \<Rightarrow> 'n option) \<Rightarrow> int \<Rightarrow> nat \<Rightarrow> 'n \<Rightarrow> 'n option" where
  "accept_rounds N spawn fd 0 n = Some n"
| "accept_rounds N spawn fd (Suc k) n =
     (case accept_round N fd n of
        (None, n') \<Rightarrow> accept_rounds N spawn fd k n'
      | (Some newfd, n') \<Rightarrow>
          (case spawn newfd n' of None \<Rightarrow> None | Some n'' \<Rightarrow> accept_rounds N spawn fd k n''))"

text \<open>Some round starts a session that ends the process.\<close>

definition session_kills :: "'n net \<Rightarrow> (int \<Rightarrow> 'n \<Rightarrow> 'n option) \<Rightarrow> int \<Rightarrow> 'n \<Rightarrow> bool" where
  "session_kills N spawn fd n \<longleftrightarrow> (\<exists>k. accept_rounds N spawn fd k n = None)"

lemma accept_loop_killed:
  "accept_rounds N spawn fd k n = None \<Longrightarrow> accept_loop N spawn False fd n = Some Killed"
proof (induction k arbitrary: n)
  case (Suc k)
  then show ?case
    by (subst accept_loop.simps) (auto split: prod.splits option.splits)
qed simp

lemma accept_loop_result:
  "accept_loop N spawn False fd n = (if session_kills N spawn fd n then Some Killed else None)"
proof -
  have "accept_loop N spawn q fd n = Some r \<Longrightarrow> q \<or> (\<exists>k. accept_rounds N spawn fd k n = None)" for q r
  proof (erule accept_loop.raw_induct [where P = "\<lambda>N spawn q fd n r. q \<or> (\<exists>k. accept_rounds N spawn fd k n = None)", rotated])
    fix loop :: "'a net \<Rightarrow> (int \<Rightarrow> 'a \<Rightarrow> 'a option) \<Rightarrow> bool \<Rightarrow> int \<Rightarrow> 'a \<Rightarrow> 'a run_end option"
      and N spawn q fd n r
    assume IH: "\<And>N spawn q fd n r. loop N spawn q fd n = Some r \<Longrightarrow> q \<or> (\<exists>k. accept_rounds N spawn fd k n = None)"
      and run: "(if q then Some (Ends n)
        else case accept_round N fd n of
               (None, n') \<Rightarrow> loop N spawn q fd n'
             | (Some newfd, n') \<Rightarrow>
                 (case spawn newfd n' of None \<Rightarrow> Some Killed | Some n'' \<Rightarrow> loop N spawn q fd n'')) = Some r"
    have "\<exists>k. accept_rounds N spawn fd k n = None" if q: "\<not> q"
    proof -
      obtain a n' where a: "accept_round N fd n = (a, n')" by force
      consider "a = None" | newfd where "a = Some newfd" "spawn newfd n' = None"
        | newfd n'' where "a = Some newfd" "spawn newfd n' = Some n''"
        by (cases a; cases "spawn (the a) n'") auto
      then show ?thesis
      proof cases
        case 1
        with IH run q a obtain k where "accept_rounds N spawn fd k n' = None" by fastforce
        with a 1 show ?thesis by (intro exI [of _ "Suc k"]) simp
      next
        case 2
        with a show ?thesis by (intro exI [of _ "Suc 0"]) simp
      next
        case 3
        with IH run q a obtain k where "accept_rounds N spawn fd k n'' = None" by fastforce
        with a 3 show ?thesis by (intro exI [of _ "Suc k"]) simp
      qed
    qed
    then show "q \<or> (\<exists>k. accept_rounds N spawn fd k n = None)" by blast
  qed
  then show ?thesis
    using accept_loop_killed [of N spawn fd _ n] unfolding session_kills_def by (metis not_None_eq)
qed

text \<open>
  The numbers of the first requests of a process are 1, 2, 3, \<dots>: pairwise distinct up to
  2147483646 requests, and the request after those gets the number 0.
\<close>

lemma request_numbers:
  "((fst \<circ> generate_req_id) ^^ k) 0 = int k mod INT32_MAX \<and>
   inj_on (\<lambda>k. ((fst \<circ> generate_req_id) ^^ k) 0) {..< nat INT32_MAX} \<and>
   ((fst \<circ> generate_req_id) ^^ nat INT32_MAX) 0 = 0"
proof (intro conjI)
  show 1: "((fst \<circ> generate_req_id) ^^ k) 0 = int k mod INT32_MAX" for k
    by (simp add: generate_req_id_iter)
  show "inj_on (\<lambda>k. ((fst \<circ> generate_req_id) ^^ k) 0) {..< nat INT32_MAX}"
    unfolding 1 by (rule inj_onI) (simp add: mod_pos_pos_trivial nat_less_iff zless_nat_eq_int_zless)
  show "((fst \<circ> generate_req_id) ^^ nat INT32_MAX) 0 = 0"
    unfolding 1 using INT32_MAX_pos by simp
qed

text \<open>
  The number 0 means "no such entry" to every search by UUID.  An instance that is added
  under it (the counter has come around) cannot be queried, updated or removed by its UUID.
\<close>

lemma entry_zero_unreachable:
  assumes "fst (addprocEntry H plat 0 file uuid sizeHash hash itype s)"
    and "s' = snd (addprocEntry H plat 0 file uuid sizeHash hash itype s)"
    and "getprocIdfromuuid uuid (proc_table s) = 0" "length uuid < UUID_SIZE" "map_ok (proc_table s)"
  shows "map_of (proc_table s') 0 \<noteq> None \<and>
    GetRpId uuid (proc_table s') = Inl TCSERVICE_RESULT_FAILED \<and>
    UpdateAppStatus H uuid st s' = (TCSERVICE_RESULT_FAILED, s') \<and>
    removeprocEntry_uuid H uuid s' = (False, s')"
proof (intro conjI)
  have ins: "getprocIdfromuuid uuid (map_insert 0 e t) = 0"
    if "getprocIdfromuuid uuid t = 0" for e :: serviceprocEnt and t
    using that by (induction "0::int" e t rule: map_insert.induct) (auto split: if_splits)
  from assms have z: "getprocIdfromuuid uuid (proc_table s') = 0"
    by (auto simp: addprocEntry_def Let_def ins split: if_splits prod.splits)
  show "map_of (proc_table s') 0 \<noteq> None"
    using assms by (auto simp: addprocEntry_def Let_def map_lookup_simps split: if_splits prod.splits option.splits)
  show "GetRpId uuid (proc_table s') = Inl TCSERVICE_RESULT_FAILED"
    "UpdateAppStatus H uuid st s' = (TCSERVICE_RESULT_FAILED, s')"
    "removeprocEntry_uuid H uuid s' = (False, s')"
    using z by (simp_all add: GetRpId_def UpdateAppStatus_def removeprocEntry_uuid_def)
qed

lemma entry_zero_unreachable_example:
  "GetRpId ''u1'' (proc_table (snd (addprocEntry ref_host Linux 0 [] ''u1'' 0 [] 0 (demo_state [])))) =
     Inl TCSERVICE_RESULT_FAILED"
  by (rule entry_zero_unreachable [of ref_host Linux "[]" "''u1''" 0 "[]" 0 "demo_state []",
        THEN conjunct2, THEN conjunct1])
    (simp_all add: addprocEntry_def Let_def split: prod.splits)

text \<open>
  \<open>start_vrtm_interface\<close> returns only when the interface could not be opened, with its state
  \<open>IFC_ERR\<close>: the socket, its address or the queue failed.  With an interface that is up the thread
  accepts connections until a session ends the process, and when the network library or the
  address look-up fails the state stays unknown and the function waits for ever.
\<close>

lemma start_vrtm_interface_result:
  "start_vrtm_interface N spawn plat G n =
     (case dom_listener_setup N plat G n of
        ((IFC_ERR, None), n') \<Rightarrow> Some (Ends (IFC_ERR, n'))
      | ((_, Some fd), n') \<Rightarrow> (if session_kills N spawn fd n' then Some Killed else None)
      | _ \<Rightarrow> None)"
proof -
  have "wait_ifc st = (if st = IFC_UNKNOWN then None else Some st)" for st
    by (rule wait_ifc_result)
  then show ?thesis
    by (cases plat) (auto simp: start_vrtm_interface_def dom_listener_main_def g_quit_def
        accept_loop_result dom_listener_setup_def Let_def split: prod.splits bool.splits if_splits)
qed

end
