(* ===== verification/Core_Steps.thy ===== *)
theory Core_Steps
  imports Tc_Service
begin

text \<open>
  The threads of the core on the shared process table: the two clean-up loops
  (\<open>clean_vrtm_table\<close>, \<open>clean_and_update_hyperv_vm_status\<close> of \<open>modtcService.cpp\<close>), and the
  interleavings of the locked methods as a step relation.  \<open>sleep\<close> is the parameter \<open>slp\<close>.
\<close>

section \<open>The clean-up threads\<close>

text \<open>
  The thread loops until no entry is cancelled.  A run that goes on for ever is \<open>None\<close>.  No
  other thread moves meanwhile.
\<close>

partial_function (option) clean_vrtm_table ::
  "'w host \<Rightarrow> (int \<Rightarrow> 'w \<Rightarrow> 'w) \<Rightarrow> globals \<Rightarrow> 'w core \<Rightarrow> 'w core option"
where
  "clean_vrtm_table H slp G s =
     (if getcancelledvmcount (proc_table s) = 0
      then Some (s\<lparr>cleanup_status := 0, cleaners := cleaners s - 1\<rparr>)
      else clean_vrtm_table H slp G
             (snd (CleanVrtmTable H (word_of_int (g_cancelled_vm_max_age G)) VM_STATUS_CANCELLED
                     (s\<lparr>os := slp (g_entry_cleanup_interval G) (os s)\<rparr>))))"

text \<open>
  The Windows thread; \<open>query\<close> is the WMI query in the world of that moment.  The flag it resets
  and its counters are not part of the state.
\<close>

partial_function (option) clean_and_update_hyperv_vm_status ::
  "'w host \<Rightarrow> (int \<Rightarrow> 'w \<Rightarrow> 'w) \<Rightarrow> ('w \<Rightarrow> (cstr \<times> int) list option) \<Rightarrow> globals
     \<Rightarrow> (cstr, unit) smap \<Rightarrow> 'w core \<Rightarrow> 'w core option"
where
  "clean_and_update_hyperv_vm_status H slp query G active_vms s =
     (case getactivevmsuuid active_vms (proc_table s) of
        (n, vms) \<Rightarrow>
          if n = 0 then Some s
          else (let s1 = s\<lparr>os := slp (g_entry_cleanup_interval G) (os s)\<rparr>
                in case CleanVrtmTable_and_update_vm_status H Windows (query (os s1)) vms 0 0 s1 of
                     (_, _, _, s2) \<Rightarrow> clean_and_update_hyperv_vm_status H slp query G [] s2))"

lemma cancelled_count: "getcancelledvmcount t = int (length (filter (\<lambda>(k, e). m_vm_status e = VM_STATUS_CANCELLED) t))"
  by (induction t rule: getcancelledvmcount.induct) auto

text \<open>A clock that only \<open>sleep\<close> moves.\<close>

definition clock_law :: "'w host \<Rightarrow> (int \<Rightarrow> 'w \<Rightarrow> 'w) \<Rightarrow> ('w \<Rightarrow> int) \<Rightarrow> bool" where
  "clock_law H slp clock \<longleftrightarrow>
     (\<forall>w. h_time H w = (clock w, w)) \<and> (\<forall>i w. clock (slp i w) = clock w + i) \<and>
     (\<forall>c w. clock (snd (h_system H c w)) = clock w)"

lemma collect_expired_clock:
  "clock_law H slp clock \<Longrightarrow>
   collect_expired H age st t w = (map fst (filter (\<lambda>(k, e). expired age st (clock w) e) t), w)"
  by (induction t) (auto simp: clock_law_def expired_def)

lemma remove_keys_clock:
  "clock_law H slp clock \<Longrightarrow> clock (os (snd (remove_keys H ks s))) = clock (os s)"
proof (induction ks arbitrary: s)
  case (Cons k ks)
  have "clock (os (snd (removeprocEntry H k s))) = clock (os s)"
    using Cons.prems
    by (auto simp: removeprocEntry_def clock_law_def remove_dir_def Let_def split: option.splits prod.splits)
      (metis snd_conv)
  with Cons show ?case by (simp add: Let_def split_beta)
qed simp

lemma clean_round:
  assumes law: "clock_law H slp clock" and ok: "map_ok (proc_table s)"
    and s': "s' = snd (CleanVrtmTable H age st (s\<lparr>os := slp i (os s)\<rparr>))"
  shows "proc_table s' = filter (\<lambda>(k, e). \<not> expired age st (clock (os s) + i) e) (proc_table s)"
    and "clock (os s') = clock (os s) + i"
proof -
  let ?s = "s\<lparr>os := slp i (os s)\<rparr>"
  have c: "clock (slp i (os s)) = clock (os s) + i" using law by (simp add: clock_law_def)
  have k: "collect_expired H age st (proc_table ?s) (os ?s) =
      (map fst (filter (\<lambda>(k, e). expired age st (clock (os s) + i) e) (proc_table ?s)), os ?s)"
    using collect_expired_clock [OF law] c by simp
  show "proc_table s' = filter (\<lambda>(k, e). \<not> expired age st (clock (os s) + i) e) (proc_table s)"
    using CleanVrtmTable_filter(1) [OF _ k] ok s' by simp
  show "clock (os s') = clock (os s) + i"
    using k c remove_keys_clock [OF law] by (simp add: s' CleanVrtmTable_def)
qed

lemma expired_iff:
  assumes "0 \<le> A" "A < 2 ^ 63" "0 \<le> now - m_status_upadation_time e" "now - m_status_upadation_time e < 2 ^ 63"
  shows "expired (word_of_int A) st now e \<longleftrightarrow> m_vm_status e = st \<and> A \<le> now - m_status_upadation_time e"
proof -
  have "uint (word_of_int x :: 64 word) = x" if "0 \<le> x" "x < 2 ^ 63" for x
    using that by (simp add: uint_word_of_int_eq take_bit_int_eq_self)
  from this [of A] this [of "now - m_status_upadation_time e"] show ?thesis
    using assms by (simp add: expired_def entry_age_def word_le_def del: of_int_diff)
qed

text \<open>When the thread can run undisturbed, and what it needs from the times in the table.\<close>

definition cleanable :: "int \<Rightarrow> ptab \<Rightarrow> bool" where
  "cleanable now t \<longleftrightarrow> map_ok t \<and> (\<forall>(k, e) \<in> set t. 0 \<le> m_status_upadation_time e \<and>
     m_status_upadation_time e \<le> now)"

lemma cleanable_filter: "cleanable now t \<Longrightarrow> now \<le> now' \<Longrightarrow> cleanable now' (filter P t)"
  by (auto simp: cleanable_def map_ok_def sorted_wrt_map intro: sorted_wrt_filter)

text \<open>A step of the loop removes every cancelled entry once the clock has passed \<open>limit\<close>.\<close>

lemma clean_vrtm_table_loop:
  assumes law: "clock_law H slp clock"
    and i: "0 < g_entry_cleanup_interval G" and A: "0 \<le> g_cancelled_vm_max_age G" "0 \<le> limit"
    and small: "limit + g_cancelled_vm_max_age G + g_entry_cleanup_interval G < 2 ^ 63"
  shows "cleanable (clock (os s)) (proc_table s) \<Longrightarrow>
     \<forall>(k, e) \<in> set (proc_table s). m_status_upadation_time e \<le> limit \<Longrightarrow>
     clock (os s) < limit + g_cancelled_vm_max_age G + g_entry_cleanup_interval G \<Longrightarrow>
     clock (os s) \<le> limit + g_cancelled_vm_max_age G \<or> getcancelledvmcount (proc_table s) = 0 \<Longrightarrow>
     \<exists>s'. clean_vrtm_table H slp G s = Some s' \<and> cleanup_status s' = 0 \<and>
       proc_table s' = filter (\<lambda>(k, e). m_vm_status e \<noteq> VM_STATUS_CANCELLED) (proc_table s)"
proof (induction "nat (limit + g_cancelled_vm_max_age G + g_entry_cleanup_interval G - clock (os s))"
    arbitrary: s rule: less_induct)
  case less
  let ?i = "g_entry_cleanup_interval G" and ?A = "g_cancelled_vm_max_age G"
  show ?case
  proof (cases "getcancelledvmcount (proc_table s) = 0")
    case True
    then have "filter (\<lambda>(k, e). m_vm_status e = VM_STATUS_CANCELLED) (proc_table s) = []"
      by (simp add: cancelled_count)
    then have "filter (\<lambda>(k, e). m_vm_status e \<noteq> VM_STATUS_CANCELLED) (proc_table s) = proc_table s"
      by (auto simp: filter_empty_conv intro!: filter_True)
    with True show ?thesis by (simp add: clean_vrtm_table.simps [of H slp G s])
  next
    case False
    define s1 where "s1 = snd (CleanVrtmTable H (word_of_int ?A) VM_STATUS_CANCELLED
        (s\<lparr>os := slp ?i (os s)\<rparr>))"
    let ?now = "clock (os s) + ?i"
    have ok: "map_ok (proc_table s)" using less.prems(1) by (simp add: cleanable_def)
    note r = clean_round [OF law ok s1_def]
    have now: "clock (os s) \<le> limit + ?A" using less.prems(4) False by simp
    have ex: "expired (word_of_int ?A) VM_STATUS_CANCELLED ?now e \<longleftrightarrow>
        m_vm_status e = VM_STATUS_CANCELLED \<and> ?A \<le> ?now - m_status_upadation_time e"
      if "(k, e) \<in> set (proc_table s)" for k e
      using that less.prems(1) A i small now by (intro expired_iff) (auto simp: cleanable_def)
    have c1: "cleanable (clock (os s1)) (proc_table s1)"
      using less.prems(1) i by (simp add: r cleanable_filter)
    have t1: "filter (\<lambda>(k, e). m_vm_status e \<noteq> VM_STATUS_CANCELLED) (proc_table s1) =
        filter (\<lambda>(k, e). m_vm_status e \<noteq> VM_STATUS_CANCELLED) (proc_table s)"
      unfolding r(1) filter_filter by (rule filter_cong [OF refl]) (auto simp: expired_def)
    have step: "clean_vrtm_table H slp G s = clean_vrtm_table H slp G s1"
      using False by (subst clean_vrtm_table.simps) (simp add: s1_def)
    have past: "clock (os s1) \<le> limit + ?A \<or> getcancelledvmcount (proc_table s1) = 0"
    proof (rule disjCI)
      assume "getcancelledvmcount (proc_table s1) \<noteq> 0"
      then obtain k e where e: "(k, e) \<in> set (proc_table s1)" "m_vm_status e = VM_STATUS_CANCELLED"
        by (auto simp: cancelled_count filter_empty_conv)
      then have "(k, e) \<in> set (proc_table s)" "\<not> ?A \<le> ?now - m_status_upadation_time e"
        using ex by (auto simp: r(1))
      with less.prems(2) show "clock (os s1) \<le> limit + ?A" by (auto simp: r(2))
    qed
    show ?thesis
    proof (cases "getcancelledvmcount (proc_table s1) = 0")
      case True
      then have "\<exists>s'. clean_vrtm_table H slp G s1 = Some s' \<and> cleanup_status s' = 0 \<and>
          proc_table s' = proc_table s1"
        by (simp add: clean_vrtm_table.simps [of H slp G s1])
      moreover have "filter (\<lambda>(k, e). m_vm_status e \<noteq> VM_STATUS_CANCELLED) (proc_table s1) = proc_table s1"
        using True by (auto simp: cancelled_count filter_empty_conv intro!: filter_True)
      ultimately show ?thesis using t1 step by simp
    next
      case False
      then have l: "clock (os s1) \<le> limit + ?A" using past by simp
      have "\<exists>s'. clean_vrtm_table H slp G s1 = Some s' \<and> cleanup_status s' = 0 \<and>
        proc_table s' = filter (\<lambda>(k, e). m_vm_status e \<noteq> VM_STATUS_CANCELLED) (proc_table s1)"
      proof (rule less.hyps)
        show "nat (limit + ?A + ?i - clock (os s1)) < nat (limit + ?A + ?i - clock (os s))"
          using r(2) i less.prems(3) by simp
        show "\<forall>(k, e) \<in> set (proc_table s1). m_status_upadation_time e \<le> limit"
          using less.prems(2) by (auto simp: r(1))
      qed (use c1 l i in simp_all)
      with t1 step show ?thesis by simp
    qed
  qed
qed

section \<open>Interleavings\<close>

text \<open>
  Requests run in threads of their own.  Each locked section of a table method is one step; what
  the threads compute between the sections is left open (any arguments).  \<open>UpdateAppStatus\<close>
  looks at an entry and writes it without the lock: with \<open>stale\<close> the write may come after other
  steps, so the status it had looked at may have changed; this allows more writes than the
  code makes, as none is tied to an earlier look.  \<open>stale = False\<close> lets look and write be one
  step.  A write to an entry that has been removed meanwhile is not a step here; the threads of
  \<open>Vm_Isolation\<close> have it, and look and write apart.
\<close>

inductive core_step :: "'w host \<Rightarrow> bool \<Rightarrow> 'w core \<Rightarrow> 'w core \<Rightarrow> bool" for H :: "'w host" and stale :: bool
where
  add: "nat sz \<le> length hash \<Longrightarrow>
    core_step H stale s (snd (addprocEntry H plat procid path uuid sz hash itype s))"
| upd: "core_step H stale s (snd (updateprocEntry H plat procid d nm s))"
| rem: "core_step H stale s (snd (removeprocEntry H procid s))"
| rem_uuid: "core_step H stale s (snd (removeprocEntry_uuid H uuid s))"
| time: "core_step H stale s (s\<lparr>proc_table :=
    map_modify procid (\<lambda>e. e\<lparr>m_status_upadation_time := now\<rparr>) (proc_table s)\<rparr>)"
| status: "map_of (proc_table s) procid = Some e \<Longrightarrow> stale \<or> m_vm_status e \<noteq> VM_STATUS_CANCELLED \<Longrightarrow>
    core_step H stale s (s\<lparr>proc_table := map_modify procid (set_status now st) (proc_table s)\<rparr>)"
| clean_end: "0 < cleaners s \<Longrightarrow> getcancelledvmcount (proc_table s) = 0 \<Longrightarrow>
    core_step H stale s (s\<lparr>cleanup_status := 0, cleaners := cleaners s - 1\<rparr>)"
| world: "core_step H stale s (s\<lparr>os := w\<rparr>)"

abbreviation core_run :: "'w host \<Rightarrow> bool \<Rightarrow> 'w core \<Rightarrow> 'w core \<Rightarrow> bool" where
  "core_run H stale \<equiv> (core_step H stale)\<^sup>*\<^sup>*"

text \<open>The entries are kept apart from the order of the table: what holds of each of them.\<close>

lemma core_step_bounds:
  assumes "core_step H stale s s'" "table_all ent_ok (proc_table s)"
  shows "table_all ent_ok (proc_table s')"
  using assms(1)
proof cases
  case (status procid e now st)
  with assms(2) show ?thesis
    by (auto intro!: table_all_modify simp: ent_ok_def)
qed (use assms(2) in \<open>simp_all add: ent.addprocEntry_all ent.updateprocEntry_all ent.removeprocEntry_all
      ent.removeprocEntry_uuid_all ent.set_time_all\<close>)

lemma core_step_enforced:
  assumes "core_step H False s s'" "table_all enforced (proc_table s)"
  shows "table_all enforced (proc_table s')"
  using assms(1)
proof cases
  case (status procid e now st)
  with assms(2) show ?thesis by (simp add: enf.set_status_all)
qed (use assms(2) in \<open>simp_all add: enf.addprocEntry_all enf.updateprocEntry_all enf.removeprocEntry_all
      enf.removeprocEntry_uuid_all enf.set_time_all\<close>)

lemma core_run_bounds:
  "core_run H stale s s' \<Longrightarrow> table_all ent_ok (proc_table s) \<Longrightarrow> table_all ent_ok (proc_table s')"
  by (induction rule: rtranclp_induct) (auto intro: core_step_bounds)

lemma core_run_enforced:
  "core_run H False s s' \<Longrightarrow> table_all enforced (proc_table s) \<Longrightarrow> table_all enforced (proc_table s')"
  by (induction rule: rtranclp_induct) (auto intro: core_step_enforced)

section \<open>Properties\<close>

text \<open>A host with a clock that only \<open>sleep\<close> moves.\<close>

definition ref_sleep :: "int \<Rightarrow> ref_world \<Rightarrow> ref_world" where
  "ref_sleep i w = w\<lparr>rw_clock := rw_clock w + i\<rparr>"

lemma ref_clock_law: "clock_law ref_host ref_sleep rw_clock"
  by (simp add: clock_law_def ref_host_def ref_sleep_def)

definition sample_entry :: "cstr \<Rightarrow> int \<Rightarrow> serviceprocEnt" where
  "sample_entry uuid st =
     (new_serviceprocEnt 900)\<lparr>m_uuid := uuid, m_vm_launch_policy := ''Enforce'',
        m_size_vm_launch_policy := 7, m_vm_verfication_status := (st \<noteq> VM_STATUS_CANCELLED), m_vm_status := st\<rparr>"

definition sample_core :: "ref_world core" where
  "sample_core = \<lparr>proc_table = [(3, sample_entry ''u1'' VM_STATUS_CANCELLED), (4, sample_entry ''u2'' VM_STATUS_STARTED)],
     cleanup_status = 1, cleaners = 1, os = ref_world0\<rparr>"

lemma sample_inv: "table_inv (proc_table sample_core)"
  by (simp add: table_inv_def table_all_def map_ok_def ent_ok_def enforced_def uuids_distinct_def
      keys_nonzero_def sample_core_def sample_entry_def new_serviceprocEnt_def)

text \<open>
  C17: left alone, the clean-up thread ends: when the clock only advances by the sleeps, no entry is
  dated in the future, the interval is positive and nothing reaches 2^63 seconds, the loop
  returns after finitely many rounds, has removed exactly the cancelled entries, and has reset
  the flag.
\<close>

theorem clean_vrtm_table_terminates:
  assumes "clock_law H slp clock" "map_ok (proc_table s)"
    and "0 < g_entry_cleanup_interval G" "0 \<le> g_cancelled_vm_max_age G"
    and "\<forall>(k, e) \<in> set (proc_table s). 0 \<le> m_status_upadation_time e \<and> m_status_upadation_time e \<le> clock (os s)"
    and "0 \<le> clock (os s)"
    and "clock (os s) + g_cancelled_vm_max_age G + g_entry_cleanup_interval G < 2 ^ 63"
  shows "\<exists>s'. clean_vrtm_table H slp G s = Some s' \<and> cleanup_status s' = 0 \<and>
    proc_table s' = filter (\<lambda>(k, e). m_vm_status e \<noteq> VM_STATUS_CANCELLED) (proc_table s)"
  using assms
  by (intro clean_vrtm_table_loop [OF assms(1,3,4,6,7)]) (auto simp: cleanable_def)

theorem clean_vrtm_table_terminates_witness:
  "\<exists>s'. clean_vrtm_table ref_host ref_sleep (default_globals Linux) sample_core = Some s' \<and>
     cleanup_status s' = 0 \<and> proc_table s' = [(4, sample_entry ''u2'' VM_STATUS_STARTED)]"
proof -
  have "\<exists>s'. clean_vrtm_table ref_host ref_sleep (default_globals Linux) sample_core = Some s' \<and>
     cleanup_status s' = 0 \<and>
     proc_table s' = filter (\<lambda>(k, e). m_vm_status e \<noteq> VM_STATUS_CANCELLED) (proc_table sample_core)"
    by (rule clean_vrtm_table_terminates [OF ref_clock_law])
      (simp_all add: table_invD(5) [OF sample_inv], simp_all add: default_globals_def sample_core_def
        sample_entry_def ref_world0_def new_serviceprocEnt_def)
  then show ?thesis
    by (simp add: sample_core_def sample_entry_def)
qed

text \<open>
  C13: under every interleaving of the threads, the unlocked status write included, every string of
  every entry fits its array with its NUL and every size field is the length of its string.
\<close>

theorem interleavings_keep_bounds:
  assumes "core_run H stale s s'" "table_all ent_ok (proc_table s)"
  shows "table_all ent_ok (proc_table s')"
  using assms by (rule core_run_bounds)

theorem interleavings_keep_bounds_witness:
  "table_all ent_ok (proc_table (snd (removeprocEntry ref_host 3 sample_core)))"
proof (rule interleavings_keep_bounds)
  show "core_run ref_host True sample_core (snd (removeprocEntry ref_host 3 sample_core))"
    by (intro r_into_rtranclp core_step.rem)
qed (rule table_invD(1) [OF sample_inv])

text \<open>
  C14: if a status update looked at an entry and wrote it in one step, every interleaving of the
  threads would keep each entry with a failed verification under Enforce in the state CANCELLED.
\<close>

theorem atomic_updates_keep_enforcement:
  assumes "core_run H False s s'" "table_all enforced (proc_table s)"
  shows "table_all enforced (proc_table s')"
  using assms by (rule core_run_enforced)

theorem atomic_updates_keep_enforcement_witness:
  "table_all enforced (proc_table (snd (removeprocEntry ref_host 4 sample_core)))"
proof (rule atomic_updates_keep_enforcement)
  show "core_run ref_host False sample_core (snd (removeprocEntry ref_host 4 sample_core))"
    by (intro r_into_rtranclp core_step.rem)
qed (rule table_invD(2) [OF sample_inv])

text \<open>
  C18: with a clock that does not move during the pass, \<open>CleanVrtmTable\<close> removes exactly the
  entries in the given status whose age has reached the limit, keeps all others, and reports
  their number.
\<close>

theorem CleanVrtmTable_removes_expired:
  assumes "map_ok (proc_table s)" "stable_clock H now"
  shows "proc_table (snd (CleanVrtmTable H age st s)) =
           filter (\<lambda>(k, e). \<not> (m_vm_status e = st \<and> age \<le> entry_age now e)) (proc_table s) \<and>
         fst (CleanVrtmTable H age st s) =
           int (length (filter (\<lambda>(k, e). m_vm_status e = st \<and> age \<le> entry_age now e) (proc_table s)))"
  using CleanVrtmTable_exact [OF assms, of age st] unfolding expired_def by simp_all

theorem CleanVrtmTable_removes_expired_witness:
  "fst (CleanVrtmTable (ref_host\<lparr>h_time := \<lambda>w. (1000, w)\<rparr>) 60 VM_STATUS_CANCELLED sample_core) = 1"
proof -
  have "stable_clock (ref_host\<lparr>h_time := \<lambda>w. (1000, w)\<rparr>) 1000"
    by (simp add: stable_clock_def)
  from CleanVrtmTable_removes_expired [OF table_invD(5) [OF sample_inv] this, of 60 VM_STATUS_CANCELLED]
  show ?thesis
    by (simp add: sample_core_def sample_entry_def entry_age_def new_serviceprocEnt_def word_le_def)
qed

lemma UpdateAppStatus_entry:
  assumes inv: "table_inv (proc_table s)" and e: "(k, e) \<in> set (proc_table s)"
    and clock: "h_time H (os s) = (now, w)" "h_localtime_ok H now"
  shows "fst (UpdateAppStatus H (m_uuid e) st s) = TCSERVICE_RESULT_SUCCESS \<and>
    proc_table (snd (UpdateAppStatus H (m_uuid e) st s)) =
      (if m_vm_status e = VM_STATUS_CANCELLED then proc_table s
       else if st = VM_STATUS_DELETED then map_erase k (proc_table s)
       else map_modify k (set_status now st) (proc_table s))"
proof -
  have k: "getprocIdfromuuid (m_uuid e) (proc_table s) = k" "k \<noteq> 0" "map_of (proc_table s) k = Some e"
    using getprocIdfromuuid_unique [OF table_invD(3) [OF inv] e] table_invD(4) [OF inv] e
      in_set_map_of [OF table_invD(5) [OF inv]]
    by (auto simp: keys_nonzero_def)
  then show ?thesis
    using clock removeprocEntry_result [of H k s]
    by (auto simp: UpdateAppStatus_def getEntfromprocId_def removeprocEntry_uuid_def Let_def split_beta)
qed

end
