(* ===== verification/Core_Safety.thy ===== *)
theory Core_Safety
  imports Session Core_Steps
begin

text \<open>
  The requests and the clean-up passes as runs of the locked steps of \<open>Core_Steps\<close>, and the
  states the core reaches when requests are served one after the other.
\<close>

section \<open>Every operation is a run of locked steps\<close>

lemma run_world: "core_run H stale s t \<Longrightarrow> core_run H stale s (t\<lparr>os := w\<rparr>)"
  by (erule rtranclp.rtrancl_into_rtrancl) (rule core_step.world)

lemma run_world0: "core_run H stale (s\<lparr>os := w\<rparr>) t \<Longrightarrow> core_run H stale s t"
  by (rule converse_rtranclp_into_rtranclp) (rule core_step.world)

lemma run_step: "core_step H stale s t \<Longrightarrow> core_run H stale s t"
  by (rule r_into_rtranclp)

lemma run_fail_response: "core_run H stale s (snd (fail_response H keep d s))"
  by (simp add: fail_response_def run_world)

lemma run_register:
  "core_run H stale s (snd (register_instance H r procid h v s))"
proof -
  let ?u = "a_uuid (r_args r)"
  let ?add = "if getprocIdfromuuid ?u (proc_table s) = 0
      then addprocEntry H Linux procid (a_kernel (r_args r)) ?u 32 (replicate 32 0) (a_type (r_args r)) s
      else (True, s)"
  obtain b s1 where a: "?add = (b, s1)" by force
  have s1: "core_run H stale s s1"
  proof (cases "getprocIdfromuuid ?u (proc_table s) = 0")
    case True
    have "core_step H stale s (snd (addprocEntry H Linux procid (a_kernel (r_args r)) ?u 32 (replicate 32 0)
        (a_type (r_args r)) s))"
      by (rule core_step.add) simp
    with True a show ?thesis by (auto intro: run_step)
  qed (use a in simp)
  have u: "core_run H stale s (snd (updateprocEntry H Linux k d nm s1))" for k d nm
    using s1 by (rule rtranclp.rtrancl_into_rtrancl) (rule core_step.upd)
  then have u': "core_run H stale s s2" if "updateprocEntry H Linux k d nm s1 = (x, s2)" for k d nm x s2
    using that by (metis snd_conv)
  show ?thesis
    unfolding register_instance_def Let_def a
    by (auto intro: s1 u' split: prod.splits)
qed

lemma run_measure: "core_run H stale s (snd (measure_and_register H G r procid s))"
proof -
  have f: "core_run H stale s (snd (fail_response H keep d (s\<lparr>os := w\<rparr>)))" for keep d w
    by (rule run_world0) (rule run_fail_response)
  have reg: "core_run H stale s t" "core_run H stale s (snd (fail_response H keep d t))"
    if "register_instance H r procid h v (s\<lparr>os := w\<rparr>) = (x, t)" for h v w x t keep d
  proof -
    show 1: "core_run H stale s t"
      using run_world0 [OF run_register [of H stale "s\<lparr>os := w\<rparr>" r procid h v]] that by simp
    show "core_run H stale s (snd (fail_response H keep d t))"
      using 1 run_fail_response by (rule rtranclp_trans)
  qed
  show ?thesis
    unfolding measure_and_register_def Let_def
    by (auto intro: f reg split: phase.splits prod.splits)
qed

lemma run_StartApp:
  assumes "StartApp H XP G procid av s = Some (r, s')"
  shows "core_run H stale s s'"
proof -
  have f: "core_run H stale s s'" if "fail_response H keep d (s\<lparr>os := w\<rparr>) = (r, s')" for keep d w
    using run_world0 [OF run_fail_response [of H stale "s\<lparr>os := w\<rparr>" keep d]] that by simp
  have m: "core_run H stale s s'" if "measure_and_register H G x procid (s\<lparr>os := w\<rparr>) = (r, s')" for x w
    using run_world0 [OF run_measure [of H stale "s\<lparr>os := w\<rparr>" G x procid]] that by simp
  show ?thesis
    using assms unfolding StartApp_def Let_def
    by (auto intro: f m run_world split: if_splits option.splits phase.splits prod.splits bool.splits)
qed

lemma run_UpdateAppStatus: "core_run H stale s (snd (UpdateAppStatus H uuid st s))"
proof (cases "getEntfromprocId (getprocIdfromuuid uuid (proc_table s)) (proc_table s)")
  case None
  then show ?thesis by (simp add: UpdateAppStatus_def Let_def)
next
  case (Some e)
  let ?k = "getprocIdfromuuid uuid (proc_table s)"
  have rm: "core_run H stale s (snd (removeprocEntry_uuid H uuid s))"
    by (rule run_step) (rule core_step.rem_uuid)
  have st: "core_run H stale s (s\<lparr>proc_table := map_modify ?k (set_status now st) (proc_table s), os := w\<rparr>)"
    if "m_vm_status e \<noteq> VM_STATUS_CANCELLED" for now w
    using run_world [OF run_step [OF core_step.status [of s ?k e stale]]] Some that
    by (simp add: getEntfromprocId_def)
  have tm: "core_run H stale s (s\<lparr>proc_table :=
      map_modify ?k (\<lambda>e. e\<lparr>m_status_upadation_time := now\<rparr>) (proc_table s), os := w\<rparr>)" for now w
    using run_world [OF run_step [OF core_step.time [of H stale s ?k now]]] by simp
  show ?thesis
    using Some rm st tm
    by (auto simp: UpdateAppStatus_def Let_def split: prod.splits)
qed

lemma run_remove_keys: "core_run H stale s (snd (remove_keys H ks s))"
proof (induction ks arbitrary: s)
  case (Cons k ks)
  have "core_step H stale s (snd (removeprocEntry H k s))" by (rule core_step.rem)
  from converse_rtranclp_into_rtranclp [OF this Cons.IH] show ?case
    by (simp add: Let_def split_beta)
qed simp

lemma run_CleanVrtmTable: "core_run H stale s (snd (CleanVrtmTable H age st s))"
  by (auto simp: CleanVrtmTable_def intro: run_world0 run_remove_keys split: prod.splits)

lemma run_serviceRequest:
  assumes "serviceRequest E procid uReq inparams s = Done (r, s')"
  shows "core_run (e_host E) stale s s'"
proof -
  have u: "core_run (e_host E) stale s t" if "UpdateAppStatus (e_host E) u n s = (c, t)" for u n c t
    using run_UpdateAppStatus [of "e_host E" stale s u n] that by simp
  have status: "core_run (e_host E) stale s s'" if "serve_SETVM_STATUS E inparams s = Done (r, s')"
    using that by (auto simp: serve_SETVM_STATUS_def Let_def intro: u split: option.splits prod.splits if_splits)
  have start: "core_run (e_host E) stale s s'" if "serve_STARTAPP E procid inparams s = Done (r, s')"
    using that by (auto simp: serve_STARTAPP_def Let_def intro: run_StartApp
        split: option.splits prod.splits if_splits)
  have report: "core_run (e_host E) stale s s'" if "serve_GETVMREPORT E inparams s = Done (r, s')"
    using that by (auto simp: serve_GETVMREPORT_def Let_def intro: run_world
        split: option.splits prod.splits if_splits saml.splits)
  show ?thesis
    using assms status start report
    by (auto simp: serviceRequest_def dest: serve_queries_state(1-3) split: if_splits)
qed

section \<open>The reachable states of the service\<close>

text \<open>
  One step of the core when a request, a clean-up round or a Hyper-V round runs to its end before
  the next begins.  \<open>world\<close> is everything outside the program.
\<close>

inductive service_step :: "('w, 'h) env \<Rightarrow> 'w core \<Rightarrow> 'w core \<Rightarrow> bool" for E :: "('w, 'h) env" where
  request: "serviceRequest E (fst (generate_req_id n)) uReq inparams s = Done (r, s') \<Longrightarrow>
    fst (generate_req_id n) \<noteq> 0 \<Longrightarrow> service_step E s s'"
| clean: "service_step E s (snd (CleanVrtmTable (e_host E) age VM_STATUS_CANCELLED s))"
| clean_end: "0 < cleaners s \<Longrightarrow> getcancelledvmcount (proc_table s) = 0 \<Longrightarrow>
    service_step E s (s\<lparr>cleanup_status := 0, cleaners := cleaners s - 1\<rparr>)"
| hyperv: "service_step E s
    (snd (snd (snd (CleanVrtmTable_and_update_vm_status (e_host E) plat rows vms d i s))))"
| world: "service_step E s (s\<lparr>os := w\<rparr>)"

inductive_cases service_stepE: "service_step E s s'"

abbreviation service_run :: "('w, 'h) env \<Rightarrow> 'w core \<Rightarrow> 'w core \<Rightarrow> bool" where
  "service_run E \<equiv> (service_step E)\<^sup>*\<^sup>*"

lemma service_step_inv:
  "service_step E s s' \<Longrightarrow> table_inv (proc_table s) \<Longrightarrow> table_inv (proc_table s')"
  by (erule service_stepE)
    (auto intro: table_inv_serviceRequest simp: table_inv_CleanVrtmTable table_inv_hyperv_clean)

lemma service_run_inv:
  "service_run E s s' \<Longrightarrow> table_inv (proc_table s) \<Longrightarrow> table_inv (proc_table s')"
  by (induction rule: rtranclp_induct) (auto intro: service_step_inv)

section \<open>Properties\<close>

text \<open>
  C10: serving a request and running a clean-up pass do to the shared state only what a sequence of
  the table's locked methods, of writes to the outside world and of checked status updates can
  do: the step relation of the interleavings covers the operations.
\<close>

theorem operations_are_locked_steps:
  "(\<exists>r. serviceRequest E procid uReq inparams s = Done (r, s')) \<or>
     s' = snd (CleanVrtmTable (e_host E) age st s) \<Longrightarrow>
   core_run (e_host E) False s s'"
  using run_serviceRequest run_CleanVrtmTable by blast

theorem operations_are_locked_steps_witness:
  "core_run ref_host False (demo_state cancelled_table)
     (snd (CleanVrtmTable ref_host 0 VM_STATUS_CANCELLED (demo_state cancelled_table)))"
  using operations_are_locked_steps [of demo_env 6 VM2RP_GETRPID "[]" "demo_state cancelled_table" _ 0 VM_STATUS_CANCELLED]
  by simp

text \<open>
  The clean-up flag can get stuck: when the thread cannot be created, the flag is set all the
  same, no thread runs, and no later call starts one.
\<close>

lemma cleanup_flag_stuck:
  assumes "cleanup_status s \<noteq> 1" "getcancelledvmcount (proc_table s) \<noteq> 0"
    and "h_setdetach_ok H (os s)" "h_pthread_create H (os s) = (False, w)"
  shows "cleanup_status (cleanupService H s) = 1 \<and> cleaners (cleanupService H s) = cleaners s \<and>
    cleanupService H (cleanupService H s) = cleanupService H s"
  using assms by (simp_all add: cleanupService_def)

end
