(* ===== verification/Proxy.thy ===== *)
theory Proxy
  imports Session
begin

text \<open>
  The KVM proxy, \<open>vrtmproxy/kvm_proxy/vrtm_proxy.cpp\<close>: it is installed in the place of QEMU, and
  asks the core before it launches a measured VM.  \<open>None\<close> stands for undefined behaviour (a
  pointer that was not found is used) and for a run that never ends.
\<close>

section \<open>Asking the core\<close>

text \<open>\<open>ch_register\<close> does nothing: the lines that wrote to the socket are commented out.\<close>

definition ch_register :: "int \<Rightarrow> 'n \<Rightarrow> 'n" where
  "ch_register fd n = n"

definition channel_open :: "'n net \<Rightarrow> 'n \<Rightarrow> int \<times> 'n" where
  "channel_open N n = (let (fd, n') = ch_open N Linux None 0 n in if fd < 0 then (- 1, n') else (fd, n'))"

text \<open>The result and the global \<open>rp_fd\<close>.\<close>

definition conn_open :: "'n net \<Rightarrow> 'n \<Rightarrow> int \<times> int \<times> 'n" where
  "conn_open N n = (let (rp_fd, n') = channel_open N n in if rp_fd < 0 then (1, rp_fd, n') else (0, rp_fd, n'))"

text \<open>The message in a buffer of \<open>bufsize\<close> bytes whose payload part was cleared.\<close>

definition client_message :: "nat \<Rightarrow> u32 \<Rightarrow> int \<times> cstr \<Rightarrow> string option" where
  "client_message bufsize code enc =
     (let n = fst enc; h = \<lparr>m_reqID = code, m_reqSize = word_of_int n, m_ustatus = 0\<rparr>;
          len = int HEADER + n
      in if len < 0 \<or> int bufsize < len then None
         else Some (take (nat len) (pad bufsize (put_header h @ snd enc))))"

text \<open>Reading is tried again for as long as \<open>errno\<close> is 11 (EAGAIN).\<close>

partial_function (option) read_reply ::
  "(nat \<Rightarrow> 's \<Rightarrow> recv_result \<times> 's) \<Rightarrow> nat \<Rightarrow> 's \<Rightarrow> (string io \<times> 's) option"
where
  "read_reply rcv bufsize s =
     (case ch_read rcv bufsize s of
        (Io_error e, s') \<Rightarrow> if e = 11 then read_reply rcv bufsize s' else Some (Io_error e, s')
      | (Io_ok d, s') \<Rightarrow> Some (Io_ok d, s')
      | (Io_overrun, s') \<Rightarrow> Some (Io_overrun, s'))"

text \<open>Sending a message and reading the answer: its bytes, or nothing after an error.\<close>

definition exchange ::
  "(nat \<Rightarrow> 's \<Rightarrow> recv_result \<times> 's) \<Rightarrow> (string \<Rightarrow> 's \<Rightarrow> int \<times> 's) \<Rightarrow> nat \<Rightarrow> string \<Rightarrow> 's
     \<Rightarrow> (string option \<times> 's) option"
where
  "exchange rcv snd_fn bufsize msg s =
     (case ch_write snd_fn msg (length msg) s of
        None \<Rightarrow> None
      | Some (err, s1) \<Rightarrow>
          if err < 0 then Some (None, s1)
          else case read_reply rcv bufsize s1 of
                 None \<Rightarrow> None
               | Some (Io_overrun, s2) \<Rightarrow> None
               | Some (Io_error e, s2) \<Rightarrow> Some (None, s2)
               | Some (Io_ok data, s2) \<Rightarrow> Some (Some data, s2))"

definition get_rpcore_response ::
  "xml_lib \<Rightarrow> b64_lib \<Rightarrow> (nat \<Rightarrow> 's \<Rightarrow> recv_result \<times> 's) \<Rightarrow> (string \<Rightarrow> 's \<Rightarrow> int \<times> 's) \<Rightarrow> ('s \<Rightarrow> 's)
     \<Rightarrow> cstr \<Rightarrow> cstr \<Rightarrow> cstr \<Rightarrow> cstr \<Rightarrow> 's \<Rightarrow> (int \<times> 's) option"
where
  "get_rpcore_response X B rcv snd_fn ch_close kernel_path ramdisk_path disk_path uuid s =
     (case client_message PARAMSIZE VM2RP_STARTAPP
             (encodeVM2RP_STARTAPP X B ''foo'' (proxy_args kernel_path ramdisk_path disk_path uuid)
                (int (PARAMSIZE - HEADER)) []) of
        None \<Rightarrow> None
      | Some msg \<Rightarrow>
          (case exchange rcv snd_fn PARAMSIZE msg s of
             None \<Rightarrow> None
           | Some (None, s') \<Rightarrow> Some (- 1, ch_close s')
           | Some (Some data, s') \<Rightarrow>
               (case decodeRP2VM_STARTAPP X B 1024 0 [] (Some (cstr_of (drop HEADER data))) of
                  None \<Rightarrow> None
                | Some (ok, c) \<Rightarrow>
                    if ok \<and> m_ustatus (get_header data) = 0 \<and> 0 < atoi (cbuf_data c)
                    then Some (atoi (cbuf_data c), ch_close s')
                    else Some (- 1, ch_close s'))))"

section \<open>\<open>main\<close>: the command line\<close>

text \<open>
  What the scan of \<open>argv\<close> leaves behind.  The argument after the last one is a NULL pointer,
  which \<open>strstr\<close> must not be given.
\<close>

record launch =
  drive_data :: "cstr option"
  has_smbios :: bool
  kernel_path :: "cstr option"
  kernel_provided :: bool
  initrd_path :: "cstr option"
  append_index :: "nat option"

definition no_launch :: launch where
  "no_launch = \<lparr>drive_data = None, has_smbios = False, kernel_path = None, kernel_provided = False,
     initrd_path = None, append_index = None\<rparr>"

fun strstr :: "string \<Rightarrow> string \<Rightarrow> nat option" where
  "strstr pat [] = (if pat = [] then Some 0 else None)"
| "strstr pat (c # s) =
     (if take (length pat) (c # s) = pat then Some 0 else map_option Suc (strstr pat s))"

definition argv_at :: "cstr list \<Rightarrow> nat \<Rightarrow> cstr option" where
  "argv_at argv i = (if i < length argv then Some (argv ! i) else None)"

definition scan_arg :: "cstr list \<Rightarrow> nat \<Rightarrow> launch \<Rightarrow> launch option" where
  "scan_arg argv i l =
     (let a = argv ! i; next = argv_at argv (i + 1)
      in if a = ''-drive''
         then (case next of
                 None \<Rightarrow> None
               | Some d \<Rightarrow> Some (if strstr ''/disk.config'' d = None then l\<lparr>drive_data := Some d\<rparr> else l))
         else if a = ''-smbios'' then Some (l\<lparr>has_smbios := True\<rparr>)
         else if a = ''-kernel'' then Some (l\<lparr>kernel_path := next, kernel_provided := True\<rparr>)
         else if a = ''-initrd'' then Some (l\<lparr>initrd_path := next\<rparr>)
         else if a = ''-append'' then Some (l\<lparr>append_index := Some i\<rparr>)
         else Some l)"

fun scan_args :: "cstr list \<Rightarrow> nat list \<Rightarrow> launch \<Rightarrow> launch option" where
  "scan_args argv [] l = Some l"
| "scan_args argv (i # is) l =
     (case scan_arg argv i l of None \<Rightarrow> None | Some l' \<Rightarrow> scan_args argv is l')"

text \<open>
  The disk path lies between \<open>file=\<close> and the first comma of the drive; the UUID is the last
  directory of the disk path without its last five characters.
\<close>

definition strrchr :: "cstr \<Rightarrow> char \<Rightarrow> cstr option" where
  "strrchr s c = (if c \<in> set s then Some (c # rev (takeWhile (\<lambda>d. d \<noteq> c) (rev s))) else None)"

definition signed_strncpy_s :: "nat \<Rightarrow> cstr \<Rightarrow> int \<Rightarrow> cstr" where
  "signed_strncpy_s dmax src n = (if n < 0 then [] else strncpy_s dmax src (nat n))"

definition PATH_MAX :: nat where "PATH_MAX = 4096"

definition disk_and_uuid :: "cstr \<Rightarrow> (cstr \<times> cstr \<times> cstr) option" where
  "disk_and_uuid drive =
     (case strstr ''file='' drive of
        None \<Rightarrow> None
      | Some p \<Rightarrow>
          if CHR '','' \<notin> set drive then None
          else let start = p + 5;
                   disk_path_len = int (length (takeWhile (\<lambda>c. c \<noteq> CHR '','') drive)) - int start;
                   disk_path = signed_strncpy_s PATH_MAX (drop start drive) disk_path_len;
                   trust_report_dir = signed_strncpy_s 1024 disk_path (disk_path_len - 5)
               in case strrchr trust_report_dir (CHR ''/'') of
                    None \<Rightarrow> None
                  | Some u \<Rightarrow> Some (disk_path, trust_report_dir, strcpy_s 65 (tl u)))"

text \<open>The kernel arguments with the address of the core appended.\<close>

definition kernel_args_for :: "cstr \<Rightarrow> cstr \<Rightarrow> int \<Rightarrow> cstr" where
  "kernel_args_for old vrtmcore_ip vrtmcore_port =
     (let k = strcat_s 4096 [] old;
          k = strcat_s 4096 k '' vrtmcore_ip='';
          k = strcat_s 4096 k vrtmcore_ip;
          k = strcat_s 4096 k '' vrtmcore_port=''
      in strcat_s 4096 k (snprintf 32 (show_int vrtmcore_port)))"

definition patch_kernel_args :: "launch \<Rightarrow> cstr \<Rightarrow> int \<Rightarrow> cstr list \<Rightarrow> cstr list option" where
  "patch_kernel_args l ip port argv =
     (case append_index l of
        None \<Rightarrow> Some argv
      | Some i \<Rightarrow>
          if \<not> kernel_provided l then Some argv
          else if i + 1 < length argv
               then Some (argv[i + 1 := kernel_args_for (argv ! (i + 1)) ip port])
               else None)"

section \<open>\<open>main\<close>\<close>

text \<open>
  What the process does in the end: it becomes QEMU with these arguments, or it exits.  A logger
  that cannot be set up (exit with 1 before anything else) and an \<open>execve\<close> that returns are left out.
  \<open>getenv\<close> is a parameter, and \<open>rcv\<close>, \<open>snd_fn\<close> and \<open>ch_close\<close> take the descriptor.
\<close>

datatype proxy_end = Exec "cstr list" | Exit int

definition QEMU_SYSTEM_PATH :: cstr where
  "QEMU_SYSTEM_PATH = ''/usr/bin/qemu-system-x86_64_orig''"

definition proxy_main ::
  "xml_lib \<Rightarrow> b64_lib \<Rightarrow> 'w host \<Rightarrow> 'w net \<Rightarrow> (int \<Rightarrow> nat \<Rightarrow> 'w \<Rightarrow> recv_result \<times> 'w)
     \<Rightarrow> (int \<Rightarrow> string \<Rightarrow> 'w \<Rightarrow> int \<times> 'w) \<Rightarrow> (int \<Rightarrow> 'w \<Rightarrow> 'w) \<Rightarrow> (cstr \<Rightarrow> cstr option)
     \<Rightarrow> cstr list \<Rightarrow> 'w \<Rightarrow> (proxy_end \<times> 'w) option"
where
  "proxy_main X B H N rcv snd_fn ch_close getenv argv0 w =
     (let argv = argv0[0 := QEMU_SYSTEM_PATH]
      in case scan_args argv [0..<length argv] no_launch of
           None \<Rightarrow> None
         | Some l \<Rightarrow>
             (case drive_data l of
                None \<Rightarrow> Some (Exec argv, w)
              | Some drive \<Rightarrow>
                  if \<not> has_smbios l then Some (Exec argv, w)
                  else case disk_and_uuid drive of
                         None \<Rightarrow> None
                       | Some (disk_path, trust_report_dir, uuid) \<Rightarrow>
                           let manifest_path = snprintf PATH_MAX (trust_report_dir @ ''/trustpolicy.xml'')
                           in if \<not> h_access H manifest_path w then Some (Exec argv, w)
                              else let (c, rp_fd, w) = conn_open N w
                                   in if c \<noteq> 0 then Some (Exit 0, w)
                                      else let kernel = (case kernel_path l of None \<Rightarrow> [] | Some k \<Rightarrow> k);
                                               initrd = (case initrd_path l of None \<Rightarrow> [] | Some k \<Rightarrow> k);
                                               ip = (case getenv ''VRTMCORE_IPADDR'' of
                                                       None \<Rightarrow> ''127.0.0.1'' | Some i \<Rightarrow> i);
                                               port = (case getenv ''VRTMCORE_PORT'' of
                                                       None \<Rightarrow> 16005 | Some p \<Rightarrow> atoi p)
                                           in case get_rpcore_response X B (rcv rp_fd) (snd_fn rp_fd)
                                                     (ch_close rp_fd) kernel initrd disk_path uuid w of
                                                None \<Rightarrow> None
                                              | Some (rp_domid, w) \<Rightarrow>
                                                  if rp_domid \<le> 0 then Some (Exit 1, w)
                                                  else map_option (\<lambda>av. (Exec av, w))
                                                         (patch_kernel_args l ip port argv)))"

end
