(* ===== verification/Listener.thy ===== *)
theory Listener
  imports Proxy
begin

text \<open>
  The libvirt listener of the core, \<open>vrtmcore/vrtm_listener.cpp\<close>: it turns the life-cycle events
  of the domains into SETVM_STATUS requests to the core.  The call-backs and \<open>update_vm_status\<close> are
  the same text in \<open>vrtmlistener/kvm_listener\<close>, whose own loop and \<open>main\<close> are in \<open>Kvm_Listener\<close>;
  the definitions they share take a record that may have more fields.
\<close>

section \<open>Reporting a status\<close>

abbreviation LISTENER_PARAMSIZE :: nat where "LISTENER_PARAMSIZE \<equiv> 8192"

definition listener_channel_open :: "'n net \<Rightarrow> 'n \<Rightarrow> int \<times> 'n" where
  "listener_channel_open N n =
     (let (fd, n') = ch_open N Linux None 0 n in if fd < 0 then (- 1, n') else (fd, ch_register fd n'))"

text \<open>\<open>None\<close> as for the proxy: undefined behaviour, or a wait that never ends.\<close>

definition update_vm_status ::
  "xml_lib \<Rightarrow> b64_lib \<Rightarrow> 'n net \<Rightarrow> (int \<Rightarrow> nat \<Rightarrow> 'n \<Rightarrow> recv_result \<times> 'n)
     \<Rightarrow> (int \<Rightarrow> string \<Rightarrow> 'n \<Rightarrow> int \<times> 'n) \<Rightarrow> (int \<Rightarrow> 'n \<Rightarrow> 'n) \<Rightarrow> cstr \<Rightarrow> int \<Rightarrow> 'n \<Rightarrow> (int \<times> 'n) option"
where
  "update_vm_status X B N rcv snd_fn ch_close uuid vm_status n =
     (case listener_channel_open N n of
        (fd1, n1) \<Rightarrow>
          if fd1 < 0 then Some (- 1, n1)
          else case client_message LISTENER_PARAMSIZE VM2RP_SETVM_STATUS
                      (encodeVM2RP_SETVM_STATUS X B uuid vm_status (int (LISTENER_PARAMSIZE - HEADER)) []) of
                 None \<Rightarrow> None
               | Some msg \<Rightarrow>
                   (case exchange (rcv fd1) (snd_fn fd1) LISTENER_PARAMSIZE msg n1 of
                      None \<Rightarrow> None
                    | Some (None, n2) \<Rightarrow> Some (- 1, ch_close fd1 n2)
                    | Some (Some data, n2) \<Rightarrow>
                        (case decodeRP2VM_SETVM_STATUS X B 1024 0 [] (Some (cstr_of (drop HEADER data))) of
                           None \<Rightarrow> None
                         | Some (ok, c) \<Rightarrow>
                             if ok \<and> m_ustatus (get_header data) = 0 \<and> atoi (cbuf_data c) = 0
                             then Some (atoi (cbuf_data c), ch_close fd1 n2)
                             else Some (- 1, ch_close fd1 n2))))"

section \<open>Events\<close>

text \<open>
  The enumerations of \<open>libvirt.h\<close> the callback compares with, as a parameter; \<open>libvirt_consts\<close> has
  the documented values.
\<close>

record virconsts =
  VIR_DOMAIN_EVENT_UNDEFINED :: int
  VIR_DOMAIN_EVENT_UNDEFINED_REMOVED :: int
  VIR_DOMAIN_EVENT_STARTED :: int
  VIR_DOMAIN_EVENT_STOPPED :: int
  VIR_DOMAIN_EVENT_STOPPED_SHUTDOWN :: int
  VIR_DOMAIN_EVENT_STOPPED_DESTROYED :: int
  VIR_DOMAIN_EVENT_STOPPED_CRASHED :: int
  VIR_DOMAIN_EVENT_STOPPED_FAILED :: int
  VIR_DOMAIN_CRASHED :: int

text \<open>The status that is reported, if any.\<close>

definition event_status :: "virconsts \<Rightarrow> int \<Rightarrow> int \<Rightarrow> int option" where
  "event_status C eventType detail =
     (if eventType = VIR_DOMAIN_EVENT_UNDEFINED C
      then (if detail = VIR_DOMAIN_EVENT_UNDEFINED_REMOVED C then Some VM_STATUS_DELETED else None)
      else if eventType = VIR_DOMAIN_EVENT_STOPPED C
      then (if detail \<in> {VIR_DOMAIN_EVENT_STOPPED_DESTROYED C, VIR_DOMAIN_EVENT_STOPPED_SHUTDOWN C,
                         VIR_DOMAIN_EVENT_STOPPED_FAILED C, VIR_DOMAIN_EVENT_STOPPED_CRASHED C}
            then Some VM_STATUS_STOPPED else None)
      else if eventType = VIR_DOMAIN_CRASHED C then Some VM_STATUS_STOPPED
      else if eventType = VIR_DOMAIN_EVENT_STARTED C then Some VM_STATUS_STARTED
      else None)"

text \<open>The state of the thread: the flags \<open>run\<close> and \<open>exit_status\<close>, and the world.\<close>

record 'n listener =
  lrun :: bool
  lexit :: int
  lnet :: 'n

text \<open>\<open>report\<close> is \<open>update_vm_status\<close> on the world; its result is not looked at.\<close>

definition domainEventCallback ::
  "(cstr \<Rightarrow> int \<Rightarrow> 'n \<Rightarrow> (int \<times> 'n) option) \<Rightarrow> virconsts \<Rightarrow> cstr \<Rightarrow> int \<Rightarrow> int
     \<Rightarrow> ('n, 'z) listener_scheme \<Rightarrow> ('n, 'z) listener_scheme option"
where
  "domainEventCallback report C vm_uuid event detail l =
     (case event_status C event detail of
        None \<Rightarrow> Some l
      | Some vm_status \<Rightarrow>
          map_option (\<lambda>(r, n). l\<lparr>lnet := n\<rparr>) (report (take 36 vm_uuid) vm_status (lnet l)))"

definition connectClose :: "('n, 'z) listener_scheme \<Rightarrow> ('n, 'z) listener_scheme" where
  "connectClose l = l\<lparr>lrun := False\<rparr>"

text \<open>
  One call of \<open>virEventRunDefaultImpl\<close> runs the call-backs of the events that are there, in their
  order; a call that fails is logged and runs none.
\<close>

datatype dispatch = Domain_event cstr int int | Connection_closed

definition dispatch_one ::
  "(cstr \<Rightarrow> int \<Rightarrow> 'n \<Rightarrow> (int \<times> 'n) option) \<Rightarrow> virconsts \<Rightarrow> dispatch
     \<Rightarrow> ('n, 'z) listener_scheme \<Rightarrow> ('n, 'z) listener_scheme option"
where
  "dispatch_one report C d l =
     (case d of
        Domain_event u e k \<Rightarrow> domainEventCallback report C u e k l
      | Connection_closed \<Rightarrow> Some (connectClose l))"

fun dispatch_all ::
  "(cstr \<Rightarrow> int \<Rightarrow> 'n \<Rightarrow> (int \<times> 'n) option) \<Rightarrow> virconsts \<Rightarrow> dispatch list
     \<Rightarrow> ('n, 'z) listener_scheme \<Rightarrow> ('n, 'z) listener_scheme option"
where
  "dispatch_all report C [] l = Some l"
| "dispatch_all report C (d # ds) l =
     (case dispatch_one report C d l of
        None \<Rightarrow> None
      | Some l' \<Rightarrow> dispatch_all report C ds l')"

text \<open>
  The loop \<open>while (run)\<close> on the calls still to come; it ends with those that are left.  The list
  stands for all calls up to the one that closes the connection; used up without one, the code
  would keep polling.
\<close>

fun poll_loop ::
  "(cstr \<Rightarrow> int \<Rightarrow> 'n \<Rightarrow> (int \<times> 'n) option) \<Rightarrow> virconsts \<Rightarrow> dispatch list list \<Rightarrow> 'n listener
     \<Rightarrow> (dispatch list list \<times> 'n listener) option"
where
  "poll_loop report C [] l = Some ([], l)"
| "poll_loop report C (c # cs) l =
     (if \<not> lrun l then Some (c # cs, l)
      else case dispatch_all report C c l of
             None \<Rightarrow> None
           | Some l' \<Rightarrow> poll_loop report C cs l')"

text \<open>
  One round of \<open>while (exit_status)\<close>: which of the calls that set up the connection succeed, and
  what the calls of the poll dispatch.  The round ends with \<open>run=1\<close>, whichever way it went.
  Nothing sets \<open>exit_status\<close>: the handler \<open>stopOnSignal\<close> is not installed here.
\<close>

record vir_setup =
  at_initialize :: bool
  at_event_impl :: bool
  at_open :: bool
  at_register :: bool
  at_keepalive :: bool

record attempt = vir_setup +
  at_calls :: "dispatch list list"

definition listen_round ::
  "(cstr \<Rightarrow> int \<Rightarrow> 'n \<Rightarrow> (int \<times> 'n) option) \<Rightarrow> virconsts \<Rightarrow> attempt \<Rightarrow> 'n listener \<Rightarrow> 'n listener option"
where
  "listen_round report C a l =
     (if \<not> at_initialize a \<or> \<not> at_event_impl a \<or> \<not> at_open a \<or> \<not> at_register a
      then Some (l\<lparr>lrun := True\<rparr>)
      else map_option (\<lambda>(_, l'). l'\<lparr>lrun := True\<rparr>)
             (poll_loop report C (at_calls a) (if at_keepalive a then l else l\<lparr>lrun := False\<rparr>)))"

fun listen_libvirt_events ::
  "(cstr \<Rightarrow> int \<Rightarrow> 'n \<Rightarrow> (int \<times> 'n) option) \<Rightarrow> virconsts \<Rightarrow> attempt list \<Rightarrow> 'n listener
     \<Rightarrow> (attempt list \<times> 'n listener) option"
where
  "listen_libvirt_events report C [] l = Some ([], l)"
| "listen_libvirt_events report C (a # as) l =
     (if lexit l = 0 then Some (a # as, l)
      else case listen_round report C a l of
             None \<Rightarrow> None
           | Some l' \<Rightarrow> listen_libvirt_events report C as l')"

section \<open>Starting the listener\<close>

text \<open>
  The thread that starts the listener waits until \<open>exit_status\<close> is 0; \<open>Waits\<close> stands for a
  wait that goes on when the given attempts are used up.  \<open>created\<close> is the result of
  \<open>pthread_create\<close>: 0, or a positive error number, so that the test \<open>< 0\<close> never holds.
\<close>

datatype listener_end = Listener_returns int | Listener_waits

definition await_exit :: "'n listener \<Rightarrow> listener_end" where
  "await_exit l = (if lexit l = 0 then Listener_returns 0 else Listener_waits)"

definition start_vrtm_listener ::
  "(cstr \<Rightarrow> int \<Rightarrow> 'n \<Rightarrow> (int \<times> 'n) option) \<Rightarrow> virconsts \<Rightarrow> int \<Rightarrow> attempt list \<Rightarrow> 'n listener
     \<Rightarrow> (listener_end \<times> 'n listener) option"
where
  "start_vrtm_listener report C created attempts l =
     (if created \<noteq> 0 then Some (await_exit l, l)
      else map_option (\<lambda>(_, l'). (await_exit l', l')) (listen_libvirt_events report C attempts l))"

section \<open>Lemmas\<close>

text \<open>The values of \<open>libvirt.h\<close>.\<close>

definition libvirt_consts :: virconsts where
  "libvirt_consts = \<lparr>VIR_DOMAIN_EVENT_UNDEFINED = 1, VIR_DOMAIN_EVENT_UNDEFINED_REMOVED = 0,
     VIR_DOMAIN_EVENT_STARTED = 2, VIR_DOMAIN_EVENT_STOPPED = 5,
     VIR_DOMAIN_EVENT_STOPPED_SHUTDOWN = 0, VIR_DOMAIN_EVENT_STOPPED_DESTROYED = 1,
     VIR_DOMAIN_EVENT_STOPPED_CRASHED = 2, VIR_DOMAIN_EVENT_STOPPED_FAILED = 5,
     VIR_DOMAIN_CRASHED = 6\<rparr>"

lemma event_status_range: "event_status C e d \<in> {None, Some VM_STATUS_STARTED, Some VM_STATUS_STOPPED, Some VM_STATUS_DELETED}"
  by (simp add: event_status_def)

text \<open>
  What reaches the core: of the calls of one connection those up to the first that closes it,
  and of their events those with a status, in their order.
\<close>

definition reported :: "virconsts \<Rightarrow> dispatch list \<Rightarrow> (cstr \<times> int) list" where
  "reported C ds = concat (map (\<lambda>d. case d of
       Domain_event u e k \<Rightarrow> (case event_status C e k of None \<Rightarrow> [] | Some st \<Rightarrow> [(take 36 u, st)])
     | Connection_closed \<Rightarrow> []) ds)"

fun heard :: "dispatch list list \<Rightarrow> dispatch list" where
  "heard [] = []"
| "heard (c # cs) = c @ (if Connection_closed \<in> set c then [] else heard cs)"

definition heard_in :: "attempt \<Rightarrow> dispatch list" where
  "heard_in a =
     (if at_initialize a \<and> at_event_impl a \<and> at_open a \<and> at_register a \<and> at_keepalive a
      then heard (at_calls a) else [])"

definition tell_all ::
  "(cstr \<Rightarrow> int \<Rightarrow> 'n \<Rightarrow> (int \<times> 'n) option) \<Rightarrow> (cstr \<times> int) list \<Rightarrow> 'n \<Rightarrow> 'n"
where
  "tell_all report rs n = fold (\<lambda>(u, st) n. snd (the (report u st n))) rs n"

lemma reported_simps [simp]:
  "reported C [] = []"
  "reported C (ds @ ds') = reported C ds @ reported C ds'"
  by (simp_all add: reported_def)

lemma tell_all_simps [simp]:
  "tell_all report [] n = n"
  "tell_all report (rs @ rs') n = tell_all report rs' (tell_all report rs n)"
  by (simp_all add: tell_all_def)

lemma dispatch_one_result:
  assumes "\<And>u st n. report u st n \<noteq> None"
  shows "dispatch_one report C d l =
     Some (l\<lparr>lrun := lrun l \<and> Connection_closed \<noteq> d, lnet := tell_all report (reported C [d]) (lnet l)\<rparr>)"
  using assms by (fastforce simp: dispatch_one_def domainEventCallback_def connectClose_def reported_def
      tell_all_def split: dispatch.splits option.splits)

lemma dispatch_all_result:
  assumes "\<And>u st n. report u st n \<noteq> None"
  shows "dispatch_all report C ds l =
     Some (l\<lparr>lrun := lrun l \<and> Connection_closed \<notin> set ds, lnet := tell_all report (reported C ds) (lnet l)\<rparr>)"
proof (induction ds arbitrary: l)
  case (Cons d ds)
  have "reported C (d # ds) = reported C [d] @ reported C ds" by (simp add: reported_def)
  then show ?case by (auto simp: Cons dispatch_one_result [of report, OF assms])
qed simp

lemma poll_loop_result:
  assumes "\<And>u st n. report u st n \<noteq> None"
  shows "\<exists>rest r. poll_loop report C cs l =
     Some (rest, l\<lparr>lrun := r, lnet := tell_all report (reported C (if lrun l then heard cs else [])) (lnet l)\<rparr>)"
proof (induction cs arbitrary: l)
  case Nil
  show ?case by (auto intro!: exI [of _ "lrun l"])
next
  case (Cons c cs)
  show ?case
  proof (cases "lrun l")
    case True
    then show ?thesis
      using Cons [of "the (dispatch_all report C c l)"]
      by (auto simp: dispatch_all_result [of report, OF assms])
  qed (auto intro!: exI [of _ False])
qed

lemma listen_round_result:
  assumes "\<And>u st n. report u st n \<noteq> None" "lrun l"
  shows "listen_round report C a l =
     Some (l\<lparr>lrun := True, lnet := tell_all report (reported C (heard_in a)) (lnet l)\<rparr>)"
  using poll_loop_result [of report C "at_calls a" "if at_keepalive a then l else l\<lparr>lrun := False\<rparr>", OF assms(1)] assms(2)
  by (auto simp: listen_round_def heard_in_def)

end
