(* ===== verification/Client_Props.thy ===== *)
theory Client_Props
  imports Listener
begin

text \<open>
  What the two clients of the core do with its answers: the proxy launches a measured VM only
  after the core has accepted it, and the listener reports the events of the domains.
\<close>

section \<open>One exchange\<close>

context full_duplex
begin

lemma exchange_message:
  assumes pend: "pending s = put_header h @ payload"
    and size: "m_reqSize h = word_of_nat (length payload)" "length payload + HEADER \<le> bufsize"
      "bufsize \<le> PADDEDREQ"
  shows "\<exists>s'. exchange rcv snd_fn bufsize msg s = Some (Some (put_header h @ payload), s') \<and>
    sent s' = sent s @ msg"
proof -
  obtain s1 where w: "ch_write snd_fn msg (length msg) s = Some (int (length msg), s1)"
    "sent s1 = sent s @ msg"
    using ch_write_all [of "length msg" msg s] by auto
  have p1: "pending s1 = put_header h @ payload" using ch_write_pending [OF w(1)] pend by simp
  obtain s2 where r: "ch_read rcv bufsize s1 = (Io_ok (put_header h @ payload), s2)"
    using ch_read_message_in [OF p1 size] by blast
  have "sent s2 = sent s1" using ch_read_sent [of bufsize s1] r by simp
  with w r show ?thesis
    by (simp add: exchange_def read_reply.simps [of rcv bufsize s1])
qed

lemma exchange_sent:
  assumes "exchange rcv snd_fn n msg s = Some (r, s')"
  shows "sent s' = sent s @ msg"
proof -
  obtain s1 where w: "ch_write snd_fn msg (length msg) s = Some (int (length msg), s1)"
    "sent s1 = sent s @ msg"
    using ch_write_all [of "length msg" msg s] by auto
  obtain x s2 where x: "ch_read rcv n s1 = (x, s2)" by force
  then have "sent s2 = sent s1" using ch_read_sent by (metis snd_conv)
  with assms w x ch_read_no_error [of n s1] show ?thesis
    by (auto simp: exchange_def read_reply.simps [of rcv n s1] split: io.splits)
qed

end

lemma pad_exact [simp]: "pad (length s) s = s"
  by (simp add: pad_def)

lemma client_message_doc:
  assumes "length t + HEADER \<le> bufsize"
  shows "client_message bufsize code (int (length t), t) =
    Some (put_header \<lparr>m_reqID = code, m_reqSize = word_of_nat (length t), m_ustatus = 0\<rparr> @ t)"
proof -
  let ?m = "put_header \<lparr>m_reqID = code, m_reqSize = word_of_nat (length t), m_ustatus = 0\<rparr> @ t"
  have l: "length ?m = HEADER + length t" by simp
  have "take (HEADER + length t) (pad bufsize ?m) = pad (length ?m) ?m"
    using assms unfolding l by (intro pad_pad) simp
  also have "\<dots> = ?m" by (rule pad_exact)
  finally have "take (HEADER + length t) (pad bufsize ?m) = ?m" .
  moreover have "nat (int HEADER + int (length t)) = HEADER + length t" by simp
  ultimately show ?thesis
    using assms by (simp add: client_message_def Let_def)
qed

text \<open>The bytes of a request and of a positive answer, as documents that fit.\<close>

abbreviation request_bytes :: "u32 \<Rightarrow> string \<Rightarrow> string" where
  "request_bytes code t \<equiv>
     put_header \<lparr>m_reqID = code, m_reqSize = word_of_nat (length t), m_ustatus = 0\<rparr> @ t"

lemma rpc_text_wire:
  assumes "xml_law X" "b64_law B" "list_all inert_char m" "length (rpc_text X B m args) < MAX_LEN"
  shows "nul_free (rpc_text X B m args)" "store_xml (rpc_text X B m args) = rpc_text X B m args"
proof -
  have "inert (rpc_doc m (map rpc_param (map (b64_write B) args)))"
    by (rule inert_rpc_doc_b64 [OF assms(2,3)])
  then show "nul_free (rpc_text X B m args)"
    using xml_lawD(3) [OF assms(1)] by (simp add: rpc_text_def)
  show "store_xml (rpc_text X B m args) = rpc_text X B m args"
    using assms(4) by (simp add: store_xml_def)
qed

lemma launch_request_message:
  assumes law: "xml_law X" "b64_law B" and a: "\<forall>a \<in> {k, r, d, u}. wire_arg a"
    and req: "length (rpc_text X B ''foo'' (proxy_args k r d u)) < MAX_LEN"
  shows "client_message PARAMSIZE VM2RP_STARTAPP (encodeVM2RP_STARTAPP X B ''foo'' (proxy_args k r d u) n []) =
    Some (request_bytes VM2RP_STARTAPP (rpc_text X B ''foo'' (proxy_args k r d u)))"
proof -
  let ?q = "rpc_text X B ''foo'' (proxy_args k r d u)"
  have "\<forall>a \<in> set (proxy_args k r d u). wire_arg a"
    using a by (simp add: proxy_args_def wire_arg_def nul_free_def)
  from args_to_xmlrpc_law [OF law(2) this, of X "''foo''"]
  have "encodeVM2RP_STARTAPP X B ''foo'' (proxy_args k r d u) n [] = (int (length ?q), ?q)"
    using rpc_text_wire(2) [OF law method_names(4) req] by (simp add: encodeVM2RP_STARTAPP_def)
  then show ?thesis using client_message_doc [of ?q PARAMSIZE] req by simp
qed

context full_duplex
begin

lemma exchange_doc:
  assumes "pending s = request_bytes code t" "length t < MAX_LEN" "8192 \<le> bufsize" "bufsize \<le> PADDEDREQ"
  shows "\<exists>s'. exchange rcv snd_fn bufsize msg s = Some (Some (request_bytes code t), s') \<and>
    sent s' = sent s @ msg"
  using assms by (intro exchange_message) simp_all

lemma get_rpcore_response_reply:
  assumes law: "xml_law X" "b64_law B" and a: "\<forall>a \<in> {k, r, d, u}. wire_arg a"
    and req: "length (rpc_text X B ''foo'' (proxy_args k r d u)) < MAX_LEN"
    and v: "int32 v" and rep: "length (rpc_text X B ''StartApp'' [show_int v]) < MAX_LEN"
    and pend: "pending s = request_bytes VM2RP_STARTAPP (rpc_text X B ''StartApp'' [show_int v])"
  shows "\<exists>s'. get_rpcore_response X B rcv snd_fn cl k r d u s =
      Some (if 0 < v then v else - 1, cl s') \<and>
    sent s' = sent s @ request_bytes VM2RP_STARTAPP (rpc_text X B ''foo'' (proxy_args k r d u))"
proof -
  let ?q = "rpc_text X B ''foo'' (proxy_args k r d u)" and ?t = "rpc_text X B ''StartApp'' [show_int v]"
  let ?h = "\<lparr>m_reqID = VM2RP_STARTAPP, m_reqSize = word_of_nat (length ?t), m_ustatus = 0 :: u32\<rparr>"
  note m = launch_request_message [OF law a req]
  obtain s' where e: "exchange rcv snd_fn PARAMSIZE (request_bytes VM2RP_STARTAPP ?q) s =
      Some (Some (request_bytes VM2RP_STARTAPP ?t), s')"
    "sent s' = sent s @ request_bytes VM2RP_STARTAPP ?q"
    using exchange_doc [OF pend rep, of PARAMSIZE] by auto
  have t: "nul_free ?t" "store_xml ?t = ?t"
    by (rule rpc_text_wire [OF law method_names(3) rep])+
  have "encodeRP2VM_STARTAPP X B (show_int v) (Some []) = (int (length ?t), Some ?t)"
    using cbuf_to_xmlrpc_law [OF law(2) wire_arg_show_int [OF v], of X "''StartApp''" "[]"] t
    by (simp add: encodeRP2VM_STARTAPP_def)
  then have dec: "decodeRP2VM_STARTAPP X B 1024 0 [] (Some ?t) =
      Some (True, \<lparr>xmldata_size = int (length (show_int v)), psize = int (length (show_int v)), cbuf_data = show_int v\<rparr>)"
    using STARTAPP_reply_roundtrip [OF law v _ rep, of 1024 0 "[]" "[]"] by simp
  have g: "get_header (put_header ?h @ ?t) = ?h" "drop HEADER (put_header ?h @ ?t) = ?t" "cstr_of ?t = ?t"
    using get_put_header t(1) by simp_all
  have "get_rpcore_response X B rcv snd_fn cl k r d u s = Some (if 0 < v then v else - 1, cl s')"
    unfolding get_rpcore_response_def
    by (simp only: m e(1) option.case g prod.case dec) (simp add: atoi_show_int [OF v])
  with e(2) show ?thesis by blast
qed

lemma update_vm_status_reply:
  assumes law: "xml_law X" "b64_law B" and u: "wire_arg u" and st: "int32 st"
    and req: "length (rpc_text X B ''set_vm_uuid'' [u, show_int st]) < MAX_LEN"
    and v: "int32 v" and rep: "length (rpc_text X B ''update_vm_status'' [show_int v]) < MAX_LEN"
    and op: "listener_channel_open N s0 = (fd, s)" "0 \<le> fd" "rcvs fd = rcv" "sends fd = snd_fn" "cls fd = cl"
    and pend: "pending s = request_bytes VM2RP_SETVM_STATUS (rpc_text X B ''update_vm_status'' [show_int v])"
  shows "\<exists>s'. update_vm_status X B N rcvs sends cls u st s0 =
      Some (if v = 0 then 0 else - 1, cl s') \<and>
    sent s' = sent s @ request_bytes VM2RP_SETVM_STATUS (rpc_text X B ''set_vm_uuid'' [u, show_int st])"
proof -
  let ?q = "rpc_text X B ''set_vm_uuid'' [u, show_int st]" and ?t = "rpc_text X B ''update_vm_status'' [show_int v]"
  let ?h = "\<lparr>m_reqID = VM2RP_SETVM_STATUS, m_reqSize = word_of_nat (length ?t), m_ustatus = 0 :: u32\<rparr>"
  have "\<forall>a \<in> set [u, show_int st]. wire_arg a" using u st by simp
  from args_to_xmlrpc_law [OF law(2) this, of X "''set_vm_uuid''"]
  have "encodeVM2RP_SETVM_STATUS X B u st n [] = (int (length ?q), ?q)" for n
    using rpc_text_wire(2) [OF law method_names(1) req] st by (simp add: encodeVM2RP_SETVM_STATUS_def)
  then have m: "client_message LISTENER_PARAMSIZE VM2RP_SETVM_STATUS (encodeVM2RP_SETVM_STATUS X B u st n []) =
      Some (request_bytes VM2RP_SETVM_STATUS ?q)" for n
    using client_message_doc [of ?q LISTENER_PARAMSIZE] req by simp
  obtain s' where e: "exchange rcv snd_fn LISTENER_PARAMSIZE (request_bytes VM2RP_SETVM_STATUS ?q) s =
      Some (Some (request_bytes VM2RP_SETVM_STATUS ?t), s')"
    "sent s' = sent s @ request_bytes VM2RP_SETVM_STATUS ?q"
    using exchange_doc [OF pend rep, of LISTENER_PARAMSIZE] by auto
  have t: "nul_free ?t" "store_xml ?t = ?t"
    by (rule rpc_text_wire [OF law method_names(2) rep])+
  have "encodeRP2VM_SETVM_STATUS X B (show_int v) (Some []) = (int (length ?t), Some ?t)"
    using cbuf_to_xmlrpc_law [OF law(2) wire_arg_show_int [OF v], of X "''update_vm_status''" "[]"] t
    by (simp add: encodeRP2VM_SETVM_STATUS_def)
  then have dec: "decodeRP2VM_SETVM_STATUS X B 1024 0 [] (Some ?t) =
      Some (True, \<lparr>xmldata_size = int (length (show_int v)), psize = int (length (show_int v)), cbuf_data = show_int v\<rparr>)"
    using SETVM_STATUS_reply_roundtrip [OF law v _ rep, of 1024 0 "[]" "[]"] by simp
  have g: "get_header (put_header ?h @ ?t) = ?h" "drop HEADER (put_header ?h @ ?t) = ?t" "cstr_of ?t = ?t"
    using get_put_header t(1) by simp_all
  have zero: "atoi (show_int 0) = 0" by (simp add: atoi_show_int int32_def)
  have "update_vm_status X B N rcvs sends cls u st s0 =
      Some (if v = 0 then 0 else - 1, cl s')"
    unfolding update_vm_status_def op(1) prod.case op(3-5)
    by (simp only: m e(1) option.case g prod.case dec) (use op(2) v zero in \<open>simp add: atoi_show_int\<close>)
  with e(2) show ?thesis by blast
qed

end

section \<open>The command line of QEMU\<close>

lemma strstr_prefix: "strstr pat (pat @ s) = Some 0"
proof -
  have "take (length pat) (pat @ s) = pat" by simp
  then show ?thesis by (cases "pat @ s") (auto simp del: append_eq_conv_conj)
qed

lemma takeWhile_until: "x \<notin> set a \<Longrightarrow> takeWhile (\<lambda>c. c \<noteq> x) (a @ x # b) = a"
  by (induction a) auto

lemma strrchr_last: "c \<notin> set u \<Longrightarrow> strrchr (d @ c # u) c = Some (c # u)"
proof -
  assume "c \<notin> set u"
  then have "takeWhile (\<lambda>x. x \<noteq> c) (rev u @ c # rev d) = rev u"
    by (auto simp: takeWhile_append)
  then show ?thesis by (simp add: strrchr_def)
qed

lemma signed_strncpy_exact:
  "n = int (length p) \<Longrightarrow> length p < dmax \<Longrightarrow> length p \<le> RSIZE_MAX_STR \<Longrightarrow> signed_strncpy_s dmax (p @ s) n = p"
  by (simp add: signed_strncpy_s_def strncpy_s_def)

text \<open>The shape of the drive argument nova passes.\<close>

lemma disk_and_uuid_shape:
  assumes "CHR '','' \<notin> set d" "CHR '','' \<notin> set u" "CHR ''/'' \<notin> set u"
    and "length u < 65" "length d + length u < 1023"
  shows "disk_and_uuid (''file='' @ d @ ''/'' @ u @ ''/disk'' @ '','' @ opts) =
    Some (d @ ''/'' @ u @ ''/disk'', d @ ''/'' @ u, u)"
proof -
  let ?p = "d @ ''/'' @ u @ ''/disk''"
  have tw: "takeWhile (\<lambda>c. c \<noteq> CHR '','') (''file='' @ ?p @ '','' @ opts) = ''file='' @ ?p"
    using takeWhile_until [of "CHR '',''" "''file='' @ ?p" opts] assms(1,2) by simp
  have a: "strstr ''file='' (''file='' @ ?p @ '','' @ opts) = Some 0" by (rule strstr_prefix)
  have n: "int (length (''file='' @ ?p)) - int (0 + 5) = int (length d + length u + 6)" by simp
  have s1: "signed_strncpy_s PATH_MAX (drop (0 + 5) (''file='' @ ?p @ '','' @ opts)) (int (length d + length u + 6)) = ?p"
    using signed_strncpy_exact [of "int (length d + length u + 6)" ?p PATH_MAX "'','' @ opts"] assms(5)
    by (simp add: PATH_MAX_def)
  have s2: "signed_strncpy_s 1024 ?p (int (length d + length u + 6) - 5) = d @ ''/'' @ u"
    using signed_strncpy_exact [of "int (length d + length u + 6) - 5" "d @ ''/'' @ u" 1024 "''/disk''"] assms(5)
    by simp
  have u: "strrchr (d @ ''/'' @ u) (CHR ''/'') = Some (CHR ''/'' # u)"
    using strrchr_last [OF assms(3), of d] by simp
  have "disk_and_uuid (''file='' @ ?p @ '','' @ opts) = Some (?p, d @ ''/'' @ u, u)"
    unfolding disk_and_uuid_def a option.case tw Let_def n s1 s2 u using assms(4) by simp
  then show ?thesis by simp
qed

text \<open>A path that was not given is sent as the empty string.\<close>

definition path_arg :: "cstr option \<Rightarrow> cstr" where
  "path_arg p = (case p of None \<Rightarrow> [] | Some k \<Rightarrow> k)"

lemma proxy_main_exec:
  assumes run: "proxy_main X B H N rcv snd_fn ch_close getenv argv w = Some (Exec av, w')"
    and scan: "scan_args (argv[0 := QEMU_SYSTEM_PATH]) [0..<length argv] no_launch = Some l"
    and launch: "drive_data l = Some drive" "has_smbios l"
    and disk: "disk_and_uuid drive = Some (disk, dir, uuid)"
    and policy: "h_access H (snprintf PATH_MAX (dir @ ''/trustpolicy.xml'')) w"
  shows "\<exists>fd w1 n. conn_open N w = (0, fd, w1) \<and> 0 < n \<and>
      get_rpcore_response X B (rcv fd) (snd_fn fd) (ch_close fd) (path_arg (kernel_path l))
        (path_arg (initrd_path l)) disk uuid w1 = Some (n, w') \<and>
      length av = length argv \<and>
      av ! 0 = (argv[0 := QEMU_SYSTEM_PATH]) ! 0"
proof -
  obtain c fd w1 where c: "conn_open N w = (c, fd, w1)" by (metis prod_cases3)
  have "c = 0"
    using run scan launch disk policy c
    by (auto simp: proxy_main_def Let_def split: if_splits)
  have patch: "patch_kernel_args l i p xs = Some av \<Longrightarrow> length av = length xs \<and> av ! 0 = xs ! 0" for i p xs
    by (auto simp: patch_kernel_args_def split: option.splits if_splits)
  define k where "k = (case kernel_path l of None \<Rightarrow> [] | Some k \<Rightarrow> k)"
  define r where "r = (case initrd_path l of None \<Rightarrow> [] | Some k \<Rightarrow> k)"
  define ip where "ip = (case getenv ''VRTMCORE_IPADDR'' of None \<Rightarrow> ''127.0.0.1'' | Some i \<Rightarrow> i)"
  define port where "port = (case getenv ''VRTMCORE_PORT'' of None \<Rightarrow> 16005 | Some p \<Rightarrow> atoi p)"
  let ?ask = "get_rpcore_response X B (rcv fd) (snd_fn fd) (ch_close fd) k r disk uuid w1"
  have "(case ?ask of None \<Rightarrow> None
      | Some (n, w2) \<Rightarrow> if n \<le> 0 then Some (Exit 1, w2)
          else map_option (\<lambda>av. (Exec av, w2)) (patch_kernel_args l ip port (argv[0 := QEMU_SYSTEM_PATH]))) =
      Some (Exec av, w')"
    using run scan launch disk policy c \<open>c = 0\<close>
    unfolding k_def r_def ip_def port_def by (simp add: proxy_main_def)
  then have "\<exists>n. ?ask = Some (n, w') \<and> 0 < n \<and>
      length av = length argv \<and> av ! 0 = (argv[0 := QEMU_SYSTEM_PATH]) ! 0"
    using patch [of ip port "argv[0 := QEMU_SYSTEM_PATH]"] by (auto split: option.splits if_splits)
  with c \<open>c = 0\<close> show ?thesis unfolding k_def r_def path_arg_def by blast
qed

section \<open>Properties\<close>

lemma demo_verdict_length:
  "length (rpc_text ref_xml rfc4648 ''update_vm_status'' [show_int 0]) < 300"
  by code_simp

definition answered :: "string \<Rightarrow> sock" where
  "answered bytes = \<lparr>inbox = [take 7 bytes, drop 7 bytes], room = [1, 2], outbox = []\<rparr>"

lemma pending_answered [simp]: "pending_in (answered bytes) = bytes"
  by (simp add: answered_def pending_in_def)

text \<open>
  C9: a measured VM is launched only after the core has accepted it.  When the command line is a
  launch request (a drive and \<open>-smbios\<close>) and a trust policy lies beside the disk, the proxy
  becomes QEMU only after it has asked the core about that disk and UUID and has received a
  positive number, and it passes on as many arguments as it was given, starting with the
  path of the original QEMU.
\<close>

theorem proxy_launches_only_accepted:
  assumes run: "proxy_main X B H N rcv snd_fn ch_close getenv argv w = Some (Exec av, w')"
    and scan: "scan_args (argv[0 := QEMU_SYSTEM_PATH]) [0..<length argv] no_launch = Some l"
    and launch: "drive_data l = Some drive" "has_smbios l"
    and disk: "disk_and_uuid drive = Some (disk, dir, uuid)"
    and policy: "h_access H (snprintf PATH_MAX (dir @ ''/trustpolicy.xml'')) w"
  shows "\<exists>fd w1 k r n. conn_open N w = (0, fd, w1) \<and> 0 < n \<and>
      get_rpcore_response X B (rcv fd) (snd_fn fd) (ch_close fd) k r disk uuid w1 = Some (n, w') \<and>
      length av = length argv \<and>
      av ! 0 = (argv[0 := QEMU_SYSTEM_PATH]) ! 0"
  using proxy_main_exec [OF assms] by blast

text \<open>A host with every file, a network that connects, and the socket as their state.\<close>

definition sock_host :: "sock host" where
  "sock_host = \<lparr>h_system = (\<lambda>c w. (0, w)), h_mkdir = (\<lambda>d w. (MkdirOk, w)), h_stat = (\<lambda>d w. StatDir),
     h_access = (\<lambda>f w. True), h_chmod = (\<lambda>f w. w), h_fopen = (\<lambda>f m w. (False, w)), h_content = (\<lambda>f w. []),
     h_fwrite = (\<lambda>f c w. w), h_time = (\<lambda>w. (0, w)), h_localtime_ok = (\<lambda>_. True),
     h_setdetach_ok = (\<lambda>w. True), h_pthread_create = (\<lambda>w. (True, w))\<rparr>"

definition sock_net :: "sock net" where
  "sock_net = \<lparr>n_startup = (\<lambda>_. True), n_getaddrinfo = (\<lambda>ip p n. True), n_socket = (\<lambda>n. (3, n)),
     n_connect = (\<lambda>fd ip p n. (True, n)), n_bind = (\<lambda>fd ip p n. (True, n)), n_listen = (\<lambda>fd q n. (True, n)),
     n_accept = (\<lambda>fd n. (4, n)), n_close = (\<lambda>fd n. n)\<rparr>"

definition demo_argv :: "cstr list" where
  "demo_argv = [''qemu'', ''-smbios'', ''-drive'', ''file=/d/u1/disk,if=x'']"

definition demo_launch :: launch where
  "demo_launch = no_launch\<lparr>drive_data := Some ''file=/d/u1/disk,if=x'', has_smbios := True\<rparr>"

lemma demo_launch_fields:
  "drive_data demo_launch = Some ''file=/d/u1/disk,if=x''" "has_smbios demo_launch"
  "kernel_path demo_launch = None" "initrd_path demo_launch = None" "append_index demo_launch = None"
  by (simp_all add: demo_launch_def no_launch_def)

lemma demo_scan:
  "scan_args (demo_argv[0 := QEMU_SYSTEM_PATH]) [0..<length demo_argv] no_launch = Some demo_launch"
  by code_simp

lemma demo_disk: "disk_and_uuid ''file=/d/u1/disk,if=x'' = Some (''/d/u1/disk'', ''/d/u1'', ''u1'')"
  using disk_and_uuid_shape [of "''/d''" "''u1''" "''if=x''"] by simp

lemma demo_accept_lengths:
  "length (rpc_text ref_xml rfc4648 ''foo'' (proxy_args [] [] ''/d/u1/disk'' ''u1'')) < 1000"
  "length (rpc_text ref_xml rfc4648 ''StartApp'' [show_int 5]) < 300"
  by code_simp+

definition accepting :: sock where
  "accepting = answered (request_bytes VM2RP_STARTAPP (rpc_text ref_xml rfc4648 ''StartApp'' [show_int 5]))"

lemma demo_accepted_run:
  "\<exists>w'. proxy_main ref_xml rfc4648 sock_host sock_net (\<lambda>_. sock_recv) (\<lambda>_. sock_send) (\<lambda>_. id) (\<lambda>_. None)
      demo_argv accepting = Some (Exec (demo_argv[0 := QEMU_SYSTEM_PATH]), w')"
proof -
  have "\<forall>a \<in> {[], [], ''/d/u1/disk'', ''u1''}. wire_arg a"
    by (simp add: wire_arg_def nul_free_def)
  from wire.get_rpcore_response_reply [OF ref_xml_law rfc4648_law this, of 5 accepting id]
  obtain w' where w': "get_rpcore_response ref_xml rfc4648 sock_recv sock_send id [] [] ''/d/u1/disk'' ''u1'' accepting =
      Some (5, w')"
    using demo_accept_lengths by (auto simp: int32_def accepting_def)
  have "conn_open sock_net accepting = (0, 3, accepting)"
    by (simp add: conn_open_def channel_open_def ch_open_def sock_net_def)
  with w' show ?thesis
    by (simp add: proxy_main_def demo_scan demo_disk demo_launch_fields sock_host_def patch_kernel_args_def)
qed

theorem proxy_launches_only_accepted_witness:
  "\<exists>w' fd w1 k r n. proxy_main ref_xml rfc4648 sock_host sock_net (\<lambda>_. sock_recv) (\<lambda>_. sock_send) (\<lambda>_. id)
       (\<lambda>_. None) demo_argv accepting = Some (Exec (demo_argv[0 := QEMU_SYSTEM_PATH]), w') \<and>
     0 < n \<and> get_rpcore_response ref_xml rfc4648 sock_recv sock_send id k r ''/d/u1/disk'' ''u1'' w1 = Some (n, w')"
proof -
  obtain w' where run: "proxy_main ref_xml rfc4648 sock_host sock_net (\<lambda>_. sock_recv) (\<lambda>_. sock_send) (\<lambda>_. id)
      (\<lambda>_. None) demo_argv accepting = Some (Exec (demo_argv[0 := QEMU_SYSTEM_PATH]), w')"
    using demo_accepted_run by blast
  have "drive_data demo_launch = Some ''file=/d/u1/disk,if=x''" "has_smbios demo_launch"
    "h_access sock_host f w" for f w
    by (simp_all add: demo_launch_def sock_host_def)
  with proxy_launches_only_accepted [OF run demo_scan _ _ demo_disk] run show ?thesis
    by blast
qed

text \<open>
  The paths the proxy reads off the drive argument.  For a drive \<open>file=D/U/disk,\<dots>\<close> with no comma
  in the path, the disk is \<open>D/U/disk\<close>, the trust policy is looked for in \<open>D/U\<close>, and the UUID
  is \<open>U\<close>, when U fits 64 characters and the path fits its array.
\<close>

lemma proxy_reads_paths:
  assumes "CHR '','' \<notin> set d" "CHR '','' \<notin> set u" "CHR ''/'' \<notin> set u"
    and "length u < 65" "length d + length u < 1023"
  shows "disk_and_uuid (''file='' @ d @ ''/'' @ u @ ''/disk'' @ '','' @ opts) =
    Some (d @ ''/'' @ u @ ''/disk'', d @ ''/'' @ u, u)"
  using assms by (rule disk_and_uuid_shape)

lemma proxy_reads_paths_example:
  "disk_and_uuid (''file='' @ ''/var/instances'' @ ''/'' @ ''ab-12'' @ ''/disk'' @ '','' @ ''if=none'') =
     Some (''/var/instances'' @ ''/'' @ ''ab-12'' @ ''/disk'', ''/var/instances'' @ ''/'' @ ''ab-12'', ''ab-12'')"
  by (rule proxy_reads_paths) simp_all

section \<open>The listener\<close>

text \<open>
  Which events are reported, with the numbers of libvirt.h.  STARTED is reported as started; a
  domain that stopped by shutdown, destruction, crash or failure, and any event number 6 (a
  shutdown in progress, which the code takes for a crash), as stopped; a removed definition as
  deleted.  The event CRASHED (8) is never reported.
\<close>

lemma reported_events:
  "(event_status libvirt_consts e d = Some VM_STATUS_STARTED \<longleftrightarrow> e = 2) \<and>
   (event_status libvirt_consts e d = Some VM_STATUS_STOPPED \<longleftrightarrow> e = 5 \<and> d \<in> {0, 1, 2, 5} \<or> e = 6) \<and>
   (event_status libvirt_consts e d = Some VM_STATUS_DELETED \<longleftrightarrow> e = 1 \<and> d = 0) \<and>
   event_status libvirt_consts 8 d = None"
  by (auto simp: event_status_def libvirt_consts_def)

text \<open>
  C32: the listener does not give up and loses nothing it is told.  Whatever fails while it
  connects, and however often the connection is closed, it goes on to the last attempt; it has
  then reported, in their order, exactly the events with a status that were dispatched over
  the connections that came up, each of them up to the call that closed it.
\<close>

theorem listener_keeps_listening:
  assumes "\<And>u st n. report u st n \<noteq> None" "lexit l \<noteq> 0" "lrun l"
  shows "listen_libvirt_events report C as l =
     Some ([], l\<lparr>lnet := tell_all report (reported C (concat (map heard_in as))) (lnet l)\<rparr>)"
  using assms(2,3)
proof (induction as arbitrary: l)
  case (Cons a as)
  then show ?case by (simp add: listen_round_result [of report, OF assms(1)])
qed simp

definition demo_attempts :: "attempt list" where
  "demo_attempts =
     [\<lparr>at_initialize = True, at_event_impl = True, at_open = False, at_register = True, at_keepalive = True,
       at_calls = []\<rparr>,
      \<lparr>at_initialize = True, at_event_impl = True, at_open = True, at_register = True, at_keepalive = True,
       at_calls = [[Domain_event ''u1'' 2 0, Domain_event ''u1'' 8 0], [],
                   [Connection_closed, Domain_event ''u2'' 5 1], [Domain_event ''u3'' 2 0]]\<rparr>,
      \<lparr>at_initialize = True, at_event_impl = True, at_open = True, at_register = True, at_keepalive = True,
       at_calls = [[Domain_event ''u1'' 1 0]]\<rparr>]"

theorem listener_keeps_listening_witness:
  "listen_libvirt_events (\<lambda>u st n. Some (0, n @ [(u, st)])) libvirt_consts demo_attempts
     \<lparr>lrun = True, lexit = 1, lnet = []\<rparr> =
   Some ([], \<lparr>lrun = True, lexit = 1, lnet = [(''u1'', VM_STATUS_STARTED), (''u2'', VM_STATUS_STOPPED),
     (''u1'', VM_STATUS_DELETED)]\<rparr>)"
  using listener_keeps_listening [of "\<lambda>u st n. Some (0, n @ [(u, st)])" "\<lparr>lrun = True, lexit = 1, lnet = []\<rparr>"
      libvirt_consts demo_attempts]
  by (simp add: demo_attempts_def heard_in_def reported_def tell_all_def event_status_def libvirt_consts_def)

text \<open>
  A thread that could not be created goes unnoticed: the error numbers of \<open>pthread_create\<close> are
  positive, so the core's listener waits without listening.  When it was created, the thread that
  started it waits for ever too.
\<close>

lemma listener_thread_error_unnoticed:
  "created \<noteq> 0 \<Longrightarrow> lexit l \<noteq> 0 \<Longrightarrow>
     start_vrtm_listener report C created as l = Some (Listener_waits, l)"
  by (simp add: start_vrtm_listener_def await_exit_def)

lemma listen_libvirt_events_exit:
  assumes "\<And>u st n. report u st n \<noteq> None" "lexit l \<noteq> 0"
  shows "\<exists>l'. listen_libvirt_events report C as l = Some ([], l') \<and> lexit l' = lexit l"
  using assms(2)
proof (induction as arbitrary: l)
  case (Cons a as)
  have "\<exists>l'. listen_round report C a l = Some l' \<and> lexit l' = lexit l"
    using poll_loop_result [of report C "at_calls a" "if at_keepalive a then l else l\<lparr>lrun := False\<rparr>", OF assms(1)]
    by (auto simp: listen_round_def)
  then obtain l' where "listen_round report C a l = Some l'" "lexit l' = lexit l" by blast
  with Cons.prems Cons.IH [of l'] show ?case by simp
qed simp

lemma listener_never_returns:
  assumes "\<And>u st n. report u st n \<noteq> None" "lexit l \<noteq> 0"
  shows "map_option fst (start_vrtm_listener report C created as l) = Some Listener_waits"
proof -
  obtain l' where "listen_libvirt_events report C as l = Some ([], l')" "lexit l' = lexit l"
    using listen_libvirt_events_exit [of report l C as, OF assms] by blast
  with assms(2) show ?thesis by (simp add: start_vrtm_listener_def await_exit_def)
qed

end
