(* ===== verification/Wire_Spec.thy ===== *)
theory Wire_Spec
  imports Channel_Coding Ref_Xml Tcp_Channel Xpath_Parser Start_App_Spec
begin

text \<open>
  Properties of the wire format and of the readers of documents: Base64, XML-RPC, the header,
  \<open>ch_read\<close>, XPath, and the launch request of the proxy from end to end.
\<close>

section \<open>Base64\<close>

text \<open>
  C25: decoding what \<open>Base64Encode\<close> made gives the message back, and the length that
  \<open>calcDecodeLength\<close> reads off the text is the message's, for every message whose encoding fits
  the 4096 characters the decoder looks at (3072 bytes).
\<close>

theorem Base64_roundtrip:
  assumes "b64_law B" "length s \<le> 3072"
  shows "\<exists>e. Base64Encode B s = Some e \<and> calcDecodeLength e = length s \<and> Base64Decode B (Some e) = Some s"
  using assms Base64Encode_law [OF assms(1), of s] Base64Decode_write [OF assms]
    calcDecodeLength_write [OF assms(1) write_length_bound [OF assms]]
  by simp

theorem Base64_roundtrip_witness:
  "\<exists>e. Base64Encode rfc4648 ''vrtm'' = Some e \<and> calcDecodeLength e = 4 \<and>
     Base64Decode rfc4648 (Some e) = Some ''vrtm''"
  using Base64_roundtrip [OF rfc4648_law, of "''vrtm''"] by (simp add: eval_nat_numeral)

section \<open>Requests and replies\<close>

text \<open>
  C30: a request whose document needs 4096 characters or more is announced with its full size, but
  the buffer that is sent is cleared: the core decodes it to no argument and refuses it.
\<close>

theorem oversized_request_is_empty:
  assumes "b64_law B" "\<forall>a \<in> set args. wire_arg a" "MAX_LEN \<le> length (rpc_text X B file args)"
  shows "encodeVM2RP_STARTAPP X B file args n buf = (int (length (rpc_text X B file args)), []) \<and>
    decodeVM2RP_STARTAPP X B cap (snd (encodeVM2RP_STARTAPP X B file args n buf)) = Some (False, Some [], [])"
  using args_oversize [OF assms] by (simp_all add: coding_defs)

lemma ref_text_length:
  "length (b64_write B a) + length (b64_write B b) \<le> length (rpc_text ref_xml B m [a, b])"
  by (simp add: rpc_text_def ref_xml_def rpc_doc_def rpc_param_def xmlNewChild_def)

theorem oversized_request_is_empty_witness:
  "decodeVM2RP_STARTAPP ref_xml rfc4648 32
     (snd (encodeVM2RP_STARTAPP ref_xml rfc4648 ''foo'' (replicate 2 (replicate 3000 (CHR ''a''))) 100 [])) =
   Some (False, Some [], [])"
proof (rule oversized_request_is_empty [OF rfc4648_law, THEN conjunct2])
  let ?a = "replicate 3000 (CHR ''a'')"
  show "\<forall>a \<in> set (replicate 2 ?a). wire_arg a"
    by (simp add: wire_arg_def nul_free_def)
  have "length (b64_write rfc4648 ?a) = 4000"
    by (rule b64_writeE [OF rfc4648_law, of ?a]) simp
  then show "MAX_LEN \<le> length (rpc_text ref_xml rfc4648 ''foo'' (replicate 2 ?a))"
    using ref_text_length [of rfc4648 ?a ?a "''foo''"] by (simp add: numeral_2_eq_2)
qed

text \<open>
  C24: the launch request of the proxy from end to end: the core decodes it and \<open>StartApp\<close>
  parses its ten arguments to the paths and the UUID the proxy was given, each cut to its
  array's rule, unless one of them is spelled like a flag or the document does not fit.
\<close>

theorem launch_request_parsed:
  assumes "xml_law X" "b64_law B" "\<forall>a \<in> {k, r, d, u}. wire_arg a \<and> \<not> is_flag a"
    and "length (rpc_text X B ''foo'' (proxy_args k r d u)) < MAX_LEN"
  shows "\<exists>av. decodeVM2RP_STARTAPP X B 32
      (snd (encodeVM2RP_STARTAPP X B ''foo'' (proxy_args k r d u) n buf)) = Some (True, Some ''foo'', av) \<and>
    parse_args av 0 no_args =
      Some (no_args\<lparr>a_kernel := strcpy_s 1024 k, a_ramdisk := strcpy_s 1024 r,
        a_disk := strcpy_s 1024 d, a_uuid := strcpy_s UUID_SIZE u, a_config := Some ''config''\<rparr>)"
proof -
  have "\<forall>a \<in> set (proxy_args k r d u). wire_arg a"
    using assms(3) by (simp add: proxy_args_def wire_arg_def nul_free_def)
  moreover have "length (proxy_args k r d u) = 10" by (simp add: proxy_args_def)
  ultimately have "decodeVM2RP_STARTAPP X B 32
      (snd (encodeVM2RP_STARTAPP X B ''foo'' (proxy_args k r d u) n buf)) =
      Some (True, Some ''foo'', proxy_args k r d u)"
    using STARTAPP_request_roundtrip [OF assms(1,2) method_names(4) _ assms(4), of 32] by simp
  then show ?thesis
    using parse_proxy_args [of k r d u] assms(3) by simp
qed

lemma demo_launch_length:
  "length (rpc_text ref_xml rfc4648 ''foo'' (proxy_args [] [] ''/d/disk'' ''u1'')) < 1000"
  by code_simp

theorem launch_request_parsed_witness:
  "\<exists>av. decodeVM2RP_STARTAPP ref_xml rfc4648 32
      (snd (encodeVM2RP_STARTAPP ref_xml rfc4648 ''foo'' (proxy_args [] [] ''/d/disk'' ''u1'') 100 [])) =
      Some (True, Some ''foo'', av) \<and>
    map_option a_disk (parse_args av 0 no_args) = Some ''/d/disk''"
proof -
  have "\<forall>a \<in> {[], [], ''/d/disk'', ''u1''}. wire_arg a \<and> \<not> is_flag a"
    by (simp add: wire_arg_def nul_free_def is_flag_def)
  from launch_request_parsed [OF ref_xml_law rfc4648_law this] demo_launch_length show ?thesis
    by fastforce
qed

section \<open>The channel\<close>

text \<open>
  Whatever a peer sends and in whatever pieces it arrives, \<open>ch_read\<close> returns, stores a prefix
  of the stream that is no longer than the buffer, and leaves the rest.
\<close>

lemma ch_read_safe:
  assumes "HEADER \<le> bufsize"
  shows "\<exists>d pieces'. ch_read chunk_recv bufsize pieces = (Io_ok d, pieces') \<and> length d \<le> bufsize \<and>
    concat pieces = d @ concat pieces'"
  using assms by (rule chunks.ch_read_bound)

text \<open>
  A message is sent whole, in order and once, however little the socket takes at a time.
\<close>

lemma ch_write_whole:
  assumes "len \<le> length buf"
  shows "\<exists>room'. ch_write chunk_send buf len (room, out) = Some (int len, (room', out @ take len buf))"
proof -
  obtain st where "ch_write chunk_send buf len (room, out) = Some (int len, st)"
    "snd st = snd (room, out) @ take len buf"
    using chunk_out.ch_write_all [OF assms] by blast
  then show ?thesis by (cases st) simp
qed

section \<open>XPath\<close>

text \<open>
  C31: \<open>get_xpath_values\<close> iterates over a map that is keyed by the addresses of the expressions.
  Its result, success or failure and the value of every expression, does not depend on that
  order, and every value fits its array.
\<close>

theorem xpath_order_independent:
  assumes "mset l' = mset l"
  shows "map_sum id mset (get_xpath_values XP H l' [] f w) =
     map_sum id mset (get_xpath_values XP H l [] f w)"
  using assms by (rule get_xpath_values_perm)

theorem xpath_order_independent_witness:
  "map_sum id mset (get_xpath_values ref_xpath ref_host (rev policy_xpaths) [] ''p'' ref_world0) =
   map_sum id mset (get_xpath_values ref_xpath ref_host policy_xpaths [] ''p'' ref_world0)"
  by (rule xpath_order_independent) simp

end
