(* ===== verification/End_To_End.thy ===== *)
theory End_To_End
  imports Core_Safety Client_Props Wire_Spec
begin

text \<open>
  The clients and the core together: one connection as the two sockets at its ends, the proxy's
  launch request and the listener's report served by a session of the core, and what the
  clients do with the answer.  The sockets are any that keep the contract \<open>closing_end\<close> of
  \<open>Tcp_Channel\<close>; the examples use the reference socket of \<open>Session\<close>.
\<close>

section \<open>A connection\<close>

text \<open>
  The end of the client, before and after, and that of the core: each receives exactly the
  bytes that the other has sent.  The two ends may be different kinds of socket; the first four
  arguments tell, for either, what waits at it and what it has sent.
\<close>

definition connected ::
  "('p \<Rightarrow> string) \<Rightarrow> ('p \<Rightarrow> string) \<Rightarrow> ('c \<Rightarrow> string) \<Rightarrow> ('c \<Rightarrow> string) \<Rightarrow> 'p \<Rightarrow> 'p \<Rightarrow> 'c \<Rightarrow> 'c \<Rightarrow> bool"
where
  "connected pending sent core_pending core_sent p p' c c' \<longleftrightarrow> sent p = [] \<and> core_sent c = [] \<and>
     core_pending c = sent p' \<and> pending p = core_sent c'"

section \<open>What a client has sent\<close>

context closing_end
begin

lemma get_rpcore_response_sent:
  assumes law: "xml_law X" "b64_law B" and a: "\<forall>a \<in> {k, r, d, u}. wire_arg a"
    and req: "length (rpc_text X B ''foo'' (proxy_args k r d u)) < MAX_LEN"
    and run: "get_rpcore_response X B rcv snd_fn cl k r d u s = Some (v, s')"
  shows "sent s' = sent s @ request_bytes VM2RP_STARTAPP (rpc_text X B ''foo'' (proxy_args k r d u))"
proof -
  obtain data s2 where "exchange rcv snd_fn PARAMSIZE
      (request_bytes VM2RP_STARTAPP (rpc_text X B ''foo'' (proxy_args k r d u))) s = Some (data, s2)" "sent s' = sent s2"
    using run launch_request_message [OF law a req, of "int (PARAMSIZE - HEADER)"]
    by (auto simp: get_rpcore_response_def cl_sent split: option.splits if_splits)
  then show ?thesis using exchange_sent by simp
qed

lemma get_rpcore_response_refused:
  assumes law: "xml_law X" "b64_law B" and a: "\<forall>a \<in> {k, r, d, u}. wire_arg a"
    and req: "length (rpc_text X B ''foo'' (proxy_args k r d u)) < MAX_LEN"
    and pend: "pending s = put_header \<lparr>m_reqID = VM2RP_STARTAPP, m_reqSize = 0, m_ustatus = - 1\<rparr>"
  shows "\<exists>s'. get_rpcore_response X B rcv snd_fn cl k r d u s = Some (- 1, s') \<and>
    sent s' = sent s @ request_bytes VM2RP_STARTAPP (rpc_text X B ''foo'' (proxy_args k r d u))"
proof -
  let ?h = "\<lparr>m_reqID = VM2RP_STARTAPP, m_reqSize = 0, m_ustatus = - 1 :: u32\<rparr>"
  let ?msg = "request_bytes VM2RP_STARTAPP (rpc_text X B ''foo'' (proxy_args k r d u))"
  obtain s2 where e: "exchange rcv snd_fn PARAMSIZE ?msg s = Some (Some (put_header ?h), s2)"
    "sent s2 = sent s @ ?msg"
    using exchange_message [of s ?h "[]" PARAMSIZE] pend by auto
  have "m_ustatus (get_header (put_header ?h)) \<noteq> 0" "drop HEADER (put_header ?h) = []"
    using get_put_header [of ?h "[]"] by simp_all
  moreover have "decodeRP2VM_STARTAPP X B 1024 0 [] (Some []) \<noteq> None"
    by (auto simp: decodeRP2VM_STARTAPP_def decode_cbuf_def xmlrpc_to_cbuf_def split: option.splits)
  ultimately have "get_rpcore_response X B rcv snd_fn cl k r d u s = Some (- 1, cl s2)"
    using e launch_request_message [OF law a req, of "int (PARAMSIZE - HEADER)"]
    by (auto simp: get_rpcore_response_def split: option.splits)
  with e(2) cl_sent show ?thesis by auto
qed

end

section \<open>What the core answers\<close>

lemma serve_STARTAPP_doc:
  assumes "env_law E" "sendable E m args" "args \<noteq> []" "length args \<le> 32"
    and "StartApp (e_host E) (e_xpath E) (e_globals E) procid args s = Some ((c, out), s')"
    and "c = 0 \<Longrightarrow> \<exists>v. out = Some v \<and> int32 v"
  shows "serviceRequest E procid VM2RP_STARTAPP (doc_text E m args) s =
    Done (if c \<noteq> 0 then refuse [] else reply_doc E ''StartApp'' [show_int (the out)], s')"
proof (cases "c = 0")
  case True
  then obtain v where v: "out = Some v" "int32 v" using assms(6) by blast
  have "cbuf_to_xmlrpc (e_xml E) (e_b64 E) ''StartApp'' (show_int v) [] =
      (int (length (doc_text E ''StartApp'' [show_int v])), store_xml (doc_text E ''StartApp'' [show_int v]))"
    by (rule encode_reply [OF assms(1) wire_arg_show_int [OF v(2)]])
  with True v show ?thesis
    using decode_request [OF assms(1,2), of AV_SLOTS] assms(3-5)
    by (simp add: request_defs coding_defs)
next
  case False
  then show ?thesis
    using decode_request [OF assms(1,2), of AV_SLOTS] assms(3-5)
    by (simp add: request_defs coding_defs)
qed

lemma doc_nonempty:
  assumes "env_law E" "sendable E m args" "args \<noteq> []" "length args \<le> 32"
  shows "doc_text E m args \<noteq> []"
proof
  assume "doc_text E m args = []"
  with decode_request [OF assms(1,2), of AV_SLOTS] assms(3,4) show False
    by (auto simp: xmlrpc_to_args_def)
qed

text \<open>One request and one answer on the level of bytes.\<close>

context closing_end
begin

lemma core_sends_doc:
  assumes law: "env_law E" and pend: "pending c = request_bytes code t" "nul_free t" "length t < MAX_LEN"
    and serve: "serviceRequest E (fst (generate_req_id n)) code t s = Done (reply_doc E m args, s')"
    and rep: "sendable E m args" "args \<noteq> []" "length args \<le> 32"
  shows "\<exists>c'. handle_session E rcv snd_fn cl n c s = Done (snd (generate_req_id n), c', s') \<and>
    sent c' = sent c @ request_bytes code (doc_text E m args)"
proof -
  let ?d = "doc_text E m args"
  have d: "?d \<noteq> []" "length ?d < MAX_LEN" "store_xml ?d = ?d"
    using doc_nonempty [OF law rep] rep(1) sendable_store [OF rep(1)] by (auto simp: sendable_def)
  have "pad (length ?d) ?d = ?d" by (rule pad_exact)
  then show ?thesis
    using handle_session_bytes [OF pend(1) _ _ _ _ _, of E n s "reply_doc E m args" s' cl] pend(2,3) serve d
    by (auto simp: reply_doc_def answer_header_def cl_sent)
qed

lemma core_sends_refusal:
  assumes pend: "pending c = request_bytes code t" "nul_free t" "length t < MAX_LEN"
    and serve: "serviceRequest E (fst (generate_req_id n)) code t s = Done (refuse [], s')"
  shows "\<exists>c'. handle_session E rcv snd_fn cl n c s = Done (snd (generate_req_id n), c', s') \<and>
    sent c' = sent c @ put_header \<lparr>m_reqID = code, m_reqSize = 0, m_ustatus = - 1\<rparr>"
  using handle_session_bytes [OF pend(1) _ _ _ _ _, of E n s "refuse []" s' cl] pend(2,3) serve
  by (auto simp: refuse_def answer_header_def cl_sent)

lemma handle_session_serves:
  assumes pend: "pending c = put_header h @ payload"
    and size: "m_reqSize h = word_of_nat (length payload)" "length payload \<le> PARAMSIZE"
    and run: "handle_session E rcv snd_fn cl n c s = Done (n', c', s')"
  shows "\<exists>r. serviceRequest E (fst (generate_req_id n)) (m_reqID h) (cstr_of payload) s = Done (r, s')"
proof -
  obtain k n1 where g: "generate_req_id n = (k, n1)" by force
  obtain s1 where r: "ch_read rcv PADDEDREQ c = (Io_ok (put_header h @ payload), s1)"
    using ch_read_message [OF pend size] by blast
  have "get_header (put_header h @ payload) = h" "sint (m_reqSize h) \<le> int PARAMSIZE"
    using get_put_header sint_size [OF size(2)] size by simp_all
  with run g r show ?thesis
    by (auto simp: handle_session_def process_request_def Let_def
        split: outcome.splits if_splits option.splits prod.splits)
qed

end

section \<open>A launch\<close>

text \<open>\<open>StartApp\<close> returns on the arguments of the proxy, unless one is spelled like a flag.\<close>

lemma StartApp_proxy_args:
  assumes "\<forall>a \<in> {k, r, d, u}. \<not> is_flag a"
  shows "\<exists>co out s'. StartApp H XP G procid (proxy_args k r d u) s = Some ((co, out), s')"
proof -
  have "False" if "StartApp H XP G procid (proxy_args k r d u) s = None"
    using that assms parse_proxy_args [of k r d u]
    by (auto simp: StartApp_def Let_def split: if_splits prod.splits phase.splits bool.splits)
  then show ?thesis by (metis not_None_eq surj_pair)
qed

context closing_end
begin

text \<open>
  The session of a launch request from the result of \<open>StartApp\<close>: it ends, and what it answers.
\<close>

lemma launch_session:
  assumes law: "env_law E" and a: "\<forall>a \<in> {k, r, d, u}. wire_arg a"
    and req: "length (doc_text E ''foo'' (proxy_args k r d u)) < MAX_LEN"
    and rep: "\<forall>v. int32 v \<longrightarrow> length (doc_text E ''StartApp'' [show_int v]) < MAX_LEN"
    and inv: "map_ok (proc_table s)" "\<forall>(j, e) \<in> set (proc_table s). int32 j"
    and id: "fst (generate_req_id n) = procid"
    and pend: "pending c = request_bytes VM2RP_STARTAPP (doc_text E ''foo'' (proxy_args k r d u))"
    and start: "StartApp (e_host E) (e_xpath E) (e_globals E) procid (proxy_args k r d u) s = Some ((co, out), s')"
  shows "\<exists>c'. handle_session E rcv snd_fn cl n c s = Done (snd (generate_req_id n), c', s') \<and>
    (if co = 0 then \<exists>v. out = Some v \<and> int32 v \<and>
         sent c' = sent c @ request_bytes VM2RP_STARTAPP (doc_text E ''StartApp'' [show_int v])
     else sent c' = sent c @ put_header \<lparr>m_reqID = VM2RP_STARTAPP, m_reqSize = 0, m_ustatus = - 1\<rparr>)"
proof -
  let ?av = "proxy_args k r d u" and ?q = "doc_text E ''foo'' (proxy_args k r d u)"
  have av: "?av \<noteq> []" "length ?av \<le> 32" by (simp_all add: proxy_args_def)
  have send: "sendable E ''foo'' ?av"
    using a req method_names(4) by (simp add: sendable_def proxy_args_def wire_arg_def nul_free_def)
  have q: "nul_free ?q"
    using law rpc_text_wire(1) [OF _ _ method_names(4) req] by (simp add: env_law_def)
  have v: "\<exists>v. out = Some v \<and> int32 v" if "co = 0"
  proof -
    have "int32 procid" "int32 (- 1)"
      using generate_req_id_range [of n] id by (auto simp: int32_def INT32_MAX_def)
    with StartApp_answer [OF start [unfolded that] inv(1)] inv(2) show ?thesis
      by (auto dest: map_of_SomeD)
  qed
  have serve: "serviceRequest E (fst (generate_req_id n)) VM2RP_STARTAPP ?q s =
      Done (if co \<noteq> 0 then refuse [] else reply_doc E ''StartApp'' [show_int (the out)], s')"
    unfolding id by (rule serve_STARTAPP_doc [OF law send av start v])
  show ?thesis
  proof (cases "co = 0")
    case True
    with v obtain w where w: "out = Some w" "int32 w" by blast
    have "sendable E ''StartApp'' [show_int w]"
      using rep w(2) method_names(3) by (simp add: sendable_def)
    from core_sends_doc [OF law pend q req _ this, of n s s'] serve True w show ?thesis by auto
  next
    case False
    with core_sends_refusal [OF pend q req, of E n s s'] serve show ?thesis by auto
  qed
qed

lemma launch_served:
  assumes law: "env_law E" and a: "\<forall>a \<in> {k, r, d, u}. wire_arg a \<and> \<not> is_flag a"
    and req: "length (doc_text E ''foo'' (proxy_args k r d u)) < MAX_LEN"
    and rep: "\<forall>v. int32 v \<longrightarrow> length (doc_text E ''StartApp'' [show_int v]) < MAX_LEN"
    and inv: "map_ok (proc_table s)" "\<forall>(j, e) \<in> set (proc_table s). int32 j"
    and id: "fst (generate_req_id n) = procid"
    and pend: "pending c = request_bytes VM2RP_STARTAPP (doc_text E ''foo'' (proxy_args k r d u))"
    and run: "handle_session E rcv snd_fn cl n c s = Done (n', c', s')"
  obtains (answered) v where
      "StartApp (e_host E) (e_xpath E) (e_globals E) procid (proxy_args k r d u) s =
        Some ((TCSERVICE_RESULT_SUCCESS, Some v), s')" "int32 v"
      "sent c' = sent c @ request_bytes VM2RP_STARTAPP (doc_text E ''StartApp'' [show_int v])"
    | (refused) co out where
      "StartApp (e_host E) (e_xpath E) (e_globals E) procid (proxy_args k r d u) s = Some ((co, out), s')"
      "co \<noteq> 0"
      "sent c' = sent c @ put_header \<lparr>m_reqID = VM2RP_STARTAPP, m_reqSize = 0, m_ustatus = - 1\<rparr>"
proof -
  have wire: "\<forall>a \<in> {k, r, d, u}. wire_arg a" and flag: "\<forall>a \<in> {k, r, d, u}. \<not> is_flag a"
    using a by simp_all
  obtain co out s2 where st: "StartApp (e_host E) (e_xpath E) (e_globals E) procid (proxy_args k r d u) s =
      Some ((co, out), s2)"
    using StartApp_proxy_args [OF flag, of "e_host E" "e_xpath E" "e_globals E" procid s] by (elim exE)
  note session = launch_session [OF law wire req rep inv id pend st]
  have out: "s2 = s'" "if co = 0 then \<exists>v. out = Some v \<and> int32 v \<and>
         sent c' = sent c @ request_bytes VM2RP_STARTAPP (doc_text E ''StartApp'' [show_int v])
     else sent c' = sent c @ put_header \<lparr>m_reqID = VM2RP_STARTAPP, m_reqSize = 0, m_ustatus = - 1\<rparr>"
    using session unfolding run by blast+
  show thesis
  proof (cases "co = 0")
    case True
    with out st show thesis by (auto intro: answered)
  next
    case False
    with out st show thesis by (intro refused [of co out]) simp_all
  qed
qed

text \<open>What the proxy makes of the answer of \<open>launch_session\<close>.\<close>

lemma launch_asked:
  assumes law: "xml_law X" "b64_law B" and wire: "\<forall>a \<in> {k, r, d, u}. wire_arg a"
    and req: "length (rpc_text X B ''foo'' (proxy_args k r d u)) < MAX_LEN"
    and rep: "\<forall>v. int32 v \<longrightarrow> length (rpc_text X B ''StartApp'' [show_int v]) < MAX_LEN"
    and reply: "if co = 0 then \<exists>v. out = Some v \<and> int32 v \<and>
         pending p = request_bytes VM2RP_STARTAPP (rpc_text X B ''StartApp'' [show_int v])
       else pending p = put_header \<lparr>m_reqID = VM2RP_STARTAPP, m_reqSize = 0, m_ustatus = - 1\<rparr>"
  shows "\<exists>v p'. get_rpcore_response X B rcv snd_fn cl k r d u p = Some (v, p') \<and>
    sent p' = sent p @ request_bytes VM2RP_STARTAPP (rpc_text X B ''foo'' (proxy_args k r d u)) \<and>
    (0 < v \<longleftrightarrow> co = (0::int) \<and> 0 < the out)"
proof (cases "co = 0")
  case True
  with reply obtain v where v: "out = Some v" "int32 v"
    "pending p = request_bytes VM2RP_STARTAPP (rpc_text X B ''StartApp'' [show_int v])"
    by auto
  from get_rpcore_response_reply [OF law wire req v(2) _ v(3), of cl] rep v(2)
  obtain p1 where "get_rpcore_response X B rcv snd_fn cl k r d u p = Some (if 0 < v then v else - 1, cl p1)"
    "sent (cl p1) = sent p @ request_bytes VM2RP_STARTAPP (rpc_text X B ''foo'' (proxy_args k r d u))"
    unfolding cl_sent by blast
  with True v(1) show ?thesis by auto
next
  case False
  with reply have "pending p = put_header \<lparr>m_reqID = VM2RP_STARTAPP, m_reqSize = 0, m_ustatus = - 1\<rparr>" by simp
  from get_rpcore_response_refused [OF law wire req this] False show ?thesis by auto
qed

end


text \<open>\<open>main\<close> of the proxy on a launch request, once it is connected.\<close>

lemma proxy_main_ask:
  assumes scan: "scan_args (argv[0 := QEMU_SYSTEM_PATH]) [0..<length argv] no_launch = Some l"
    and launch: "drive_data l = Some drive" "has_smbios l" "disk_and_uuid drive = Some (disk, dir, uuid)"
    and policy: "h_access H (snprintf PATH_MAX (dir @ ''/trustpolicy.xml'')) w"
    and conn: "conn_open N w = (0, fd, w1)"
    and patch: "\<forall>ip port. patch_kernel_args l ip port (argv[0 := QEMU_SYSTEM_PATH]) \<noteq> None"
    and ask: "get_rpcore_response X B (rcv fd) (snd_fn fd) (ch_close fd) (path_arg (kernel_path l))
      (path_arg (initrd_path l)) disk uuid w1 = Some (v, w2)"
  shows "\<exists>r. proxy_main X B H N rcv snd_fn ch_close getenv argv w = Some (r, w2) \<and>
    (if 0 < v then \<exists>av. r = Exec av else r = Exit 1)"
proof -
  define ip where "ip = (case getenv ''VRTMCORE_IPADDR'' of None \<Rightarrow> ''127.0.0.1'' | Some i \<Rightarrow> i)"
  define port where "port = (case getenv ''VRTMCORE_PORT'' of None \<Rightarrow> 16005 | Some p \<Rightarrow> atoi p)"
  obtain av where "patch_kernel_args l ip port (argv[0 := QEMU_SYSTEM_PATH]) = Some av"
    using patch by blast
  then show ?thesis
    using scan launch policy conn ask unfolding ip_def port_def path_arg_def by (simp add: proxy_main_def)
qed

text \<open>
  C3: a launch comes to its end. When the launch request of the proxy is on the connection, the
  session of the core ends with the result of \<open>StartApp\<close>; and when its answer is on
  the connection, the proxy ends too, whatever the two sockets are and in whatever pieces they
  deliver: as QEMU exactly if \<open>StartApp\<close> succeeded with a positive identifier, and
  with the exit code 1 otherwise.  The request and every answer fit the buffers, no argument is
  spelled like a flag, the table is a map with keys that fit an \<open>int\<close>, and the kernel
  arguments can be rewritten.
\<close>

theorem launch_completes:
  assumes client: "closing_end (rcvs fd) pending (sends fd) sent (cls fd)"
    and core_end: "closing_end rcv core_pending snd_fn core_sent cl"
    and law: "env_law E"
    and scan: "scan_args (argv[0 := QEMU_SYSTEM_PATH]) [0..<length argv] no_launch = Some l"
      "drive_data l = Some drive" "has_smbios l" "disk_and_uuid drive = Some (disk, dir, uuid)"
    and policy: "h_access Hp (snprintf PATH_MAX (dir @ ''/trustpolicy.xml'')) w"
    and a: "\<forall>a \<in> {path_arg (kernel_path l), path_arg (initrd_path l), disk, uuid}. wire_arg a \<and> \<not> is_flag a"
    and req: "length (doc_text E ''foo''
      (proxy_args (path_arg (kernel_path l)) (path_arg (initrd_path l)) disk uuid)) < MAX_LEN"
    and rep: "\<forall>v. int32 v \<longrightarrow> length (doc_text E ''StartApp'' [show_int v]) < MAX_LEN"
    and inv: "map_ok (proc_table s)" "\<forall>(k, e) \<in> set (proc_table s). int32 k"
    and id: "fst (generate_req_id n) = procid"
    and conn: "conn_open N w = (0, fd, p)" "sent p = []" "core_sent c = []"
      "core_pending c = request_bytes VM2RP_STARTAPP (doc_text E ''foo''
        (proxy_args (path_arg (kernel_path l)) (path_arg (initrd_path l)) disk uuid))"
    and patch: "\<forall>ip port. patch_kernel_args l ip port (argv[0 := QEMU_SYSTEM_PATH]) \<noteq> None"
  shows "\<exists>co out c' s'.
    StartApp (e_host E) (e_xpath E) (e_globals E) procid
      (proxy_args (path_arg (kernel_path l)) (path_arg (initrd_path l)) disk uuid) s = Some ((co, out), s') \<and>
    handle_session E rcv snd_fn cl n c s = Done (snd (generate_req_id n), c', s') \<and>
    (pending p = core_sent c' \<longrightarrow>
      (\<exists>r p'. proxy_main (e_xml E) (e_b64 E) Hp N rcvs sends cls getenv argv w =
           Some (r, p') \<and> connected pending sent core_pending core_sent p p' c c' \<and>
         (if co = TCSERVICE_RESULT_SUCCESS \<and> 0 < the out then \<exists>av. r = Exec av else r = Exit 1)))"
proof -
  let ?k = "path_arg (kernel_path l)" and ?r = "path_arg (initrd_path l)"
  let ?ask = "get_rpcore_response (e_xml E) (e_b64 E) (rcvs fd) (sends fd) (cls fd) ?k ?r disk uuid p"
  have laws: "xml_law (e_xml E)" "b64_law (e_b64 E)" using law by (simp_all add: env_law_def)
  have wire: "\<forall>a \<in> {?k, ?r, disk, uuid}. wire_arg a" and flag: "\<forall>a \<in> {?k, ?r, disk, uuid}. \<not> is_flag a"
    using a by simp_all
  obtain co out s' where st: "StartApp (e_host E) (e_xpath E) (e_globals E) procid (proxy_args ?k ?r disk uuid) s =
      Some ((co, out), s')"
    using StartApp_proxy_args [OF flag, of "e_host E" "e_xpath E" "e_globals E" procid s] by (elim exE)
  obtain c' where c': "handle_session E rcv snd_fn cl n c s = Done (snd (generate_req_id n), c', s')"
    "if co = 0 then \<exists>v. out = Some v \<and> int32 v \<and>
         core_sent c' = core_sent c @ request_bytes VM2RP_STARTAPP (doc_text E ''StartApp'' [show_int v])
     else core_sent c' = core_sent c @ put_header \<lparr>m_reqID = VM2RP_STARTAPP, m_reqSize = 0, m_ustatus = - 1\<rparr>"
    using closing_end.launch_session [OF core_end law wire req rep inv id conn(4) st] by (elim exE conjE)
  have "\<exists>r p'. proxy_main (e_xml E) (e_b64 E) Hp N rcvs sends cls getenv argv w =
           Some (r, p') \<and> connected pending sent core_pending core_sent p p' c c' \<and>
         (if co = TCSERVICE_RESULT_SUCCESS \<and> 0 < the out then \<exists>av. r = Exec av else r = Exit 1)"
    if pend: "pending p = core_sent c'"
  proof -
    obtain v p' where v: "?ask = Some (v, p')"
      "sent p' = sent p @ request_bytes VM2RP_STARTAPP (doc_text E ''foo'' (proxy_args ?k ?r disk uuid))"
      "0 < v \<longleftrightarrow> co = 0 \<and> 0 < the out"
      using closing_end.launch_asked [OF client laws wire req rep c'(2) [unfolded conn(3) append_Nil, folded pend]] by (elim exE conjE)
    then have "connected pending sent core_pending core_sent p p' c c'" using pend conn(2-4) by (simp add: connected_def)
    from proxy_main_ask [where rcv = rcvs and snd_fn = sends and ch_close = cls
        and getenv = getenv, OF scan policy conn(1) patch v(1)] v(3) \<open>connected pending sent core_pending core_sent p p' c c'\<close>
    show ?thesis by (simp only:) blast
  qed
  with st c'(1) show ?thesis by blast
qed

section \<open>A run of the whole chain\<close>

lemma ref_reply_length:
  assumes "b64_write B a \<noteq> []" "b64_write B b \<noteq> []"
  shows "length (rpc_text ref_xml B m [a]) + length (b64_write B b) =
    length (rpc_text ref_xml B m [b]) + length (b64_write B a)"
  using assms by (simp add: rpc_text_def ref_xml_def rpc_doc_def rpc_param_def xmlNewChild_def)

lemma ref_replies_fit: "\<forall>v. int32 v \<longrightarrow> length (rpc_text ref_xml rfc4648 ''StartApp'' [show_int v]) < MAX_LEN"
proof (intro allI impI)
  fix v assume v: "int32 v"
  have l: "length (b64_write rfc4648 (show_int i)) = 4 * ((length (show_int i) + 2) div 3)" for i
    by (rule b64_writeE [OF rfc4648_law])
  have "0 < length (show_int i)" for i by (simp only: length_greater_0_conv show_int_nonempty not_False_eq_True)
  then have p: "0 < length (b64_write rfc4648 (show_int i))" for i
    unfolding l by (simp add: div_greater_zero_iff Suc_le_eq)
  have n: "b64_write rfc4648 (show_int i) \<noteq> []" for i
    by (rule iffD1 [OF length_greater_0_conv p])
  have "length (b64_write rfc4648 (show_int v)) \<le> 100"
    unfolding l using length_show_int [OF v] by linarith
  with ref_reply_length [OF n n, of "''StartApp''" v 5] demo_accept_lengths(2)
  show "length (rpc_text ref_xml rfc4648 ''StartApp'' [show_int v]) < MAX_LEN" by linarith
qed

text \<open>The core of the example, a launch of the VM u1 with the number 5, and its measurement.\<close>

definition chain_args :: "cstr list" where
  "chain_args = proxy_args [] [] ''/d/u1/disk'' ''u1''"

definition chain_core :: "ref_world core" where
  "chain_core = demo_core ''MeasureAndEnforce'' ''ab12'' ''ab12'' []"

lemma chain_start:
  "map_option (\<lambda>(r, s). (r, proc_table s)) (StartApp ref_host ref_xpath demo_globals 5 chain_args chain_core) =
     Some ((TCSERVICE_RESULT_SUCCESS, Some 5), [(5, demo_entry ''Enforce'' ''ab12'' True VM_STATUS_STOPPED)])"
  by code_simp

lemma chain_policy:
  "map_option (\<lambda>r. (r_policy r, r_golden r))
     (policy_found ref_host ref_xpath demo_globals chain_args chain_core) = Some (''Enforce'', ''ab12'')"
  by code_simp

abbreviation chain_request :: string where
  "chain_request \<equiv> request_bytes VM2RP_STARTAPP (rpc_text ref_xml rfc4648 ''foo'' chain_args)"

abbreviation chain_reply :: string where
  "chain_reply \<equiv> request_bytes VM2RP_STARTAPP (rpc_text ref_xml rfc4648 ''StartApp'' [show_int 5])"

lemma chain_paths: "\<forall>a \<in> {[], [], ''/d/u1/disk'', ''u1''}. wire_arg a \<and> \<not> is_flag a"
  by (simp add: wire_arg_def nul_free_def is_flag_def)

lemma chain_served:
  "\<exists>s'. serviceRequest demo_env 5 VM2RP_STARTAPP (doc_text demo_env ''foo'' chain_args) chain_core =
       Done (reply_doc demo_env ''StartApp'' [show_int 5], s') \<and>
     proc_table s' = [(5, demo_entry ''Enforce'' ''ab12'' True VM_STATUS_STOPPED)]"
proof -
  obtain s' where st: "StartApp ref_host ref_xpath demo_globals 5 chain_args chain_core =
      Some ((TCSERVICE_RESULT_SUCCESS, Some 5), s')"
    "proc_table s' = [(5, demo_entry ''Enforce'' ''ab12'' True VM_STATUS_STOPPED)]"
    using chain_start by (rule run_table_obtain)
  have "\<forall>a \<in> set chain_args. wire_arg a"
    by (simp add: chain_args_def proxy_args_def wire_arg_def nul_free_def)
  then have send: "sendable demo_env ''foo'' chain_args"
    using demo_accept_lengths(1) method_names(4) by (simp add: sendable_def chain_args_def)
  have E: "e_xpath demo_env = ref_xpath" "e_globals demo_env = demo_globals"
    by (simp_all add: demo_env_def)
  have "int32 5" by (simp add: int32_def)
  with serve_STARTAPP_doc [OF demo_env_law send, of 5 chain_core TCSERVICE_RESULT_SUCCESS "Some 5" s'] st
  show ?thesis by (simp add: E chain_args_def proxy_args_def)
qed

lemma chain_session:
  "\<exists>c' s'. handle_session demo_env sock_recv sock_send (\<lambda>s. s) 4 (answered chain_request) chain_core =
     Done (5, c', s') \<and> outbox c' = chain_reply"
proof -
  have id: "generate_req_id 4 = (5, 5)" by (simp add: generate_req_id_def INT32_MAX_def)
  obtain s' where "serviceRequest demo_env 5 VM2RP_STARTAPP (doc_text demo_env ''foo'' chain_args) chain_core =
      Done (reply_doc demo_env ''StartApp'' [show_int 5], s')"
    using chain_served by blast
  moreover have fits: "length (rpc_text ref_xml rfc4648 ''foo'' chain_args) < MAX_LEN"
    using demo_accept_lengths(1) by (simp add: chain_args_def)
  moreover have "nul_free (rpc_text ref_xml rfc4648 ''foo'' chain_args)"
    by (rule rpc_text_wire(1) [OF ref_xml_law rfc4648_law method_names(4) fits])
  moreover have "int32 5" by (simp add: int32_def)
  then have "sendable demo_env ''StartApp'' [show_int 5]"
    using ref_replies_fit method_names(3) by (simp add: sendable_def)
  ultimately show ?thesis
    using wire.core_sends_doc [OF demo_env_law, of "answered chain_request" VM2RP_STARTAPP
        "rpc_text ref_xml rfc4648 ''foo'' chain_args" 4 chain_core "''StartApp''" "[show_int 5]" s'] id
    by (auto simp: answered_def pending_in_def)
qed


theorem launch_completes_witness:
  "\<exists>av c' s' p'. handle_session demo_env sock_recv sock_send (\<lambda>s. s) 4 (answered chain_request) chain_core =
       Done (5, c', s') \<and>
     proxy_main ref_xml rfc4648 sock_host sock_net (\<lambda>_. sock_recv) (\<lambda>_. sock_send) (\<lambda>_ s. s) (\<lambda>_. None) demo_argv
       (answered chain_reply) = Some (Exec av, p') \<and> connected pending_in outbox pending_in outbox (answered chain_reply) p' (answered chain_request) c'"
proof -
  obtain c1 s1 where core: "handle_session demo_env sock_recv sock_send (\<lambda>s. s) 4 (answered chain_request) chain_core =
      Done (5, c1, s1)" "outbox c1 = chain_reply"
    using chain_session by blast
  obtain s2 where st: "StartApp ref_host ref_xpath demo_globals 5 chain_args chain_core =
      Some ((TCSERVICE_RESULT_SUCCESS, Some 5), s2)"
    using chain_start by (rule run_table_obtain)
  have net: "conn_open sock_net (answered chain_reply) = (0, 3, answered chain_reply)"
    by (simp add: conn_open_def channel_open_def ch_open_def sock_net_def)
  have id: "generate_req_id 4 = (5, 5)" by (simp add: generate_req_id_def INT32_MAX_def)
  have paths: "path_arg (kernel_path demo_launch) = []" "path_arg (initrd_path demo_launch) = []"
    by (simp_all add: demo_launch_fields path_arg_def)
  have E: "e_host demo_env = ref_host" "e_xpath demo_env = ref_xpath" "e_globals demo_env = demo_globals"
    "e_xml demo_env = ref_xml" "e_b64 demo_env = rfc4648"
    by (simp_all add: demo_env_def)
  have fits: "length (rpc_text ref_xml rfc4648 ''foo'' (proxy_args [] [] ''/d/u1/disk'' ''u1'')) < MAX_LEN"
    using demo_accept_lengths(1) by simp
  have "pending_in (answered chain_reply) = outbox c1" using core(2) by simp
  with launch_completes [where rcvs = "\<lambda>_. sock_recv" and sends = "\<lambda>_. sock_send" and cls = "\<lambda>_ s. s", OF wire.closing_end_axioms wire.closing_end_axioms demo_env_law demo_scan demo_launch_fields(1,2) demo_disk, where Hp = sock_host
      and N = sock_net and w = "answered chain_reply" and p = "answered chain_reply" and fd = 3 and n = 4
      and procid = 5 and s = chain_core and c = "answered chain_request" and getenv = "\<lambda>_. None"]
    core(1) st id net chain_paths fits ref_replies_fit paths
  show ?thesis
    by (auto simp: E sock_host_def chain_core_def demo_core_def answered_def chain_args_def pending_in_def
        patch_kernel_args_def demo_launch_fields)
qed

section \<open>A status report\<close>

context closing_end
begin

lemma update_vm_status_sent:
  assumes law: "xml_law X" "b64_law B" and u: "wire_arg u" and st: "int32 st"
    and req: "length (rpc_text X B ''set_vm_uuid'' [u, show_int st]) < MAX_LEN"
    and op: "listener_channel_open N s0 = (fd, s)" "0 \<le> fd" "rcvs fd = rcv" "sends fd = snd_fn" "cls fd = cl"
    and run: "update_vm_status X B N rcvs sends cls u st s0 = Some (r, s')"
  shows "sent s' = sent s @ request_bytes VM2RP_SETVM_STATUS (rpc_text X B ''set_vm_uuid'' [u, show_int st])"
proof -
  let ?q = "rpc_text X B ''set_vm_uuid'' [u, show_int st]"
  have "\<forall>a \<in> set [u, show_int st]. wire_arg a" using u st by simp
  from args_to_xmlrpc_law [OF law(2) this, of X "''set_vm_uuid''"]
  have "encodeVM2RP_SETVM_STATUS X B u st n [] = (int (length ?q), ?q)" for n
    using rpc_text_wire(2) [OF law method_names(1) req] st by (simp add: encodeVM2RP_SETVM_STATUS_def)
  then have "client_message LISTENER_PARAMSIZE VM2RP_SETVM_STATUS (encodeVM2RP_SETVM_STATUS X B u st n []) =
      Some (request_bytes VM2RP_SETVM_STATUS ?q)" for n
    using client_message_doc [of ?q LISTENER_PARAMSIZE] req by simp
  moreover have "sent (cls fd t) = sent t" for t using cl_sent op(5) by simp
  ultimately obtain data s2 where
    "exchange (rcvs fd) (sends fd) LISTENER_PARAMSIZE (request_bytes VM2RP_SETVM_STATUS ?q) s = Some (data, s2)"
    "sent s' = sent s2"
    using run op(1,2) by (auto simp: update_vm_status_def split: option.splits if_splits)
  then show ?thesis using exchange_sent op(3,4) by simp
qed

end

text \<open>
  C6: an event of a domain reaches the core's table. When the listener reports the status an
  event stands for over a connection to a session of the core, whatever its sockets are, the
  session performs exactly that status update on the entry with the domain's UUID: a cancelled
  entry stays, DELETED removes it, and STARTED and STOPPED are stored with the time.
\<close>

theorem event_reaches_table:
  assumes client: "closing_end (rcvs fd) pending (sends fd) sent (cls fd)"
    and core_end: "closing_end rcv core_pending snd_fn core_sent cl"
    and law: "env_law E"
    and event: "domainEventCallback (update_vm_status (e_xml E) (e_b64 E) N rcvs sends
        cls) C uuid event detail l = Some l'" "event_status C event detail = Some st"
    and uuid: "wire_arg uuid" "length uuid \<le> 36"
    and req: "length (doc_text E ''set_vm_uuid'' [uuid, show_int st]) < MAX_LEN"
    and conn: "listener_channel_open N (lnet l) = (fd, p)" "0 \<le> fd" "connected pending sent core_pending core_sent p (lnet l') c c'"
    and core: "handle_session E rcv snd_fn cl n c s = Done (n', c', s')"
    and inv: "table_inv (proc_table s)" and e: "(k, e) \<in> set (proc_table s)" "m_uuid e = uuid"
    and clock: "h_time (e_host E) (os s) = (now, w)" "h_localtime_ok (e_host E) now"
  shows "proc_table s' =
      (if m_vm_status e = VM_STATUS_CANCELLED then proc_table s
       else if st = VM_STATUS_DELETED then map_erase k (proc_table s)
       else map_modify k (set_status now st) (proc_table s))"
proof -
  have laws: "xml_law (e_xml E)" "b64_law (e_b64 E)" using law by (simp_all add: env_law_def)
  have st: "int32 st" using event_status_range [of C event detail] event(2) by (auto simp: int32_def)
  let ?q = "doc_text E ''set_vm_uuid'' [uuid, show_int st]"
  obtain r where "update_vm_status (e_xml E) (e_b64 E) N rcvs sends cls
      uuid st (lnet l) = Some (r, lnet l')"
    using event uuid(2) by (auto simp: domainEventCallback_def)
  from closing_end.update_vm_status_sent [OF client laws uuid(1) st req conn(1,2) refl refl refl this]
  have pend: "core_pending c = request_bytes VM2RP_SETVM_STATUS ?q"
    using conn(3) by (simp add: connected_def)
  have send: "sendable E ''set_vm_uuid'' [uuid, show_int st]"
    using uuid(1) st req method_names(1) by (simp add: sendable_def)
  have "nul_free ?q" by (rule rpc_text_wire(1) [OF laws method_names(1) req])
  then obtain x where "serviceRequest E (fst (generate_req_id n)) VM2RP_SETVM_STATUS ?q s = Done (x, s')"
    using closing_end.handle_session_serves [OF core_end pend _ _ core] req by auto
  then have "s' = snd (UpdateAppStatus (e_host E) uuid st s)"
    unfolding serve_SETVM_STATUS_doc [OF law send st] by (auto split: prod.splits)
  with UpdateAppStatus_entry [OF inv e(1) clock, of st] e(2) show ?thesis by simp
qed

definition accepted_table :: ptab where
  "accepted_table = [(5, demo_entry ''Enforce'' ''ab12'' True VM_STATUS_STOPPED)]"

lemma accepted_table_inv: "table_inv accepted_table"
proof -
  obtain s' where "StartApp ref_host ref_xpath demo_globals 5 chain_args chain_core =
      Some ((TCSERVICE_RESULT_SUCCESS, Some 5), s')" "proc_table s' = accepted_table"
    using chain_start unfolding accepted_table_def by (rule run_table_obtain)
  with table_inv_StartApp [OF this(1)] show ?thesis
    by (simp add: chain_core_def demo_core_def)
qed

abbreviation report_request :: string where
  "report_request \<equiv> request_bytes VM2RP_SETVM_STATUS
     (rpc_text ref_xml rfc4648 ''set_vm_uuid'' [''u1'', show_int VM_STATUS_STARTED])"

abbreviation report_reply :: string where
  "report_reply \<equiv> request_bytes VM2RP_SETVM_STATUS (rpc_text ref_xml rfc4648 ''update_vm_status'' [show_int 0])"

lemma report_length: "length (rpc_text ref_xml rfc4648 ''set_vm_uuid'' [''u1'', show_int VM_STATUS_STARTED]) < 300"
  by code_simp

lemma report_session:
  "\<exists>c' s'. handle_session demo_env sock_recv sock_send (\<lambda>s. s) 7 (answered report_request) (demo_state accepted_table) =
     Done (8, c', s') \<and> outbox c' = report_reply"
proof -
  let ?q = "rpc_text ref_xml rfc4648 ''set_vm_uuid'' [''u1'', show_int VM_STATUS_STARTED]"
  have id: "generate_req_id 7 = (8, 8)" by (simp add: generate_req_id_def INT32_MAX_def)
  have one: "int32 VM_STATUS_STARTED" "int32 0" by (simp_all add: int32_def)
  have fits: "length ?q < MAX_LEN" using report_length by simp
  have send: "sendable demo_env ''set_vm_uuid'' [''u1'', show_int VM_STATUS_STARTED]"
    using fits one method_names(1) by (simp add: sendable_def wire_arg_def [of "''u1''"] nul_free_def)
  have rep: "sendable demo_env ''update_vm_status'' [show_int 0]"
    using demo_verdict_length one method_names(2) by (simp add: sendable_def)
  obtain s' where s': "UpdateAppStatus ref_host ''u1'' VM_STATUS_STARTED (demo_state accepted_table) =
      (TCSERVICE_RESULT_SUCCESS, s')"
    using UpdateAppStatus_entry [of "demo_state accepted_table" 5
        "demo_entry ''Enforce'' ''ab12'' True VM_STATUS_STOPPED" ref_host 1000 ref_world0 VM_STATUS_STARTED]
      accepted_table_inv
    by (cases "UpdateAppStatus ref_host ''u1'' VM_STATUS_STARTED (demo_state accepted_table)")
      (simp add: accepted_table_def demo_entry_def ref_host_def ref_world0_def)
  have "serviceRequest demo_env 8 VM2RP_SETVM_STATUS ?q (demo_state accepted_table) =
      Done (reply_doc demo_env ''update_vm_status'' [show_int 0], s')"
    using serve_SETVM_STATUS_doc [OF demo_env_law send one(1), of 8 "demo_state accepted_table"] s'
    by (simp add: bits_show)
  moreover have "nul_free ?q" by (rule rpc_text_wire(1) [OF ref_xml_law rfc4648_law method_names(1) fits])
  ultimately show ?thesis
    using wire.core_sends_doc [OF demo_env_law, of "answered report_request" VM2RP_SETVM_STATUS ?q 7
        "demo_state accepted_table" "''update_vm_status''" "[show_int 0]" s'] fits rep id
    by (auto simp: answered_def pending_in_def)
qed

theorem event_reaches_table_witness:
  "\<exists>c' s'. handle_session demo_env sock_recv sock_send (\<lambda>s. s) 7 (answered report_request) (demo_state accepted_table) =
       Done (8, c', s') \<and>
     proc_table s' = [(5, set_status 1000 VM_STATUS_STARTED (demo_entry ''Enforce'' ''ab12'' True VM_STATUS_STOPPED))]"
proof -
  obtain c' s' where core: "handle_session demo_env sock_recv sock_send (\<lambda>s. s) 7 (answered report_request)
      (demo_state accepted_table) = Done (8, c', s')" "outbox c' = report_reply"
    using report_session by blast
  have u: "wire_arg ''u1''" by (simp add: wire_arg_def nul_free_def)
  have op: "listener_channel_open sock_net s = (3, s)" for s
    by (simp add: listener_channel_open_def ch_open_def sock_net_def ch_register_def)
  obtain p' where p: "update_vm_status ref_xml rfc4648 sock_net (\<lambda>_. sock_recv) (\<lambda>_. sock_send) (\<lambda>_ s. s)
      ''u1'' VM_STATUS_STARTED (answered report_reply) = Some (0, p')" "outbox p' = report_request"
    using wire.update_vm_status_reply [OF ref_xml_law rfc4648_law u _ _ _ _ op _ refl refl refl, of VM_STATUS_STARTED 0
        "answered report_reply"] report_length demo_verdict_length
    by (auto simp: int32_def answered_def pending_in_def)
  let ?l = "\<lparr>lrun = True, lexit = 1, lnet = answered report_reply\<rparr>"
  have event: "domainEventCallback (update_vm_status (e_xml demo_env) (e_b64 demo_env) sock_net (\<lambda>_. sock_recv)
      (\<lambda>_. sock_send) (\<lambda>_ s. s)) libvirt_consts ''u1'' 2 0 ?l = Some (?l\<lparr>lnet := p'\<rparr>)"
    using p(1) by (simp add: domainEventCallback_def event_status_def libvirt_consts_def)
  have conn: "connected pending_in outbox pending_in outbox (answered report_reply) (lnet (?l\<lparr>lnet := p'\<rparr>)) (answered report_request) c'"
    using core(2) p(2) by (simp add: connected_def answered_def pending_in_def)
  have "proc_table s' = [(5, set_status 1000 VM_STATUS_STARTED (demo_entry ''Enforce'' ''ab12'' True VM_STATUS_STOPPED))]"
    using event_reaches_table [where rcvs = "\<lambda>_. sock_recv" and sends = "\<lambda>_. sock_send" and cls = "\<lambda>_ s. s", OF wire.closing_end_axioms wire.closing_end_axioms demo_env_law event _ u _ _ _ _ conn core(1), of VM_STATUS_STARTED 3 5
        "demo_entry ''Enforce'' ''ab12'' True VM_STATUS_STOPPED" 1000 ref_world0]
      report_length accepted_table_inv op [of "answered report_reply"]
    by (simp add: event_status_def libvirt_consts_def accepted_table_def demo_entry_def ref_host_def ref_world0_def
        map_modify_def)
  with core(1) show ?thesis by blast
qed

end
