(* ===== verification/Registry.thy ===== *)
theory Registry
  imports End_To_End
begin

text \<open>
  What the core promises its clients, without keys, buffers and the operating system: a registry
  of instances by UUID that changes by three kinds of events.  The process table is a refinement
  of it: every operation of the core is, on the registry that the table stands for, the events
  that \<open>op_log\<close> computes from the operation's arguments and from what it measured.
\<close>

section \<open>The abstract registry\<close>

record inst =
  inst_type :: int
  inst_status :: int
  inst_policy :: cstr
  inst_verified :: bool

type_synonym registry = "cstr \<Rightarrow> inst option"

text \<open>
  A measured start with its verdict, a reported status, the removal of an instance.
\<close>

datatype reg_event =
  Launch cstr int cstr bool
| Status cstr int
| Gone cstr

text \<open>
  A new VM is not running before QEMU reports it, a container is.  A refused instance is
  cancelled; an accepted start does not take a VM out of the status it has.
\<close>

definition launched :: "int \<Rightarrow> cstr \<Rightarrow> bool \<Rightarrow> inst option \<Rightarrow> inst" where
  "launched ty pol ok old =
     (let x = (case old of
                 None \<Rightarrow> \<lparr>inst_type = ty,
                          inst_status = (if ty = INSTANCE_TYPE_VM then VM_STATUS_STOPPED else VM_STATUS_STARTED),
                          inst_policy = pol, inst_verified = ok\<rparr>
               | Some x \<Rightarrow> x\<lparr>inst_policy := pol, inst_verified := ok\<rparr>)
      in if \<not> ok \<and> pol = ''Enforce'' then x\<lparr>inst_status := VM_STATUS_CANCELLED\<rparr>
         else if inst_type x = INSTANCE_TYPE_DOCKER then x\<lparr>inst_status := VM_STATUS_STARTED\<rparr>
         else x)"

fun reg_apply :: "reg_event \<Rightarrow> registry \<Rightarrow> registry" where
  "reg_apply (Launch u ty pol ok) R = R(u \<mapsto> launched ty pol ok (R u))"
| "reg_apply (Status u st) R =
     (case R u of
        None \<Rightarrow> R
      | Some x \<Rightarrow>
          if inst_status x = VM_STATUS_CANCELLED then R
          else if st = VM_STATUS_DELETED then R(u := None)
          else R(u \<mapsto> x\<lparr>inst_status := st\<rparr>))"
| "reg_apply (Gone u) R = R(u := None)"

definition reg_verified :: "registry \<Rightarrow> cstr \<Rightarrow> int + int" where
  "reg_verified R u =
     (case R u of
        None \<Rightarrow> Inl TCSERVICE_RESULT_FAILED
      | Some x \<Rightarrow> Inr (if inst_verified x then 1 else 0))"

text \<open>A cancelled VM stays cancelled until it is removed.\<close>

definition cancelled_vm :: "inst option \<Rightarrow> bool" where
  "cancelled_vm old \<longleftrightarrow> (case old of None \<Rightarrow> False
     | Some x \<Rightarrow> inst_status x = VM_STATUS_CANCELLED \<and> inst_type x = INSTANCE_TYPE_VM)"

lemma reg_apply_cancelled:
  "cancelled_vm (R u) \<Longrightarrow> ev \<noteq> Gone u \<Longrightarrow> cancelled_vm (reg_apply ev R u)"
  by (cases ev) (auto simp: cancelled_vm_def launched_def Let_def split: option.splits)

text \<open>Only a start can change a verdict.\<close>

lemma reg_apply_verdict:
  assumes "reg_verified (reg_apply ev R) u = Inr b"
  shows "reg_verified R u = Inr b \<or> (\<exists>ty pol. ev = Launch u ty pol (b = 1))"
  using assms
  by (cases ev)
    (auto simp: reg_verified_def launched_def Let_def split: option.splits if_splits)

text \<open>What every event of a log keeps, the log keeps; and a verdict comes from a start in it.\<close>

lemma fold_reg_keeps:
  "I R \<Longrightarrow> (\<And>ev R. ev \<in> set log \<Longrightarrow> I R \<Longrightarrow> I (reg_apply ev R)) \<Longrightarrow> I (fold reg_apply log R)"
  by (induction log arbitrary: R) simp_all

lemma fold_reg_verdict:
  "reg_verified (fold reg_apply log R) u = Inr b \<Longrightarrow>
   reg_verified R u = Inr b \<or> (\<exists>ty pol. Launch u ty pol (b = 1) \<in> set log)"
proof (induction log arbitrary: R)
  case (Cons ev log)
  then show ?case using reg_apply_verdict [of ev R u b] by fastforce
qed simp

section \<open>The registry a table stands for\<close>

definition inst_view :: "serviceprocEnt \<Rightarrow> inst" where
  "inst_view e =
     \<lparr>inst_type = m_instance_type e, inst_status = m_vm_status e,
      inst_policy = m_vm_launch_policy e, inst_verified = m_vm_verfication_status e\<rparr>"

definition registry_of :: "ptab \<Rightarrow> registry" where
  "registry_of t = map_of (map (\<lambda>(k, e). (m_uuid e, inst_view e)) t)"

lemma registry_of_Nil [simp]: "registry_of [] = Map.empty"
  and registry_of_Cons [simp]:
    "registry_of ((k, e) # t) = (registry_of t)(m_uuid e \<mapsto> inst_view e)"
  by (simp_all add: registry_of_def)

lemma registry_of_None: "registry_of t u = None \<longleftrightarrow> (\<forall>(k, e) \<in> set t. m_uuid e \<noteq> u)"
  unfolding registry_of_def map_of_eq_None_iff by force

lemma uuids_distinct_Cons [simp]:
  "uuids_distinct ((k, e) # t) \<longleftrightarrow> registry_of t (m_uuid e) = None \<and> uuids_distinct t"
  by (force simp: uuids_distinct_def registry_of_None)

lemma registry_of_entry:
  "uuids_distinct t \<Longrightarrow> (k, e) \<in> set t \<Longrightarrow> registry_of t (m_uuid e) = Some (inst_view e)"
  by (induction t) (auto simp: registry_of_None)

lemma registry_of_Some:
  "registry_of t u = Some x \<Longrightarrow> \<exists>k e. (k, e) \<in> set t \<and> m_uuid e = u \<and> inst_view e = x"
  unfolding registry_of_def by (auto dest!: map_of_SomeD) blast

lemma registry_of_modify:
  assumes "map_ok t" "uuids_distinct t" "map_of t k = Some e" "m_uuid (f e) = m_uuid e"
  shows "registry_of (map_modify k f t) = (registry_of t)(m_uuid e \<mapsto> inst_view (f e))"
  using assms
proof (induction t)
  case (Cons a t)
  obtain j d where a: "a = (j, d)" by force
  have ok: "map_ok t" and ud: "uuids_distinct t" using Cons.prems a by (auto simp: map_ok_def)
  show ?case
  proof (cases "j = k")
    case True
    then have "map_modify k f t = t"
      using Cons.prems(1) a map_ok_distinct [OF Cons.prems(1)]
      by (force simp: map_modify_def intro: map_idI)
    with True Cons.prems a show ?thesis by (auto simp: map_modify_def)
  next
    case False
    with Cons.prems a have e: "map_of t k = Some e" by simp
    then have "m_uuid e \<noteq> m_uuid d"
      using Cons.prems(2) a by (auto simp: registry_of_None dest: map_of_SomeD)
    with Cons.IH [OF ok ud e Cons.prems(4)] False a show ?thesis
      by (auto simp: map_modify_def)
  qed
qed simp

lemma registry_of_erase:
  assumes "map_ok t" "uuids_distinct t" "map_of t k = Some e"
  shows "registry_of (map_erase k t) = (registry_of t)(m_uuid e := None)"
  using assms
proof (induction t)
  case (Cons a t)
  obtain j d where a: "a = (j, d)" by force
  have ok: "map_ok t" and ud: "uuids_distinct t" using Cons.prems a by (auto simp: map_ok_def)
  show ?case
  proof (cases "j = k")
    case True
    then have "map_erase k t = t"
      using Cons.prems(1) a map_ok_distinct [OF Cons.prems(1)]
      by (force simp: map_erase_def intro: filter_True)
    with True Cons.prems a show ?thesis by (auto simp: map_erase_def fun_upd_idem)
  next
    case False
    with Cons.prems a have e: "map_of t k = Some e" by simp
    then have "m_uuid e \<noteq> m_uuid d"
      using Cons.prems(2) a by (auto simp: registry_of_None dest: map_of_SomeD)
    with Cons.IH [OF ok ud e] False a show ?thesis
      by (auto simp: map_erase_def)
  qed
qed simp

lemma registry_of_insert:
  "map_of t k = None \<Longrightarrow> registry_of t (m_uuid e) = None \<Longrightarrow>
   registry_of (map_insert k e t) = (registry_of t)(m_uuid e \<mapsto> inst_view e)"
proof (induction k e t rule: map_insert.induct)
  case (2 k e j d t)
  then show ?case by (auto simp: fun_upd_twist split: if_splits)
qed simp

section \<open>The operations on the registry\<close>

text \<open>\<open>IsVerified\<close> reads the registry, whatever the table.\<close>

lemma IsVerified_registry: "IsVerified u t = reg_verified (registry_of t) u"
  by (induction u t rule: IsVerified.induct) (simp_all add: reg_verified_def inst_view_def)

lemma getactivevmsuuid_registry:
  assumes "uuids_distinct t"
  shows "fst ` set (snd (getactivevmsuuid [] t)) =
    {u. \<exists>x. registry_of t u = Some x \<and> inst_type x = INSTANCE_TYPE_VM \<and> inst_status x \<noteq> VM_STATUS_CANCELLED}"
proof -
  have "fst ` set (insert_active vms t) = fst ` set vms \<union>
      {u. \<exists>x. registry_of t u = Some x \<and> inst_type x = INSTANCE_TYPE_VM \<and> inst_status x \<noteq> VM_STATUS_CANCELLED}" for vms
    using assms
    by (induction vms t rule: insert_active.induct) (auto simp: keys_map_insert inst_view_def split: if_splits)
  then show ?thesis by (simp add: getactivevmsuuid_def Let_def)
qed

lemma removeprocEntry_registry:
  assumes "table_inv (proc_table s)" "map_of (proc_table s) k = Some e"
  shows "registry_of (proc_table (snd (removeprocEntry H k s))) =
    reg_apply (Gone (m_uuid e)) (registry_of (proc_table s))"
  using registry_of_erase [OF table_invD(5,3) [OF assms(1)] assms(2)] by (simp add: removeprocEntry_result)

lemma removeprocEntry_uuid_registry:
  assumes "table_inv (proc_table s)"
  shows "registry_of (proc_table (snd (removeprocEntry_uuid H u s))) =
    reg_apply (Gone u) (registry_of (proc_table s))"
proof -
  note i = table_invD [OF assms]
  let ?k = "getprocIdfromuuid u (proc_table s)"
  show ?thesis
  proof (cases "?k = 0")
    case True
    then have "registry_of (proc_table s) u = None"
      using getprocIdfromuuid_none [OF i(4)] by (simp add: registry_of_None)
    with True show ?thesis by (simp add: removeprocEntry_uuid_def fun_upd_idem)
  next
    case False
    then obtain e where e: "map_of (proc_table s) ?k = Some e" "m_uuid e = u"
      using getprocIdfromuuid_lookup [OF i(5) refl] by blast
    with False registry_of_erase [OF i(5,3) e(1)] show ?thesis
      by (simp add: removeprocEntry_uuid_def removeprocEntry_result)
  qed
qed

text \<open>A status report is the event \<open>Status\<close>, unless the time cannot be converted.\<close>

lemma UpdateAppStatus_registry:
  assumes "table_inv (proc_table s)"
  shows "registry_of (proc_table (snd (UpdateAppStatus H u st s))) =
    (if fst (UpdateAppStatus H u st s) = TCSERVICE_RESULT_SUCCESS
     then reg_apply (Status u st) (registry_of (proc_table s)) else registry_of (proc_table s))"
proof -
  note i = table_invD [OF assms]
  let ?k = "getprocIdfromuuid u (proc_table s)"
  show ?thesis
  proof (cases "?k = 0")
    case False
    then obtain e where e: "map_of (proc_table s) ?k = Some e" "m_uuid e = u"
      using getprocIdfromuuid_lookup [OF i(5) refl] by blast
    then have r: "registry_of (proc_table s) u = Some (inst_view e)"
      using registry_of_entry [OF i(3)] by (metis map_of_SomeD)
    have m: "registry_of (map_modify ?k f (proc_table s)) = (registry_of (proc_table s))(u \<mapsto> inst_view (f e))"
      if "m_uuid (f e) = m_uuid e" for f
      using registry_of_modify [where f = f, OF i(5,3) e(1) that] e(2) by simp
    have "fst (removeprocEntry_uuid H u s)"
      using False e by (simp add: removeprocEntry_uuid_def removeprocEntry_result)
    then show ?thesis
      using False e r m removeprocEntry_uuid_registry [OF assms, of H u]
      by (auto simp: UpdateAppStatus_def getEntfromprocId_def inst_view_def Let_def fun_upd_idem split: prod.splits)
  qed (simp add: UpdateAppStatus_def)
qed

text \<open>Registering a measured instance is one event \<open>Launch\<close>.\<close>

lemma strcpy_s_policy [simp]: "strcpy_s LAUNCH_POLICY_SIZE p = ''Enforce'' \<longleftrightarrow> p = ''Enforce''"
  by (auto simp: strcpy_s_def)

lemma inst_view_updated:
  "inst_view (updated_entry d nm e) =
     launched (m_instance_type e) (strcpy_s LAUNCH_POLICY_SIZE (launch_policy d)) (verification_status d)
       (Some (inst_view e))"
  by (simp add: updated_entry_def set_meta_def set_launch_status_def set_instance_name_def launched_def
      inst_view_def Let_def split: option.splits)

lemma launched_fresh:
  "launched ty pol ok None =
     launched ty pol ok (Some (inst_view (fresh_entry Linux now file u sz h ty)))"
  by (simp add: launched_def inst_view_def fresh_entry_def new_serviceprocEnt_def Let_def)

lemma launched_type: "launched ty pol ok (Some x) = launched ty' pol ok (Some x)"
  by (simp add: launched_def)

lemma updateprocEntry_registry:
  assumes "table_inv (proc_table s)" "map_of (proc_table s) k = Some e"
  shows "registry_of (proc_table (snd (updateprocEntry H Linux k d nm s))) =
    (registry_of (proc_table s))(m_uuid e \<mapsto>
       launched ty (strcpy_s LAUNCH_POLICY_SIZE (launch_policy d)) (verification_status d) (Some (inst_view e)))"
proof -
  note i = table_invD [OF assms(1)]
  let ?f = "\<lambda>e. set_instance_name nm (set_launch_status Linux d (set_meta d e))"
  have "registry_of (map_modify k ?f (proc_table s)) = (registry_of (proc_table s))(m_uuid e \<mapsto> inst_view (?f e))"
    by (rule registry_of_modify [where f = ?f, OF i(5,3) assms(2)]) simp
  with assms(2) show ?thesis
    using inst_view_updated [of d nm e] launched_type [of "m_instance_type e" _ _ _ ty]
    by (simp add: updateprocEntry_def updated_entry_def Let_def)
qed

text \<open>The event goes to the instance's UUID, or to that of the entry whose number is reused.\<close>

lemma register_instance_registry:
  assumes inv: "table_inv (proc_table s)" and p: "procid \<noteq> 0" and u: "args_wf (r_args r)"
  shows "registry_of (proc_table (snd (register_instance H r procid h v s))) =
    reg_apply (Launch (recording_uuid r procid (proc_table s)) (a_type (r_args r))
      (strcpy_s LAUNCH_POLICY_SIZE (r_policy r)) v) (registry_of (proc_table s))"
proof -
  note i = table_invD [OF inv]
  let ?u = "a_uuid (r_args r)" and ?k = "run_child r procid s" and ?t = "a_type (r_args r)"
  define s1 where "s1 = snd (entry_core H r procid s)"
  have inv1: "table_inv (proc_table s1)"
    unfolding s1_def by (rule table_inv_entry_core [OF inv p u])
  have reg: "proc_table (snd (register_instance H r procid h v s)) =
      proc_table (snd (updateprocEntry H Linux ?k (run_meta r h v) (run_name r) s1))"
    by (simp add: register_instance_eq [OF u] s1_def [symmetric] Let_def split: prod.splits)
  note upd = updateprocEntry_registry [OF inv1, of ?k _ H "run_meta r h v" "run_name r" ?t]
  have old: ?thesis if t: "proc_table s1 = proc_table s" and e: "map_of (proc_table s) ?k = Some e"
    and target: "recording_uuid r procid (proc_table s) = m_uuid e" for e
  proof -
    have "registry_of (proc_table s) (m_uuid e) = Some (inst_view e)"
      using registry_of_entry [OF i(3) map_of_SomeD [OF e]] .
    with upd [of e] t e target show ?thesis by (simp add: reg run_meta_def)
  qed
  show ?thesis
  proof (cases "getprocIdfromuuid ?u (proc_table s) = 0")
    case False
    then have "proc_table s1 = proc_table s" by (simp add: s1_def entry_core_def)
    moreover obtain e where "map_of (proc_table s) ?k = Some e" "m_uuid e = ?u"
      using getprocIdfromuuid_lookup [OF i(5) refl False] False by (auto simp: run_child_def Let_def)
    ultimately show ?thesis using old False by (simp add: recording_uuid_def)
  next
    case new: True
    then have k: "?k = procid" by (simp add: run_child_def)
    obtain now e where e: "e = fresh_entry Linux now (a_kernel (r_args r)) ?u 32 (replicate 32 0) ?t"
      and t: "proc_table s1 = map_insert procid e (proc_table s)"
      using new by (cases "h_time H (os s)") (auto simp: s1_def entry_core_def addprocEntry_def)
    have id: "m_uuid e = ?u" using u by (simp add: e args_wf_def)
    show ?thesis
    proof (cases "map_of (proc_table s) procid")
      case (Some f)
      then show ?thesis
        using old [of f] t k map_insert_existing [OF i(5)] new by (simp add: recording_uuid_def)
    next
      case None
      have n: "registry_of (proc_table s) ?u = None"
        using new getprocIdfromuuid_none [OF i(4)] by (simp add: registry_of_None)
      have "map_of (proc_table s1) procid = Some e"
        using None i(5) by (simp add: t map_of_insert_ok)
      moreover have "registry_of (map_insert procid e (proc_table s)) = (registry_of (proc_table s))(?u \<mapsto> inst_view e)"
        using registry_of_insert [OF None, of e] id n by simp
      moreover have "launched ?t pol ok None = launched ?t pol ok (Some (inst_view e))" for pol ok
        unfolding e by (rule launched_fresh)
      ultimately show ?thesis
        using upd [of e] n id None new by (simp add: reg k t run_meta_def recording_uuid_def)
    qed
  qed
qed

section \<open>The events of an operation\<close>

text \<open>The hash that a start measures, once its policy is found; \<open>None\<close> when it fails before.\<close>

definition measured_hash :: "'w host \<Rightarrow> globals \<Rightarrow> app_run \<Rightarrow> int \<Rightarrow> 'w \<Rightarrow> cstr option" where
  "measured_hash H G r procid w =
     (case (if a_type (r_args r) = INSTANCE_TYPE_VM then measure_vm H G r procid w
            else if a_type (r_args r) = INSTANCE_TYPE_DOCKER then measure_docker H r procid w
            else (Continue (), w)) of
        (Leave _ _, _) \<Rightarrow> None
      | (Continue _, w1) \<Rightarrow>
          (case read_measurement H r w1 of (Leave _ _, _) \<Rightarrow> None | (Continue h, _) \<Rightarrow> Some h))"

text \<open>A start that measures is one event, with the verdict on the hash; any other start is none.\<close>

definition start_log :: "'w host \<Rightarrow> globals \<Rightarrow> app_run \<Rightarrow> int \<Rightarrow> ptab \<Rightarrow> 'w \<Rightarrow> reg_event list" where
  "start_log H G r procid t w =
     (case measured_hash H G r procid w of
        None \<Rightarrow> []
      | Some h \<Rightarrow> [Launch (recording_uuid r procid t) (a_type (r_args r)) (r_policy r) (verify_hash r h)])"

definition launch_log ::
  "'w host \<Rightarrow> xpath_lib \<Rightarrow> globals \<Rightarrow> int \<Rightarrow> cstr list \<Rightarrow> 'w core \<Rightarrow> reg_event list"
where
  "launch_log H XP G procid av s =
     (if 30 < length av then []
      else case parse_args av 0 no_args of
        None \<Rightarrow> []
      | Some a \<Rightarrow>
          if \<not> args_ok a then []
          else case read_policy H XP a (reports_dir G a) (prepare_reports H a (reports_dir G a) (os s)) of
            (Leave _ _, _) \<Rightarrow> []
          | (Continue r, w) \<Rightarrow> start_log H G r procid (proc_table s) w)"

text \<open>A status report is one event when it succeeds.\<close>

definition status_log :: "'w host \<Rightarrow> cstr \<Rightarrow> int \<Rightarrow> 'w core \<Rightarrow> reg_event list" where
  "status_log H u st s =
     (if fst (UpdateAppStatus H u st s) = TCSERVICE_RESULT_SUCCESS then [Status u st] else [])"

definition request_log :: "('w, 'h) env \<Rightarrow> int \<Rightarrow> u32 \<Rightarrow> cstr \<Rightarrow> 'w core \<Rightarrow> reg_event list" where
  "request_log E procid uReq inparams s =
     (if uReq = VM2RP_STARTAPP
      then (case decodeVM2RP_STARTAPP (e_xml E) (e_b64 E) AV_SLOTS inparams of
              Some (True, _, av) \<Rightarrow> launch_log (e_host E) (e_xpath E) (e_globals E) procid av s
            | _ \<Rightarrow> [])
      else if uReq = VM2RP_SETVM_STATUS
      then (case decodeVM2RP_SETVM_STATUS (e_xml E) (e_b64 E) AV_SLOTS inparams of
              Some (True, _, av) \<Rightarrow> status_log (e_host E) (av ! 0) (atoi (av ! 1)) s
            | _ \<Rightarrow> [])
      else [])"

text \<open>A clean-up pass removes the instances whose entries have the status long enough.\<close>

definition clean_log :: "'w host \<Rightarrow> 64 word \<Rightarrow> int \<Rightarrow> 'w core \<Rightarrow> reg_event list" where
  "clean_log H age st s =
     map (\<lambda>k. Gone (m_uuid (the (map_of (proc_table s) k))))
       (fst (collect_expired H age st (proc_table s) (os s)))"

text \<open>A Hyper-V round removes the deleted VMs and reports the stopped ones, in the order of the map.\<close>

fun hyperv_log :: "'w host \<Rightarrow> (cstr, int) smap \<Rightarrow> 'w core \<Rightarrow> reg_event list" where
  "hyperv_log H [] s = []"
| "hyperv_log H ((u, st) # vms) s =
     (if st = VM_STATUS_DELETED then Gone u # hyperv_log H vms (snd (removeprocEntry_uuid H u s))
      else if st = VM_STATUS_STOPPED
      then status_log H u VM_STATUS_STOPPED s @ hyperv_log H vms (snd (UpdateAppStatus H u VM_STATUS_STOPPED s))
      else hyperv_log H vms s)"

definition round_log ::
  "'w host \<Rightarrow> platform \<Rightarrow> (cstr \<times> int) list option \<Rightarrow> (cstr, unit) smap \<Rightarrow> 'w core \<Rightarrow> reg_event list"
where
  "round_log H plat rows vms s =
     (case plat of
        Linux \<Rightarrow> []
      | Windows \<Rightarrow>
          (let (r, hyperv_vms) = get_hyperv_vms_status rows (map (\<lambda>(u, _). (u, VM_STATUS_UNKNOWN)) vms)
           in if r = 0 then hyperv_log H hyperv_vms s else []))"

section \<open>Every operation performs its events\<close>

lemma measure_and_register_registry:
  assumes inv: "table_inv (proc_table s)" and p: "procid \<noteq> 0" and u: "args_wf (r_args r)"
    and pol: "r_policy r = ''Audit'' \<or> r_policy r = ''Enforce''"
  shows "registry_of (proc_table (snd (measure_and_register H G r procid s))) =
    fold reg_apply (start_log H G r procid (proc_table s) (os s)) (registry_of (proc_table s))"
proof -
  let ?m = "if a_type (r_args r) = INSTANCE_TYPE_VM then measure_vm H G r procid (os s)
    else if a_type (r_args r) = INSTANCE_TYPE_DOCKER then measure_docker H r procid (os s)
    else (Continue (), os s)"
  obtain m w1 where m: "?m = (m, w1)" by force
  obtain q w2 where q: "read_measurement H r w1 = (q, w2)" by force
  have f: "proc_table (snd (fail_response H keep d t)) = proc_table t" for keep d and t :: "'a core"
    by (simp add: fail_response_def)
  show ?thesis
  proof (cases m)
    case (Leave g k)
    with m show ?thesis by (simp add: measure_and_register_def start_log_def measured_hash_def f)
  next
    case m': (Continue x)
    show ?thesis
    proof (cases q)
      case (Leave g k)
      with m m' q show ?thesis by (simp add: measure_and_register_def start_log_def measured_hash_def f)
    next
      case (Continue h)
      have l: "start_log H G r procid (proc_table s) (os s) =
          [Launch (recording_uuid r procid (proc_table s)) (a_type (r_args r)) (r_policy r) (verify_hash r h)]"
        using m m' q Continue by (simp add: start_log_def measured_hash_def)
      obtain ph s1 where
        ph: "register_instance H r procid h (verify_hash r h) (s\<lparr>os := w2\<rparr>) = (ph, s1)"
        by force
      have c: "strcpy_s LAUNCH_POLICY_SIZE (r_policy r) = r_policy r"
        using pol by (auto simp: strcpy_s_def)
      have "registry_of (proc_table s1) =
          fold reg_apply (start_log H G r procid (proc_table s) (os s)) (registry_of (proc_table s))"
        using register_instance_registry [of "s\<lparr>os := w2\<rparr>" procid r H h "verify_hash r h"] inv p u ph c
        by (simp add: l del: reg_apply.simps)
      moreover have "proc_table (snd (measure_and_register H G r procid s)) = proc_table s1"
        using m m' q Continue ph by (cases ph) (simp_all add: measure_and_register_def f Let_def)
      ultimately show ?thesis by simp
    qed
  qed
qed

lemma StartApp_registry:
  assumes "StartApp H XP G procid av s = Some (x, s')" and inv: "table_inv (proc_table s)" "procid \<noteq> 0"
  shows "registry_of (proc_table s') = fold reg_apply (launch_log H XP G procid av s) (registry_of (proc_table s))"
proof (cases "30 < length av")
  case True
  with assms(1) show ?thesis by (simp add: StartApp_def launch_log_def)
next
  case av: False
  obtain a where a: "parse_args av 0 no_args = Some a"
    using assms(1) av by (auto simp: StartApp_def split: option.splits)
  show ?thesis
  proof (cases "args_ok a")
    case False
    with assms(1) av a show ?thesis by (simp add: StartApp_def launch_log_def)
  next
    case True
    obtain ph w where p: "read_policy H XP a (reports_dir G a) (prepare_reports H a (reports_dir G a) (os s)) = (ph, w)"
      by force
    note run = assms(1) [unfolded StartApp_def reports_dir_def [symmetric] Let_def]
    show ?thesis
    proof (cases ph)
      case (Leave f k)
      with run av a True p show ?thesis
        by (cases f) (auto simp: launch_log_def fail_response_def)
    next
      case (Continue r)
      have "args_wf (r_args r)" "r_policy r = ''Audit'' \<or> r_policy r = ''Enforce''"
        using read_policy_run [of H XP a _ _ r w] parse_args_wf0 [OF a] p Continue by auto
      from measure_and_register_registry [OF _ inv(2) this, of "s\<lparr>os := w\<rparr>" H G] run av a True p Continue inv(1)
      show ?thesis by (simp add: launch_log_def)
    qed
  qed
qed

lemma status_log_registry:
  "table_inv (proc_table s) \<Longrightarrow> registry_of (proc_table (snd (UpdateAppStatus H u st s))) =
     fold reg_apply (status_log H u st s) (registry_of (proc_table s))"
  by (simp add: UpdateAppStatus_registry status_log_def del: reg_apply.simps)

lemma serviceRequest_registry:
  assumes run: "serviceRequest E procid uReq inparams s = Done (r, s')"
    and inv: "table_inv (proc_table s)" "procid \<noteq> 0"
  shows "registry_of (proc_table s') = fold reg_apply (request_log E procid uReq inparams s) (registry_of (proc_table s))"
proof -
  have u: "registry_of (proc_table t) = fold reg_apply (status_log (e_host E) u n s) (registry_of (proc_table s))"
    if "UpdateAppStatus (e_host E) u n s = (c, t)" for u n c t
    using status_log_registry [OF inv(1), of "e_host E" u n] that by simp
  consider "uReq = VM2RP_STARTAPP" | "uReq = VM2RP_SETVM_STATUS"
    | "uReq \<noteq> VM2RP_STARTAPP" "uReq \<noteq> VM2RP_SETVM_STATUS" by blast
  then show ?thesis
  proof cases
    case 1
    with run show ?thesis
      by (auto simp: serviceRequest_def request_log_def serve_STARTAPP_def Let_def
          dest!: StartApp_registry [OF _ inv] split: option.splits prod.splits if_splits bool.splits)
  next
    case 2
    with run show ?thesis
      by (auto simp: serviceRequest_def request_log_def serve_SETVM_STATUS_def Let_def
          dest!: u split: option.splits prod.splits if_splits bool.splits)
  next
    case 3
    with run show ?thesis
      by (auto simp: serviceRequest_def request_log_def dest!: serve_queries_state split: if_splits)
  qed
qed

lemma remove_keys_registry:
  assumes "table_inv (proc_table s)" "distinct ks" "\<forall>k \<in> set ks. map_of (proc_table s) k \<noteq> None"
  shows "registry_of (proc_table (snd (remove_keys H ks s))) =
    fold reg_apply (map (\<lambda>k. Gone (m_uuid (the (map_of (proc_table s) k)))) ks) (registry_of (proc_table s))"
  using assms
proof (induction ks arbitrary: s)
  case (Cons k ks)
  let ?s1 = "snd (removeprocEntry H k s)"
  obtain e where e: "map_of (proc_table s) k = Some e" using Cons.prems(3) by auto
  have same: "map_of (proc_table ?s1) j = map_of (proc_table s) j" if "j \<in> set ks" for j
    using that Cons.prems(2) by (auto simp: removeprocEntry_result map_of_erase)
  have "registry_of (proc_table (snd (remove_keys H ks ?s1))) =
      fold reg_apply (map (\<lambda>k. Gone (m_uuid (the (map_of (proc_table ?s1) k)))) ks) (registry_of (proc_table ?s1))"
    using Cons.prems same by (intro Cons.IH) (auto simp: table_inv_remove)
  moreover have "map (\<lambda>k. Gone (m_uuid (the (map_of (proc_table ?s1) k)))) ks =
      map (\<lambda>k. Gone (m_uuid (the (map_of (proc_table s) k)))) ks"
    by (rule map_cong) (simp_all add: same)
  ultimately show ?case
    using removeprocEntry_registry [OF Cons.prems(1) e, of H] e by (simp add: Let_def split_beta)
qed simp

lemma collect_expired_distinct:
  "map_ok t \<Longrightarrow> distinct (fst (collect_expired H age st t w)) \<and>
     set (fst (collect_expired H age st t w)) \<subseteq> fst ` set t"
proof (induction t arbitrary: w)
  case (Cons a t)
  obtain k e where a: "a = (k, e)" by force
  then have ok: "map_ok t" and k: "k \<notin> fst ` set t"
    using Cons.prems map_ok_distinct [OF Cons.prems] by (auto simp: map_ok_def)
  have IH: "distinct (fst (collect_expired H age st t v))"
    "set (fst (collect_expired H age st t v)) \<subseteq> fst ` set t" for v
    using Cons.IH [OF ok] by auto
  then have "k \<notin> set (fst (collect_expired H age st t v))" for v using k by blast
  with IH show ?case by (auto simp: a split_beta Let_def)
qed simp

lemma clean_log_registry:
  assumes "table_inv (proc_table s)"
  shows "registry_of (proc_table (snd (CleanVrtmTable H age st s))) =
    fold reg_apply (clean_log H age st s) (registry_of (proc_table s))"
proof -
  obtain ks w where c: "collect_expired H age st (proc_table s) (os s) = (ks, w)" by force
  have k: "distinct ks \<and> set ks \<subseteq> fst ` set (proc_table s)"
    using collect_expired_distinct [OF table_invD(5) [OF assms], of H age st "os s"] c by simp
  have "map_of (proc_table s) j \<noteq> None" if "j \<in> set ks" for j
    using k that unfolding map_of_eq_None_iff by blast
  with k remove_keys_registry [of "s\<lparr>os := w\<rparr>" ks H] assms c show ?thesis
    by (simp add: CleanVrtmTable_def clean_log_def)
qed

lemma hyperv_log_registry:
  "table_inv (proc_table s) \<Longrightarrow>
   registry_of (proc_table (snd (snd (apply_hyperv H vms d i s)))) =
     fold reg_apply (hyperv_log H vms s) (registry_of (proc_table s))"
proof (induction H vms d i s rule: apply_hyperv.induct)
  case (2 H u st vms d i s)
  note step = removeprocEntry_uuid_registry [OF "2.prems", of H u]
    status_log_registry [OF "2.prems", of H u VM_STATUS_STOPPED]
  have "table_inv (proc_table (snd (removeprocEntry_uuid H u s)))"
    "table_inv (proc_table (snd (UpdateAppStatus H u VM_STATUS_STOPPED s)))"
    using "2.prems" by (simp_all add: table_inv_remove_uuid table_inv_UpdateAppStatus)
  with 2 step show ?case
    by (auto simp: Let_def split_beta simp del: reg_apply.simps)
qed simp

lemma round_log_registry:
  "table_inv (proc_table s) \<Longrightarrow> registry_of (proc_table
     (snd (snd (snd (CleanVrtmTable_and_update_vm_status H plat rows vms d i s))))) =
     fold reg_apply (round_log H plat rows vms s) (registry_of (proc_table s))"
  using hyperv_log_registry
  by (fastforce simp: CleanVrtmTable_and_update_vm_status_def round_log_def Let_def
      split: platform.splits prod.splits)

section \<open>Simulation\<close>

text \<open>
  Operations performed one after the other, and the events they perform.  \<open>exec\<close> gives
  \<open>None\<close> for an operation that does not return in the model (undefined behaviour, an uncaught
  exception).
\<close>

fun run_ops :: "('o \<Rightarrow> 's \<Rightarrow> 's option) \<Rightarrow> 'o list \<Rightarrow> 's \<Rightarrow> 's option" where
  "run_ops exec [] s = Some s"
| "run_ops exec (op # ops) s = (case exec op s of None \<Rightarrow> None | Some t \<Rightarrow> run_ops exec ops t)"

fun ops_log :: "('o \<Rightarrow> 's \<Rightarrow> 's option) \<Rightarrow> ('o \<Rightarrow> 's \<Rightarrow> 'e list) \<Rightarrow> 'o list \<Rightarrow> 's \<Rightarrow> 'e list" where
  "ops_log exec events [] s = []"
| "ops_log exec events (op # ops) s =
     events op s @ (case exec op s of None \<Rightarrow> [] | Some t \<Rightarrow> ops_log exec events ops t)"

text \<open>
  The contract of a system that refines the registry by a function: its operations keep an
  invariant, and each performs the events of its log.
\<close>

locale simulation =
  fixes exec :: "'o \<Rightarrow> 's \<Rightarrow> 's option"
    and events :: "'o \<Rightarrow> 's \<Rightarrow> reg_event list"
    and allowed :: "'o \<Rightarrow> bool"
    and inv :: "'s \<Rightarrow> bool"
    and abs_of :: "'s \<Rightarrow> registry"
  assumes exec_inv: "exec op s = Some s' \<Longrightarrow> allowed op \<Longrightarrow> inv s \<Longrightarrow> inv s'"
    and exec_sim: "exec op s = Some s' \<Longrightarrow> allowed op \<Longrightarrow> inv s \<Longrightarrow>
      abs_of s' = fold reg_apply (events op s) (abs_of s)"
begin

lemma run_sim:
  "run_ops exec ops s = Some s' \<Longrightarrow> list_all allowed ops \<Longrightarrow> inv s \<Longrightarrow>
   inv s' \<and> abs_of s' = fold reg_apply (ops_log exec events ops s) (abs_of s)"
proof (induction ops arbitrary: s)
  case (Cons op ops)
  from Cons.prems(1) obtain t where t: "exec op s = Some t" "run_ops exec ops t = Some s'"
    by (auto split: option.splits)
  with Cons.IH [OF t(2)] exec_inv [OF t(1)] exec_sim [OF t(1)] Cons.prems show ?case by simp
qed simp

lemma run_keeps:
  assumes "run_ops exec ops s = Some s'" "list_all allowed ops" "inv s" "I (abs_of s)"
    and step: "\<And>op s ev R. allowed op \<Longrightarrow> ev \<in> set (events op s) \<Longrightarrow> I R \<Longrightarrow> I (reg_apply ev R)"
  shows "I (abs_of s')"
  using assms(1-4)
proof (induction ops arbitrary: s)
  case (Cons op ops)
  from Cons.prems(1) obtain t where t: "exec op s = Some t" "run_ops exec ops t = Some s'"
    by (auto split: option.splits)
  have "I (abs_of t)"
    using exec_sim [OF t(1)] Cons.prems step [of op] by (auto intro: fold_reg_keeps)
  with Cons.IH [OF t(2)] exec_inv [OF t(1)] Cons.prems show ?case by simp
qed simp

end

text \<open>The operations of the core with their arguments; \<open>Outside\<close> is everything outside the program.\<close>

datatype 'w service_op =
  Serve int u32 cstr
| Clean "64 word"
| Hyperv_round platform "(cstr \<times> int) list option" "(cstr, unit) smap"
| Outside 'w

fun op_exec :: "('w, 'h) env \<Rightarrow> 'w service_op \<Rightarrow> 'w core \<Rightarrow> 'w core option" where
  "op_exec E (Serve procid uReq inparams) s =
     (case serviceRequest E procid uReq inparams s of Done (_, s') \<Rightarrow> Some s' | _ \<Rightarrow> None)"
| "op_exec E (Clean age) s = Some (snd (CleanVrtmTable (e_host E) age VM_STATUS_CANCELLED s))"
| "op_exec E (Hyperv_round plat rows vms) s =
     Some (snd (snd (snd (CleanVrtmTable_and_update_vm_status (e_host E) plat rows vms 0 0 s))))"
| "op_exec E (Outside w) s = Some (s\<lparr>os := w\<rparr>)"

fun op_log :: "('w, 'h) env \<Rightarrow> 'w service_op \<Rightarrow> 'w core \<Rightarrow> reg_event list" where
  "op_log E (Serve procid uReq inparams) s = request_log E procid uReq inparams s"
| "op_log E (Clean age) s = clean_log (e_host E) age VM_STATUS_CANCELLED s"
| "op_log E (Hyperv_round plat rows vms) s = round_log (e_host E) plat rows vms s"
| "op_log E (Outside w) s = []"

text \<open>The numbers of requests are not 0.\<close>

fun numbered :: "'w service_op \<Rightarrow> bool" where
  "numbered (Serve procid uReq inparams) \<longleftrightarrow> procid \<noteq> 0"
| "numbered _ \<longleftrightarrow> True"

interpretation service: simulation "op_exec E" "op_log E" numbered "\<lambda>s. table_inv (proc_table s)"
    "\<lambda>s. registry_of (proc_table s)"
  for E :: "('w, 'h) env"
proof unfold_locales
  fix op and s s' :: "'w core"
  assume run: "op_exec E op s = Some s'" "numbered op" "table_inv (proc_table s)"
  then show "table_inv (proc_table s')"
    by (cases op) (auto split: outcome.splits intro: table_inv_serviceRequest
        simp: table_inv_CleanVrtmTable table_inv_hyperv_clean)
  from run show "registry_of (proc_table s') = fold reg_apply (op_log E op s) (registry_of (proc_table s))"
    by (cases op) (auto split: outcome.splits intro: serviceRequest_registry
        simp: clean_log_registry round_log_registry)
qed

text \<open>Requests alone: each performs at most one event, a start or a report.\<close>

fun request_op :: "'w service_op \<Rightarrow> bool" where
  "request_op (Serve procid uReq inparams) \<longleftrightarrow> procid \<noteq> 0"
| "request_op _ \<longleftrightarrow> False"

interpretation requests: simulation "op_exec E" "op_log E" request_op "\<lambda>s. table_inv (proc_table s)"
    "\<lambda>s. registry_of (proc_table s)"
  for E :: "('w, 'h) env"
proof unfold_locales
  fix op and s s' :: "'w core"
  assume run: "op_exec E op s = Some s'" "request_op op" "table_inv (proc_table s)"
  then have "numbered op" by (cases op) simp_all
  with run show "table_inv (proc_table s')"
    "registry_of (proc_table s') = fold reg_apply (op_log E op s) (registry_of (proc_table s))"
    using service.exec_inv service.exec_sim by blast+
qed

lemma request_op_events:
  "request_op op \<Longrightarrow> op_log E op s = [] \<or>
     (\<exists>u ty pol ok. op_log E op s = [Launch u ty pol ok]) \<or> (\<exists>u st. op_log E op s = [Status u st])"
  by (cases op) (auto simp: request_log_def launch_log_def start_log_def status_log_def
      split: option.splits prod.splits phase.splits bool.splits)

inductive request_step :: "('w, 'h) env \<Rightarrow> 'w core \<Rightarrow> 'w core \<Rightarrow> bool" for E :: "('w, 'h) env" where
  "serviceRequest E procid uReq inparams s = Done (r, s') \<Longrightarrow> procid \<noteq> 0 \<Longrightarrow> request_step E s s'"

lemma request_steps_ops:
  "(request_step E)\<^sup>*\<^sup>* s s' \<Longrightarrow> \<exists>ops. list_all request_op ops \<and> run_ops (op_exec E) ops s = Some s'"
proof (induction rule: converse_rtranclp_induct)
  case base
  show ?case by (intro exI [of _ "[]"]) simp
next
  case (step s t)
  then obtain ops where ops: "list_all request_op ops" "run_ops (op_exec E) ops t = Some s'" by blast
  from step(1) obtain procid uReq inparams r where
    "serviceRequest E procid uReq inparams s = Done (r, t)" "procid \<noteq> 0"
    by (auto elim: request_step.cases)
  with ops show ?case
    by (intro exI [of _ "Serve procid uReq inparams # ops"]) simp
qed

section \<open>Properties\<close>

text \<open>
  C5: the service refines the registry.  Whatever requests, clean-up passes and Hyper-V rounds
  are performed one after the other (with numbers other than 0), the registry of the table
  afterwards is the registry before, changed by exactly the events that \<open>op_log\<close> computes for
  them: a start whose measurement succeeds is one event, for the instance's UUID (for an unknown
  UUID with the number of another entry, for that entry's), with the policy and whether the
  measured hash is the golden hash; a status report that is answered with success is the report
  of its UUID and status; any other request is no event; a clean-up pass removes the expired
  cancelled instances and a Hyper-V round those deleted there.  \<open>IsVerified\<close> answers
  every UUID as this registry does, so a positive answer that is new comes from a start for
  this UUID in the run that measured the golden hash.
\<close>

theorem service_refines_registry:
  assumes "run_ops (op_exec E) ops s = Some s'" "list_all numbered ops" "table_inv (proc_table s)"
  shows "registry_of (proc_table s') =
      fold reg_apply (ops_log (op_exec E) (op_log E) ops s) (registry_of (proc_table s)) \<and>
    IsVerified u (proc_table s') =
      reg_verified (fold reg_apply (ops_log (op_exec E) (op_log E) ops s) (registry_of (proc_table s))) u \<and>
    (IsVerified u (proc_table s') = Inr 1 \<longrightarrow> IsVerified u (proc_table s) = Inr 1 \<or>
      (\<exists>ty pol. Launch u ty pol True \<in> set (ops_log (op_exec E) (op_log E) ops s)))"
proof -
  have "registry_of (proc_table s') =
      fold reg_apply (ops_log (op_exec E) (op_log E) ops s) (registry_of (proc_table s))"
    using service.run_sim [OF assms] by simp
  then show ?thesis
    unfolding IsVerified_registry using fold_reg_verdict [of _ _ u 1] by simp
qed

text \<open>
  C4: requests do not undo a refusal: after any sequence of requests that the model serves to
  their end (those with undefined behaviour excepted, see \<open>malformed_requests_undefined\<close>), with
  numbers other than 0, the entry of a VM that was CANCELLED is still in the table, and CANCELLED.
  Its measurement and verdict may be new (\<open>relaunch_of_cancelled\<close>).
\<close>

theorem requests_keep_cancelled:
  assumes "(request_step E)\<^sup>*\<^sup>* s s'" "table_inv (proc_table s)"
    and "(k, e) \<in> set (proc_table s)" "m_vm_status e = VM_STATUS_CANCELLED" "m_instance_type e = INSTANCE_TYPE_VM"
  shows "\<exists>k' e'. (k', e') \<in> set (proc_table s') \<and> m_uuid e' = m_uuid e \<and>
    m_vm_status e' = VM_STATUS_CANCELLED \<and> m_instance_type e' = INSTANCE_TYPE_VM"
proof -
  obtain ops where ops: "list_all request_op ops" "run_ops (op_exec E) ops s = Some s'"
    using request_steps_ops [OF assms(1)] by blast
  have "cancelled_vm (registry_of (proc_table s) (m_uuid e))"
    using registry_of_entry [OF table_invD(3) [OF assms(2)] assms(3)] assms(4,5)
    by (simp add: cancelled_vm_def inst_view_def)
  then have "cancelled_vm (registry_of (proc_table s') (m_uuid e))"
  proof (rule requests.run_keeps [where I = "\<lambda>R. cancelled_vm (R (m_uuid e))", OF ops(2,1) assms(2)])
    fix op :: "'a service_op" and t :: "'a core" and ev R
    assume "request_op op" "ev \<in> set (op_log E op t)" and c: "cancelled_vm (R (m_uuid e))"
    then have "ev \<noteq> Gone (m_uuid e)" using request_op_events [of op E t] by auto
    with c show "cancelled_vm (reg_apply ev R (m_uuid e))" by (rule reg_apply_cancelled)
  qed
  then show ?thesis
    by (auto simp: cancelled_vm_def inst_view_def split: option.splits dest!: registry_of_Some) blast
qed

theorem requests_keep_cancelled_witness:
  "\<exists>s'. (request_step demo_env)\<^sup>*\<^sup>* (demo_state cancelled_table) s' \<and>
     (\<exists>k' e'. (k', e') \<in> set (proc_table s') \<and> m_uuid e' = ''u1'' \<and> m_vm_status e' = VM_STATUS_CANCELLED)"
proof -
  let ?s = "demo_state cancelled_table"
  obtain c s' where up: "UpdateAppStatus ref_host ''u1'' 1 ?s = (c, s')" by force
  have "sendable demo_env ''foo'' [''u1'', show_int 1]" "int32 1"
    by (simp_all add: bits_show int32_def)
  with serve_SETVM_STATUS_doc [OF demo_env_law this(1), of 6 ?s] up
  have "request_step demo_env ?s s'" by (intro request_step.intros) auto
  then have run: "(request_step demo_env)\<^sup>*\<^sup>* ?s s'" by blast
  have "\<exists>k' e'. (k', e') \<in> set (proc_table s') \<and>
      m_uuid e' = m_uuid (demo_entry ''Enforce'' ''ab13'' False VM_STATUS_CANCELLED) \<and>
      m_vm_status e' = VM_STATUS_CANCELLED \<and> m_instance_type e' = INSTANCE_TYPE_VM"
    by (rule requests_keep_cancelled [OF run, of 5])
      (simp_all add: cancelled_table_inv, simp_all add: cancelled_table_def demo_entry_def)
  with run show ?thesis by (auto simp: demo_entry_def)
qed

text \<open>
  C1: in every state the core reaches from an empty table by serving requests one after the other,
  with any numbers but 0, and running clean-up and Hyper-V rounds between them, the invariant
  holds: strings fit their arrays, an entry whose verification failed under Enforce is
  CANCELLED, no two entries share a UUID, no key is 0.
\<close>

theorem reachable_states_safe:
  assumes "service_run E s s'" "proc_table s = []"
  shows "table_inv (proc_table s') \<and>
    (\<forall>(k, e) \<in> set (proc_table s'). \<not> m_vm_verfication_status e \<and>
      m_vm_launch_policy e = ''Enforce'' \<longrightarrow> m_vm_status e = VM_STATUS_CANCELLED)"
proof (rule conjI)
  show i: "table_inv (proc_table s')" using service_run_inv [OF assms(1)] assms(2) by simp
  show "\<forall>(k, e) \<in> set (proc_table s'). \<not> m_vm_verfication_status e \<and>
      m_vm_launch_policy e = ''Enforce'' \<longrightarrow> m_vm_status e = VM_STATUS_CANCELLED"
    using table_invD(2) [OF i] by (auto simp: table_all_def enforced_def)
qed

text \<open>A start served by the core, from the empty table.\<close>

lemma chain_step:
  "\<exists>s'. service_step demo_env chain_core s' \<and> proc_table s' = accepted_table"
proof -
  have "fst (generate_req_id 4) = 5" by (simp add: generate_req_id_def INT32_MAX_def)
  with chain_served show ?thesis
    unfolding accepted_table_def
    using service_step.request [of demo_env 4 VM2RP_STARTAPP "doc_text demo_env ''foo'' chain_args" chain_core]
    by fastforce
qed

theorem reachable_states_safe_witness:
  "\<exists>s'. service_run demo_env chain_core s' \<and> proc_table s' = accepted_table \<and> table_inv (proc_table s')"
proof -
  obtain s' where s': "service_step demo_env chain_core s'" "proc_table s' = accepted_table"
    using chain_step by blast
  then have run: "service_run demo_env chain_core s'" by blast
  with reachable_states_safe [OF run] s'(2) show ?thesis
    by (auto simp: chain_core_def demo_core_def)
qed

theorem service_refines_registry_witness:
  "\<exists>s'. run_ops (op_exec demo_env) [Serve 5 VM2RP_STARTAPP (doc_text demo_env ''foo'' chain_args)] chain_core = Some s' \<and>
     IsVerified ''u1'' (proc_table s') = Inr 1 \<and>
     (\<exists>ty pol. Launch ''u1'' ty pol True \<in> set (ops_log (op_exec demo_env) (op_log demo_env)
        [Serve 5 VM2RP_STARTAPP (doc_text demo_env ''foo'' chain_args)] chain_core))"
proof -
  obtain s' where s': "run_ops (op_exec demo_env) [Serve 5 VM2RP_STARTAPP (doc_text demo_env ''foo'' chain_args)] chain_core = Some s'"
    "proc_table s' = accepted_table"
    using chain_served unfolding accepted_table_def by fastforce
  have v: "IsVerified ''u1'' (proc_table s') = Inr 1"
    by (simp add: s'(2) accepted_table_def demo_entry_def)
  from service_refines_registry [OF s'(1), of "''u1''"] v s'(1) show ?thesis
    by (auto simp: chain_core_def demo_core_def)
qed

end
