(* ===== verification/Vrtm_Main.thy ===== *)
theory Vrtm_Main
  imports Load_Config
begin

text \<open>
  \<open>vrtmcore/vrtmcoremain.cpp\<close>: reading the configuration into the globals, the instance lock,
  the signal handler and \<open>main\<close>.
\<close>

section \<open>\<open>read_config\<close>\<close>

text \<open>\<open>config_map[k]\<close>, with a default for the empty string.\<close>

definition config_value :: "(cstr, cstr) smap \<Rightarrow> cstr \<Rightarrow> cstr \<Rightarrow> cstr" where
  "config_value m k dflt = (let v = map_get [] m k in if v = [] then dflt else v)"

definition config_globals :: "platform \<Rightarrow> (cstr, cstr) smap \<Rightarrow> globals \<Rightarrow> globals" where
  "config_globals plat m G =
     (let trust_dir = config_value m ''trust_report_dir''
            (case plat of Windows \<Rightarrow> ''C:/OpenStack/Log/trustreports'' | Linux \<Rightarrow> ''/var/log/trustreports/'')
      in G\<lparr>g_vrtmcore_ip := strcpy_s 64 (config_value m ''vrtmcore_ip'' ''127.0.0.1''),
           g_vrtmcore_port := atoi (config_value m ''vrtmcore_port'' ''16005''),
           g_max_thread_limit := atoi (config_value m ''max_thread_limit'' ''63''),
           g_vrtm_root := strcat_s 64 (strcpy_s 64 (config_value m ''vrtm_root'' ''../'')) ''/'',
           g_trust_report_dir := strcat_s 512 (strcpy_s 512 trust_dir) ''/'',
           g_entry_cleanup_interval := atoi (config_value m ''entry_cleanup_interval'' ''30''),
           g_cancelled_vm_max_age := atoi (config_value m ''cancelled_vm_max_age'' ''86400''),
           g_deployment_type := strcpy_s 8 (map_get [] m ''deployment_type'')\<rparr>)"

text \<open>
  The report directory is removed when it exists, and made only when it did not.  The result
  counts the eight settings.
\<close>

definition prepare_dirs :: "'w host \<Rightarrow> platform \<Rightarrow> globals \<Rightarrow> 'w \<Rightarrow> int \<times> 'w" where
  "prepare_dirs H plat G w =
     (let (create_report_dir, w) =
            (case h_stat H (g_trust_report_dir G) w of
               StatFails \<Rightarrow> (True, w)
             | StatDir \<Rightarrow> (False, snd (remove_dir H (g_trust_report_dir G) w))
             | StatOther \<Rightarrow> (True, w));
          (r, w) = (if create_report_dir then make_dir H (g_trust_report_dir G) w else (0, w))
      in if r \<noteq> 0 then (- 1, w)
         else case plat of
                Windows \<Rightarrow> (8, w)
              | Linux \<Rightarrow>
                  (let w = h_chmod H (g_trust_report_dir G) w;
                       (r, w) = make_dir H (g_mount_path G) w
                   in if r \<noteq> 0 then (- 1, w) else (8, w)))"

definition read_config ::
  "'w host \<Rightarrow> platform \<Rightarrow> (cstr, cstr) smap \<Rightarrow> globals \<Rightarrow> 'w \<Rightarrow> int \<times> globals \<times> 'w"
where
  "read_config H plat m G w =
     (let G' = config_globals plat m G; (r, w') = prepare_dirs H plat G' w in (r, G', w'))"

section \<open>One instance\<close>

text \<open>The lock file: whether it opens, and whether the lock is granted.\<close>

definition singleInstanceRpcoreservice :: "platform \<Rightarrow> bool \<Rightarrow> bool \<Rightarrow> int" where
  "singleInstanceRpcoreservice plat opened locked =
     (case plat of
        Linux \<Rightarrow> if \<not> opened then - 1 else if \<not> locked then - 2 else 1
      | Windows \<Rightarrow> if \<not> opened then - 2 else 1)"

section \<open>Signals\<close>

datatype sig = SIGABRT | SIGINT | SIGSEGV | SIGTERM | SIGFPE | SIGHUP | SIGQUIT | SIGBUS | Other_signal

instantiation sig :: enum
begin

definition "enum_sig = [SIGABRT, SIGINT, SIGSEGV, SIGTERM, SIGFPE, SIGHUP, SIGQUIT, SIGBUS, Other_signal]"
definition "enum_all_sig P \<longleftrightarrow> list_all P (enum_class.enum :: sig list)"
definition "enum_ex_sig P \<longleftrightarrow> list_ex P (enum_class.enum :: sig list)"

instance
proof
  show univ: "(UNIV :: sig set) = set enum_class.enum"
    unfolding enum_sig_def by (auto intro: sig.exhaust)
  show "distinct (enum_class.enum :: sig list)" by (simp add: enum_sig_def)
  show "enum_class.enum_all P \<longleftrightarrow> Ball UNIV P" for P :: "sig \<Rightarrow> bool"
    unfolding enum_all_sig_def list_all_iff univ ..
  show "enum_class.enum_ex P \<longleftrightarrow> Bex UNIV P" for P :: "sig \<Rightarrow> bool"
    unfolding enum_ex_sig_def list_ex_iff univ ..
qed

end

text \<open>A disposition is the program's handler, or the one that was there at its start.\<close>

datatype disposition = Vrtm_handler | Initial_handler

definition linux_signal :: "sig \<Rightarrow> bool" where
  "linux_signal s \<longleftrightarrow> s \<in> {SIGHUP, SIGQUIT, SIGBUS}"

text \<open>The calls of \<open>signal\<close> in \<open>main\<close>; the replaced handlers are remembered.\<close>

definition install_handlers :: "platform \<Rightarrow> (sig \<Rightarrow> disposition) \<Rightarrow> (sig \<Rightarrow> disposition)" where
  "install_handlers plat d =
     (\<lambda>s. if s = Other_signal then d s
          else if linux_signal s \<and> plat = Windows then d s else Vrtm_handler)"

text \<open>
  \<open>vrtm_signal_handler\<close>: the saved handler is put back, the reports are removed, and the
  signal is raised again.  The result is the disposition \<open>raise\<close> meets.
\<close>

definition vrtm_signal_handler ::
  "'w host \<Rightarrow> platform \<Rightarrow> globals \<Rightarrow> sig \<Rightarrow> (sig \<Rightarrow> disposition) \<Rightarrow> 'w
     \<Rightarrow> disposition \<times> (sig \<Rightarrow> disposition) \<times> 'w"
where
  "vrtm_signal_handler H plat G s d w =
     (let d' = (if s = Other_signal \<or> linux_signal s \<and> plat = Windows then d
                else d(s := Initial_handler));
          w' = snd (remove_dir H (g_trust_report_dir G) w)
      in (d' s, d', w'))"

section \<open>\<open>main\<close>\<close>

text \<open>
  How \<open>main\<close> goes: it returns early with a status, the exception of \<open>load_config\<close> ends the
  process, or the service threads are started with these globals (the listener on libvirt
  only where the deployment is not of containers).
\<close>

datatype startup = Returns int | Aborts | Serves globals bool

definition vrtm_main ::
  "'w host \<Rightarrow> platform \<Rightarrow> bool \<Rightarrow> bool \<Rightarrow> bool \<Rightarrow> 'w \<Rightarrow> startup \<times> 'w"
where
  "vrtm_main H plat log_ok lock_opened lock_granted w =
     (if \<not> log_ok then (Returns 1, w)
      else let instanceValid = singleInstanceRpcoreservice plat lock_opened lock_granted
           in if instanceValid = - 2 then (Returns 1, w)
              else if instanceValid = - 1 then (Returns 1, w)
              else case load_config H ''../configuration/vRTM.cfg'' [] w of
                     (Load_failed, w) \<Rightarrow> (Returns 0, w)
                   | (Load_throws, w) \<Rightarrow> (Aborts, w)
                   | (Loaded m, w) \<Rightarrow>
                       (case read_config H plat m (default_globals plat) w of
                          (r, G, w) \<Rightarrow>
                            if r < 0 then (Returns 0, w)
                            else (Serves G (plat = Linux \<and> g_deployment_type G \<noteq> ''docker''), w)))"

section \<open>Properties\<close>

lemma report_dir_length: "length (g_trust_report_dir (config_globals plat m G)) < 512"
proof -
  have "length (strcat_s n (strcpy_s n s) t) < n" if "0 < n" for n s t
    using that by (intro strcat_s_length) simp
  then show ?thesis by (simp add: config_globals_def Let_def)
qed

text \<open>
  The strings \<open>read_config\<close> stores fit their arrays, the directory names end in a slash
  or are empty, and the numbers are what \<open>atoi\<close> reads, whatever the file says.
\<close>

lemma config_globals_bounds:
  "length (g_vrtmcore_ip (config_globals plat m G)) < 64 \<and>
   length (g_vrtm_root (config_globals plat m G)) < 64 \<and>
   length (g_trust_report_dir (config_globals plat m G)) < 512 \<and>
   length (g_deployment_type (config_globals plat m G)) < 8 \<and>
   (g_trust_report_dir (config_globals plat m G) = [] \<or>
    last (g_trust_report_dir (config_globals plat m G)) = CHR ''/'') \<and>
   int32 (g_vrtmcore_port (config_globals plat m G))"
proof -
  have c: "length (strcat_s n (strcpy_s n s) t) < n" if "0 < n" for n s t
    using that by (intro strcat_s_length) simp
  have l: "strcat_s n s ''/'' = [] \<or> last (strcat_s n s ''/'') = CHR ''/''" for n s
    by (simp add: strcat_s_def)
  show ?thesis
    by (simp add: config_globals_def Let_def atoi_int32 c l)
qed

text \<open>
  A start with a report directory left from an earlier run loses it: where \<open>rm -rf\<close>
  removes a directory and making another one does not bring it back, \<open>read_config\<close> succeeds
  and the report directory does not exist afterwards.
\<close>

lemma existing_report_dir_lost:
  assumes rm: "\<And>w. h_stat H D (snd (h_system H (''rm -rf '' @ D) w)) = StatFails"
    and chmod: "\<And>w. h_stat H D (h_chmod H D w) = h_stat H D w"
    and mk: "\<And>w. h_stat H D (snd (h_mkdir H (g_mount_path G) w)) = h_stat H D w"
    and D: "D = g_trust_report_dir (config_globals Linux m G)" "h_stat H D w = StatDir"
    and ok: "fst (read_config H Linux m G w) \<noteq> - 1"
  shows "fst (read_config H Linux m G w) = 8 \<and>
     h_stat H D (snd (snd (read_config H Linux m G w))) = StatFails"
proof -
  let ?G = "config_globals Linux m G"
  have "length D < 512" unfolding D(1) by (rule report_dir_length)
  then have rmd: "remove_dir H D w = h_system H (''rm -rf '' @ D) w"
    by (simp add: remove_dir_def)
  have mp: "g_mount_path ?G = g_mount_path G" by (simp add: config_globals_def Let_def)
  define w1 where "w1 = h_chmod H D (snd (remove_dir H D w))"
  have 1: "h_stat H D w1 = StatFails" unfolding w1_def chmod rmd by (rule rm)
  have "prepare_dirs H Linux ?G w =
      (let (r, w') = make_dir H (g_mount_path G) w1 in if r \<noteq> 0 then (- 1, w') else (8, w'))"
    using D by (simp add: prepare_dirs_def w1_def mp)
  moreover have "h_stat H D (snd (make_dir H (g_mount_path G) w1)) = StatFails"
    using mk [of w1] 1 by (auto simp: make_dir_def split: prod.splits mkdir_result.splits)
  ultimately show ?thesis
    using ok by (auto simp: read_config_def Let_def split_beta split: if_splits)
qed

text \<open>A host in which \<open>rm -rf\<close> works on the directory of the example.\<close>

definition rm_host :: "cstr \<Rightarrow> ref_world host" where
  "rm_host D = ref_host\<lparr>h_system := (\<lambda>c w.
     (0, if c = ''rm -rf '' @ D then w\<lparr>rw_dirs := filter (\<lambda>d. d \<noteq> D) (rw_dirs w)\<rparr> else w))\<rparr>"

lemma existing_report_dir_lost_example:
  "fst (read_config (rm_host ''/r/'') Linux [(''trust_report_dir'', ''/r'')] (default_globals Linux)
      (ref_world0\<lparr>rw_dirs := [''/r/'']\<rparr>)) = 8 \<and>
   h_stat (rm_host ''/r/'') ''/r/'' (snd (snd (read_config (rm_host ''/r/'') Linux
      [(''trust_report_dir'', ''/r'')] (default_globals Linux) (ref_world0\<lparr>rw_dirs := [''/r/'']\<rparr>)))) =
     StatFails"
proof (rule existing_report_dir_lost)
  show "fst (read_config (rm_host ''/r/'') Linux [(''trust_report_dir'', ''/r'')] (default_globals Linux)
      (ref_world0\<lparr>rw_dirs := [''/r/'']\<rparr>)) \<noteq> - 1"
    by code_simp
  show "''/r/'' = g_trust_report_dir (config_globals Linux [(''trust_report_dir'', ''/r'')] (default_globals Linux))"
    by code_simp
qed (simp_all add: rm_host_def ref_host_def default_globals_def)

text \<open>The signals that are handled: all that are named, on Windows without the last three.\<close>

lemma handled_signals:
  "filter (\<lambda>s. install_handlers plat (\<lambda>_. Initial_handler) s = Vrtm_handler) enum_class.enum =
     [SIGABRT, SIGINT, SIGSEGV, SIGTERM, SIGFPE] @ (if plat = Linux then [SIGHUP, SIGQUIT, SIGBUS] else [])"
  by (cases plat) (simp_all add: enum_sig_def install_handlers_def linux_signal_def)

text \<open>
  A signal the program handles is raised again with the handler that was there before
  \<open>main\<close>, so the process ends instead of entering the handler again, and every other signal
  keeps its disposition.
\<close>

lemma signal_raised_once:
  assumes "install_handlers plat d0 s = Vrtm_handler" "d0 s = Initial_handler"
    and "vrtm_signal_handler H plat G s (install_handlers plat d0) w = (raised, d', w')"
  shows "raised = Initial_handler \<and> (\<forall>t. t \<noteq> s \<longrightarrow> d' t = install_handlers plat d0 t) \<and>
     w' = snd (remove_dir H (g_trust_report_dir G) w)"
  using assms by (auto simp: vrtm_signal_handler_def install_handlers_def Let_def split: if_splits)

end
