(* ===== verification/Core_Process.thy ===== *)
theory Core_Process
  imports Session Vrtm_Main
begin

text \<open>
  The core's process from \<open>main\<close> to its end: \<open>vrtm_main\<close> (\<open>vrtmcore/vrtmcoremain.cpp\<close>) followed by
  the interface it starts (\<open>start_vrtm_interface\<close>, \<open>vrtmcore/vrtminterface.cpp\<close>), which on Linux has
  a thread that \<open>main\<close> joins and on Windows is called.
\<close>

text \<open>
  \<open>Runs_for_ever\<close>: the process serves connections, or waits for an interface that does not come.
  \<open>Killed_in_session\<close>: what a session did ended it.  Signals from outside are in \<open>Vrtm_Main\<close>.
\<close>

datatype process_end = Exits int | Crashes | Runs_for_ever | Killed_in_session

definition core_process ::
  "'w host \<Rightarrow> platform \<Rightarrow> bool \<Rightarrow> bool \<Rightarrow> bool \<Rightarrow> 'w net \<Rightarrow> (int \<Rightarrow> 'w \<Rightarrow> 'w option) \<Rightarrow> 'w \<Rightarrow> process_end"
where
  "core_process H plat log_ok lock_opened lock_granted N spawn w =
     (case vrtm_main H plat log_ok lock_opened lock_granted w of
        (Returns iRet, _) \<Rightarrow> Exits iRet
      | (Aborts, _) \<Rightarrow> Crashes
      | (Serves G listener, w') \<Rightarrow>
          (case start_vrtm_interface N spawn plat G w' of
             None \<Rightarrow> Runs_for_ever
           | Some Killed \<Rightarrow> Killed_in_session
           | Some (Ends _) \<Rightarrow> Exits 0))"

lemma vrtm_main_returns:
  "fst (vrtm_main H plat log_ok lock_opened lock_granted w) = Returns k \<Longrightarrow> k \<in> {0, 1}"
  "fst (vrtm_main H plat log_ok lock_opened lock_granted w) = Returns 1 \<longleftrightarrow>
     \<not> (log_ok \<and> singleInstanceRpcoreservice plat lock_opened lock_granted = 1)"
  by (auto simp: vrtm_main_def singleInstanceRpcoreservice_def Let_def
      split: platform.splits prod.splits load_result.splits if_splits)

lemma core_process_serves:
  assumes "vrtm_main H plat log_ok lock_opened lock_granted w = (Serves G l, w')"
  shows "core_process H plat log_ok lock_opened lock_granted N spawn w =
    (case dom_listener_setup N plat G w' of
       ((IFC_ERR, None), _) \<Rightarrow> Exits 0
     | ((_, Some fd), n) \<Rightarrow> if session_kills N spawn fd n then Killed_in_session else Runs_for_ever
     | _ \<Rightarrow> Runs_for_ever)"
  using assms by (simp add: core_process_def start_vrtm_interface_result
      split: prod.split option.split ifc_status.split)


text \<open>
  A host with a configuration, and three networks: one whose sockets cannot be opened, one that
  cannot resolve the address, and one that works, with sessions that end the process or not.
\<close>

definition core_world :: ref_world where
  "core_world = ref_world0\<lparr>rw_files := [(''../configuration/vRTM.cfg'', ''vrtmcore_port=16005'' @ [CHR 10])]\<rparr>"

definition core_net :: "bool \<Rightarrow> int \<Rightarrow> ref_world net" where
  "core_net resolves fd = \<lparr>n_startup = (\<lambda>_. True), n_getaddrinfo = (\<lambda>ip p n. resolves), n_socket = (\<lambda>n. (fd, n)),
     n_connect = (\<lambda>fd ip p n. (True, n)), n_bind = (\<lambda>fd ip p n. (True, n)), n_listen = (\<lambda>fd q n. (True, n)),
     n_accept = (\<lambda>fd n. (4, n)), n_close = (\<lambda>fd n. n)\<rparr>"

lemma core_world_serves:
  "\<exists>G l w. vrtm_main ref_host Linux True True True core_world = (Serves G l, w)"
proof -
  have "(case fst (vrtm_main ref_host Linux True True True core_world) of Serves G l \<Rightarrow> True | _ \<Rightarrow> False)"
    by code_simp
  then show ?thesis
    by (cases "vrtm_main ref_host Linux True True True core_world") (auto split: startup.splits)
qed

lemma accept_rounds_alive: "accept_rounds N (\<lambda>fd n. Some n) fd k n \<noteq> None"
  by (induction k arbitrary: n) (auto split: prod.split option.split)


end
