(* ===== verification/Request_Numbers.thy ===== *)
theory Request_Numbers
  imports Requests
begin

text \<open>
  \<open>generate_req_id\<close> (\<open>vrtmcore/vrtminterface.cpp\<close>) as the sessions run it, line by line and in any
  interleaving.  \<open>Requests\<close> has the function as one step, which it is not: every call initialises
  the mutex that another call may hold, and destroys it.  With \<open>once\<close> the same code runs over a
  mutex that is initialised once, before the threads start.
\<close>

section \<open>The steps of a call\<close>

text \<open>
  \<open>At_write\<close> has the new number in a register, \<open>At_unlock\<close> and what follows it the number the call
  will return.
\<close>

datatype pc = At_init | At_lock | At_read | At_write int | At_copy | At_unlock int | At_destroy int
  | Returned int

text \<open>
  Results of the mutex functions are only logged.  Initialising a mutex makes it free, whoever
  holds it (POSIX leaves it open, and this is what the NPTL does); a destroyed mutex cannot be
  locked, and the call goes on without it; a locked one is not destroyed.
\<close>

datatype mutex = Unlocked | Locked | Destroyed

record numbering =
  req_counter :: int
  mutex :: mutex
  pcs :: "nat \<Rightarrow> pc"

definition goto :: "nat \<Rightarrow> pc \<Rightarrow> numbering \<Rightarrow> numbering" where
  "goto t p s = s\<lparr>pcs := (pcs s)(t := p)\<rparr>"

inductive number_step :: "bool \<Rightarrow> numbering \<Rightarrow> numbering \<Rightarrow> bool" for once :: bool where
  init: "pcs s t = At_init \<Longrightarrow>
    number_step once s (goto t At_lock (if once then s else s\<lparr>mutex := Unlocked\<rparr>))"
| lock: "pcs s t = At_lock \<Longrightarrow> mutex s = Unlocked \<Longrightarrow>
    number_step once s (goto t At_read (s\<lparr>mutex := Locked\<rparr>))"
| lock_fails: "pcs s t = At_lock \<Longrightarrow> mutex s = Destroyed \<Longrightarrow> number_step once s (goto t At_read s)"
| read: "pcs s t = At_read \<Longrightarrow>
    number_step once s (goto t (At_write ((req_counter s + 1) mod INT32_MAX)) s)"
| store: "pcs s t = At_write n \<Longrightarrow> number_step once s (goto t At_copy (s\<lparr>req_counter := n\<rparr>))"
| copy: "pcs s t = At_copy \<Longrightarrow> number_step once s (goto t (At_unlock (req_counter s)) s)"
| unlock: "pcs s t = At_unlock n \<Longrightarrow>
    number_step once s (goto t (At_destroy n) (s\<lparr>mutex := (if mutex s = Locked then Unlocked else mutex s)\<rparr>))"
| destroy: "pcs s t = At_destroy n \<Longrightarrow>
    number_step once s (goto t (Returned n)
      (if once \<or> mutex s = Locked then s else s\<lparr>mutex := Destroyed\<rparr>))"

inductive_cases number_stepE: "number_step once s s'"

abbreviation number_run :: "bool \<Rightarrow> numbering \<Rightarrow> numbering \<Rightarrow> bool" where
  "number_run once \<equiv> (number_step once)\<^sup>*\<^sup>*"

definition first_calls :: numbering where
  "first_calls = \<lparr>req_counter = 0, mutex = Unlocked, pcs = (\<lambda>_. At_init)\<rparr>"

section \<open>Schedules\<close>

text \<open>The step of one thread, and the run of a list of threads to move next.\<close>

definition advance :: "bool \<Rightarrow> nat \<Rightarrow> numbering \<Rightarrow> numbering option" where
  "advance once t s =
     (case pcs s t of
        At_init \<Rightarrow> Some (goto t At_lock (if once then s else s\<lparr>mutex := Unlocked\<rparr>))
      | At_lock \<Rightarrow> (case mutex s of
            Unlocked \<Rightarrow> Some (goto t At_read (s\<lparr>mutex := Locked\<rparr>))
          | Destroyed \<Rightarrow> Some (goto t At_read s)
          | Locked \<Rightarrow> None)
      | At_read \<Rightarrow> Some (goto t (At_write ((req_counter s + 1) mod INT32_MAX)) s)
      | At_write n \<Rightarrow> Some (goto t At_copy (s\<lparr>req_counter := n\<rparr>))
      | At_copy \<Rightarrow> Some (goto t (At_unlock (req_counter s)) s)
      | At_unlock n \<Rightarrow>
          Some (goto t (At_destroy n) (s\<lparr>mutex := (if mutex s = Locked then Unlocked else mutex s)\<rparr>))
      | At_destroy n \<Rightarrow>
          Some (goto t (Returned n) (if once \<or> mutex s = Locked then s else s\<lparr>mutex := Destroyed\<rparr>))
      | Returned n \<Rightarrow> None)"

lemma advance_step: "advance once t s = Some s' \<Longrightarrow> number_step once s s'"
  by (auto simp: advance_def intro: number_step.intros split: pc.splits mutex.splits)

fun schedule :: "bool \<Rightarrow> nat list \<Rightarrow> numbering \<Rightarrow> numbering option" where
  "schedule once [] s = Some s"
| "schedule once (t # ts) s =
     (case advance once t s of None \<Rightarrow> None | Some s' \<Rightarrow> schedule once ts s')"

lemma schedule_run: "schedule once ts s = Some s' \<Longrightarrow> number_run once s s'"
proof (induction once ts s rule: schedule.induct)
  case (2 once t ts s)
  then show ?case
    by (auto split: option.splits dest!: advance_step intro: converse_rtranclp_into_rtranclp)
qed simp

text \<open>A call that is not disturbed does what \<open>generate_req_id\<close> does, with either mutex.\<close>

lemma undisturbed_call:
  assumes "pcs s t = At_init" "mutex s = Unlocked"
  shows "\<exists>s'. schedule once (replicate 7 t) s = Some s' \<and>
     pcs s' t = Returned (fst (generate_req_id (req_counter s))) \<and>
     req_counter s' = snd (generate_req_id (req_counter s))"
  using assms by (cases once) (simp_all add: numeral_eq_Suc advance_def goto_def generate_req_id_def Let_def)

section \<open>With the mutex initialised once\<close>

text \<open>Which calls hold the mutex, which have counted, and the number of the latter.\<close>

fun holds :: "pc \<Rightarrow> bool" where
  "holds At_read = True"
| "holds (At_write n) = True"
| "holds At_copy = True"
| "holds (At_unlock n) = True"
| "holds _ = False"

fun number_of :: "pc \<Rightarrow> int option" where
  "number_of (At_unlock n) = Some n"
| "number_of (At_destroy n) = Some n"
| "number_of (Returned n) = Some n"
| "number_of _ = None"

fun_cases number_ofE: "number_of p = Some n"

text \<open>The holder is alone.\<close>

definition exclusive :: "numbering \<Rightarrow> bool" where
  "exclusive s \<longleftrightarrow> mutex s \<noteq> Destroyed \<and> (\<forall>t. holds (pcs s t) \<longrightarrow> mutex s = Locked) \<and>
     (\<forall>t u. holds (pcs s t) \<longrightarrow> holds (pcs s u) \<longrightarrow> t = u)"

lemma exclusiveD:
  "exclusive s \<Longrightarrow> holds (pcs s t) \<Longrightarrow> mutex s = Locked"
  "exclusive s \<Longrightarrow> holds (pcs s t) \<Longrightarrow> holds (pcs s u) \<Longrightarrow> u = t"
  by (auto simp: exclusive_def)

text \<open>While one call holds the mutex, it can move on without another one holding it.\<close>

lemma exclusive_goto:
  assumes "exclusive s" "holds (pcs s t)" "pcs s' = (pcs s)(t := p)" "mutex s' = mutex s"
  shows "exclusive s'"
  using assms by (auto simp: exclusive_def)

lemma exclusive_step:
  assumes "number_step True s s'" "exclusive s"
  shows "exclusive s'"
  using assms(1)
proof cases
  case (unlock t n)
  then have "holds (pcs s t)" by simp
  from exclusiveD [OF assms(2) this] have "mutex s = Locked" "\<not> holds (pcs s u)" if "u \<noteq> t" for u
    using that by auto
  with unlock exclusiveD(1) [OF assms(2) \<open>holds (pcs s t)\<close>] show ?thesis by (auto simp: exclusive_def goto_def)
next
  case (read t)
  then show ?thesis by (intro exclusive_goto [OF assms(2), of t]) (simp_all add: goto_def)
next
  case (store t n)
  then show ?thesis by (intro exclusive_goto [OF assms(2), of t]) (simp_all add: goto_def)
next
  case (copy t)
  then show ?thesis by (intro exclusive_goto [OF assms(2), of t]) (simp_all add: goto_def)
qed (use assms(2) in \<open>auto simp: exclusive_def goto_def\<close>)

text \<open>
  Counting: a call has counted once it has written.  The numbers given out are different, the
  counter is not below them and not above the number of calls that have counted, and the
  holder finds the counter as it left it.
\<close>

definition counted :: "numbering \<Rightarrow> nat set" where
  "counted s = {t. pcs s t = At_copy \<or> number_of (pcs s t) \<noteq> None}"

definition begun :: "numbering \<Rightarrow> nat set" where
  "begun s = {t. pcs s t \<noteq> At_init}"

definition counts :: "numbering \<Rightarrow> bool" where
  "counts s \<longleftrightarrow> finite (begun s) \<and> 0 \<le> req_counter s \<and> req_counter s \<le> int (card (counted s)) \<and>
     (\<forall>t n. number_of (pcs s t) = Some n \<longrightarrow> n \<le> req_counter s) \<and>
     (\<forall>t u n. number_of (pcs s t) = Some n \<longrightarrow> number_of (pcs s u) = Some n \<longrightarrow> t = u) \<and>
     (\<forall>t n. pcs s t = At_write n \<longrightarrow> n = req_counter s + 1) \<and>
     (\<forall>t u n. pcs s t = At_copy \<longrightarrow> number_of (pcs s u) = Some n \<longrightarrow> n < req_counter s)"

lemma begun_step: "number_step once s s' \<Longrightarrow> begun s \<subseteq> begun s' \<and> (finite (begun s) \<longrightarrow> finite (begun s'))"
proof (erule number_stepE)
  fix t assume "s' = goto t At_lock (if once then s else s\<lparr>mutex := Unlocked\<rparr>)" "pcs s t = At_init"
  then have "begun s' = insert t (begun s)" by (auto simp: begun_def goto_def)
  then show ?thesis by auto
qed (auto simp: begun_def goto_def split: if_splits elim!: finite_subset [rotated])

lemma counted_begun: "counted s \<subseteq> begun s"
  by (auto simp: counted_def begun_def)

text \<open>Without the limit of the counter in reach, the next number is one more.\<close>

lemma next_number:
  assumes "counts s" "pcs s t = At_read" "int (card (begun s)) < INT32_MAX"
  shows "(req_counter s + 1) mod INT32_MAX = req_counter s + 1"
proof -
  have "t \<in> begun s - counted s" using assms(2) by (simp add: begun_def counted_def)
  moreover have "finite (begun s)" using assms(1) by (simp add: counts_def)
  ultimately have "card (counted s) < card (begun s)"
    using counted_begun by (intro psubset_card_mono) auto
  with assms(1,3) show ?thesis by (simp add: counts_def)
qed

lemma counts_same:
  assumes "counts s" "req_counter s' = req_counter s" "finite (begun s')"
    and "\<And>u. number_of (pcs s' u) = number_of (pcs s u)" "\<And>u. pcs s' u = At_copy \<longleftrightarrow> pcs s u = At_copy"
    and "\<And>u n. pcs s' u = At_write n \<Longrightarrow> n = req_counter s + 1"
  shows "counts s'"
proof -
  have "counted s' = counted s" using assms(4,5) by (simp add: counted_def)
  with assms show ?thesis by (simp add: counts_def)
qed

lemma countsD:
  assumes "counts s"
  shows "number_of (pcs s t) = Some n \<Longrightarrow> n \<le> req_counter s"
    "number_of (pcs s t) = Some n \<Longrightarrow> number_of (pcs s u) = Some n \<Longrightarrow> t = u"
    "pcs s t = At_write n \<Longrightarrow> n = req_counter s + 1"
    "pcs s t = At_copy \<Longrightarrow> number_of (pcs s u) = Some n \<Longrightarrow> n < req_counter s"
    "0 \<le> req_counter s" "req_counter s \<le> int (card (counted s))" "finite (counted s)"
  using assms finite_subset [OF counted_begun] unfolding counts_def by blast+

lemma countsI:
  assumes "finite (begun s)" "0 \<le> req_counter s" "req_counter s \<le> int (card (counted s))"
    and "\<And>t n. number_of (pcs s t) = Some n \<Longrightarrow> n \<le> req_counter s"
    and "\<And>t u n. number_of (pcs s t) = Some n \<Longrightarrow> number_of (pcs s u) = Some n \<Longrightarrow> t = u"
    and "\<And>t n. pcs s t = At_write n \<Longrightarrow> n = req_counter s + 1"
    and "\<And>t u n. pcs s t = At_copy \<Longrightarrow> number_of (pcs s u) = Some n \<Longrightarrow> n < req_counter s"
  shows "counts s"
  using assms unfolding counts_def by blast

lemma counts_step:
  assumes step: "number_step True s s'" and ex: "exclusive s" and c: "counts s"
    and small: "int (card (begun s)) < INT32_MAX"
  shows "counts s'"
proof -
  have fin: "finite (begun s')" using begun_step [OF step] c by (simp add: counts_def)
  from step show ?thesis
  proof cases
    case (read t)
    then show ?thesis
      using next_number [OF c read(2) small] countsD(3) [OF c]
      by (intro counts_same [OF c _ fin]) (auto simp: goto_def split: if_splits)
  next
    case (store t n)
    have n: "n = req_counter s + 1" using countsD(3) [OF c] store(2) by simp
    have alone: "\<not> holds (pcs s u)" if "u \<noteq> t" for u
      using exclusiveD(2) [OF ex, of t u] store(2) that by auto
    have "counted s' = insert t (counted s)" "t \<notin> counted s"
      using store by (auto simp: counted_def goto_def)
    then have card: "card (counted s') = Suc (card (counted s))" using countsD(7) [OF c] by simp
    have nums: "number_of (pcs s' u) = (if u = t then None else number_of (pcs s u))" for u
      using store by (simp add: goto_def)
    have w: "pcs s' u \<noteq> At_write m" for u m
      using store alone [of u] by (auto simp: goto_def)
    have r: "req_counter s' = req_counter s + 1" using store n by (simp add: goto_def)
    have le: "m \<le> req_counter s" if "number_of (pcs s' u) = Some m" for u m
      using that countsD(1) [OF c] by (simp add: nums split: if_splits)
    show ?thesis
    proof (rule countsI [OF fin])
      fix u v m assume "number_of (pcs s' u) = Some m" "number_of (pcs s' v) = Some m"
      then show "u = v" using countsD(2) [OF c] by (simp add: nums split: if_splits)
    next
      fix u m assume "number_of (pcs s' u) = Some m"
      from le [OF this] show "m \<le> req_counter s'" by (simp add: r)
    next
      fix v u m assume "number_of (pcs s' u) = Some m"
      from le [OF this] show "m < req_counter s'" by (simp add: r)
    qed (use card r w countsD(5,6) [OF c] in simp_all)
  next
    case (copy t)
    let ?n = "req_counter s"
    have alone: "\<not> holds (pcs s u)" if "u \<noteq> t" for u
      using exclusiveD(2) [OF ex, of t u] copy(2) that by auto
    have "counted s' = counted s" using copy by (auto simp: counted_def goto_def split: if_splits)
    moreover have nums: "number_of (pcs s' u) = (if u = t then Some ?n else number_of (pcs s u))" for u
      using copy by (simp add: goto_def)
    moreover have w: "pcs s' u \<noteq> At_write m" "pcs s' u \<noteq> At_copy" for u m
      using copy alone [of u] by (auto simp: goto_def)
    moreover have less: "m < ?n" if "number_of (pcs s u) = Some m" for u m
      using countsD(4) [OF c copy(2) that] .
    moreover have r: "req_counter s' = req_counter s" using copy by (simp add: goto_def)
    ultimately have cs: "counted s' = counted s" by simp
    have ne: "number_of (pcs s u) \<noteq> Some ?n" for u using less by blast
    show ?thesis
    proof (rule countsI [OF fin])
      fix u v m assume "number_of (pcs s' u) = Some m" "number_of (pcs s' v) = Some m"
      then show "u = v" using countsD(2) [OF c] by (auto simp: nums ne split: if_splits)
    next
      fix u m assume "number_of (pcs s' u) = Some m"
      then show "m \<le> req_counter s'" using less by (fastforce simp: nums r split: if_splits)
    qed (use r w cs countsD(5,6) [OF c] in simp_all)
  qed ((rule counts_same [OF c _ fin]; auto simp: goto_def split: if_splits dest: countsD(3) [OF c])+)
qed

lemma numbered_run:
  assumes "number_run True first_calls s" "int (card (begun s)) < INT32_MAX"
  shows "exclusive s \<and> counts s"
  using assms
proof (induction rule: rtranclp_induct)
  case base
  then show ?case
    by (simp add: exclusive_def counts_def first_calls_def begun_def counted_def)
next
  case (step s s')
  have fin: "finite (begun s)" if "number_run True first_calls s" for s
    using that
  proof (induction rule: rtranclp_induct)
    case base
    then show ?case by (simp add: first_calls_def begun_def)
  qed (use begun_step in blast)
  have "begun s \<subseteq> begun s'" "finite (begun s')"
    using begun_step [OF step(2)] fin [OF step(1)] by simp_all
  then have small: "int (card (begun s)) < INT32_MAX"
    using card_mono [of "begun s'" "begun s"] step.prems by simp
  with step.IH have "exclusive s" "counts s" by simp_all
  then show ?case using exclusive_step [OF step(2)] counts_step [OF step(2)] small by blast
qed

section \<open>The race\<close>

text \<open>
  C16: the numbers of concurrent sessions.  If the mutex were initialised once, no two of fewer than
  2147483647 calls would return the same number, however they are interleaved.  As it is, every
  call initialises the mutex another may hold, and any two calls can return the same number.
\<close>

theorem request_number_race:
  assumes "number_run True first_calls s" "int (card (begun s)) < INT32_MAX"
    and "pcs s t = Returned a" "pcs s u = Returned b" "t \<noteq> u"
  shows "a \<noteq> b \<and>
    (\<exists>s'. number_run False first_calls s' \<and> pcs s' t = Returned 1 \<and> pcs s' u = Returned 1)"
proof (intro conjI)
  have "counts s" using numbered_run [OF assms(1,2)] by simp
  from countsD(2) [OF this, of t a u] assms(3-5) show "a \<noteq> b" by auto
  define ts where "ts = [t, t, t, u, u, u, t, t, t, t, u, u, u, u]"
  have "\<exists>s'. schedule False ts first_calls = Some s' \<and> pcs s' t = Returned 1 \<and> pcs s' u = Returned 1"
    using assms(5) by (simp add: ts_def advance_def goto_def first_calls_def INT32_MAX_def)
  then show "\<exists>s'. number_run False first_calls s' \<and> pcs s' t = Returned 1 \<and> pcs s' u = Returned 1"
    using schedule_run by blast
qed

theorem request_number_race_witness:
  "\<exists>s s'. number_run True first_calls s \<and> pcs s 0 = Returned 1 \<and> pcs s 1 = Returned 2 \<and>
     number_run False first_calls s' \<and> pcs s' 0 = Returned 1 \<and> pcs s' 1 = Returned 1"
proof -
  define ts where "ts = replicate 7 (0 :: nat) @ replicate 7 1"
  have ex: "\<exists>s. schedule True ts first_calls = Some s \<and> pcs s 0 = Returned 1 \<and> pcs s 1 = Returned 2 \<and>
      begun s \<subseteq> {0, 1}"
    by (simp add: ts_def numeral_eq_Suc advance_def goto_def first_calls_def INT32_MAX_def begun_def) auto
  then obtain s where s: "number_run True first_calls s" "pcs s 0 = Returned 1" "pcs s 1 = Returned 2"
      "begun s \<subseteq> {0, 1}"
    using schedule_run by blast
  then have "card (begun s) \<le> 2" using card_mono [OF _ s(4)] by (simp add: card_insert_if)
  then have "int (card (begun s)) < INT32_MAX" by (simp add: INT32_MAX_def)
  from request_number_race [OF s(1) this s(2,3)] s show ?thesis by auto
qed

end
