(* ===== verification/Kvm_Listener.thy ===== *)
theory Kvm_Listener
  imports Listener
begin

text \<open>
  The listener as a program of its own, \<open>vrtmlistener/kvm_listener/vrtm_listener.cpp\<close>.  Its
  call-backs and \<open>update_vm_status\<close> are the text of the core's listener and are taken from
  \<open>Listener\<close>; here are what it adds, the signal handler that ends the loop, the instance lock and
  \<open>main\<close>, and what a signal does to it at every point of its life.
\<close>

section \<open>Signals\<close>

text \<open>\<open>installed\<close>: the handler is in place; it is installed anew after every connection.\<close>

record 'n kvm_listener = "'n listener" +
  installed :: bool

definition stopOnSignal :: "('n, 'z) listener_scheme \<Rightarrow> ('n, 'z) listener_scheme" where
  "stopOnSignal l = l\<lparr>lrun := False, lexit := 0\<rparr>"

text \<open>SIGTERM or SIGINT: without the handler the default action ends the process.\<close>

datatype 'n progress = Killed 'n | Alive "'n kvm_listener"

definition deliver :: "bool \<Rightarrow> 'n kvm_listener \<Rightarrow> 'n progress" where
  "deliver signal l =
     (if \<not> signal then Alive l
      else if installed l then Alive (stopOnSignal l)
      else Killed (lnet l))"

section \<open>\<open>listen_libvirt_events\<close>\<close>

text \<open>
  The loop \<open>while (run)\<close>: calls of \<open>virEventRunDefaultImpl\<close> and signals in the order in which they
  come.  A signal in the middle of a call-back sets flags that the call-back does not read, so
  it stands behind it.
\<close>

datatype poll_event = Calls "dispatch list" | Stop_signal

fun kvm_poll_loop ::
  "(cstr \<Rightarrow> int \<Rightarrow> 'n \<Rightarrow> (int \<times> 'n) option) \<Rightarrow> virconsts \<Rightarrow> poll_event list \<Rightarrow> 'n kvm_listener
     \<Rightarrow> 'n kvm_listener option"
where
  "kvm_poll_loop report C [] l = Some l"
| "kvm_poll_loop report C (e # es) l =
     (if \<not> lrun l then Some l
      else case e of
             Calls c \<Rightarrow> (case dispatch_all report C c l of
                           None \<Rightarrow> None
                         | Some l' \<Rightarrow> kvm_poll_loop report C es l')
           | Stop_signal \<Rightarrow> kvm_poll_loop report C es (stopOnSignal l))"

text \<open>
  One round of \<open>while (exit_status)\<close>, with a signal before the handler is installed in it, the
  events of the poll, and a signal behind it, up to \<open>run=1\<close>.
\<close>

record kvm_attempt = vir_setup +
  ka_early :: bool
  ka_events :: "poll_event list"
  ka_late :: bool

definition retry :: "kvm_attempt \<Rightarrow> 'n kvm_listener \<Rightarrow> 'n progress" where
  "retry a l = (case deliver (ka_late a) l of Killed n \<Rightarrow> Killed n | Alive l' \<Rightarrow> Alive (l'\<lparr>lrun := True\<rparr>))"

definition kvm_round ::
  "(cstr \<Rightarrow> int \<Rightarrow> 'n \<Rightarrow> (int \<times> 'n) option) \<Rightarrow> virconsts \<Rightarrow> kvm_attempt \<Rightarrow> 'n kvm_listener
     \<Rightarrow> 'n progress option"
where
  "kvm_round report C a l0 =
     (case deliver (ka_early a) l0 of
        Killed n \<Rightarrow> Some (Killed n)
      | Alive l \<Rightarrow>
          if \<not> at_initialize a \<or> \<not> at_event_impl a \<or> \<not> at_open a then Some (retry a l)
          else let l = l\<lparr>installed := True\<rparr>
               in if \<not> at_register a then Some (retry a l)
                  else map_option (retry a)
                         (kvm_poll_loop report C (ka_events a) (if at_keepalive a then l else l\<lparr>lrun := False\<rparr>)))"

fun kvm_listen_libvirt_events ::
  "(cstr \<Rightarrow> int \<Rightarrow> 'n \<Rightarrow> (int \<times> 'n) option) \<Rightarrow> virconsts \<Rightarrow> kvm_attempt list \<Rightarrow> 'n kvm_listener
     \<Rightarrow> 'n progress option"
where
  "kvm_listen_libvirt_events report C [] l = Some (Alive l)"
| "kvm_listen_libvirt_events report C (a # as) l =
     (if lexit l = 0 then Some (Alive l)
      else case kvm_round report C a l of
             None \<Rightarrow> None
           | Some (Killed n) \<Rightarrow> Some (Killed n)
           | Some (Alive l') \<Rightarrow> kvm_listen_libvirt_events report C as l')"

section \<open>\<open>main\<close>\<close>

definition singleInstance_vrtm_listener :: "bool \<Rightarrow> bool \<Rightarrow> int" where
  "singleInstance_vrtm_listener opened locked =
     (if \<not> opened then - 1 else if \<not> locked then - 2 else 1)"

text \<open>
  \<open>main\<close> waits while \<open>exit_status\<close> is set, gives the thread five seconds and returns 0.
  \<open>Kvm_waits\<close> is a program that still runs when the given attempts are used up, or that waits
  for ever because its thread was not created.
\<close>

datatype kvm_end = Kvm_exits int | Kvm_killed | Kvm_waits

definition kvm_listener_main ::
  "(cstr \<Rightarrow> int \<Rightarrow> 'n \<Rightarrow> (int \<times> 'n) option) \<Rightarrow> virconsts \<Rightarrow> bool \<Rightarrow> bool \<Rightarrow> bool \<Rightarrow> int
     \<Rightarrow> kvm_attempt list \<Rightarrow> 'n \<Rightarrow> (kvm_end \<times> 'n) option"
where
  "kvm_listener_main report C log_ok lock_opened lock_granted created attempts n =
     (if \<not> log_ok then Some (Kvm_exits 1, n)
      else let instanceValid = singleInstance_vrtm_listener lock_opened lock_granted
           in if instanceValid = - 2 then Some (Kvm_exits 1, n)
              else if instanceValid = - 1 then Some (Kvm_exits 1, n)
              else if created < 0 then Some (Kvm_exits 1, n)
              else if created \<noteq> 0 then Some (Kvm_waits, n)
              else case kvm_listen_libvirt_events report C attempts
                          \<lparr>lrun = True, lexit = 1, lnet = n, installed = False\<rparr> of
                     None \<Rightarrow> None
                   | Some (Killed n') \<Rightarrow> Some (Kvm_killed, n')
                   | Some (Alive l) \<Rightarrow> Some (if lexit l = 0 then Kvm_exits 0 else Kvm_waits, lnet l))"

section \<open>What a signal does\<close>

text \<open>The events heard before the loop ends, and whether a signal ends it.\<close>

fun poll_heard :: "poll_event list \<Rightarrow> dispatch list" where
  "poll_heard [] = []"
| "poll_heard (Calls c # es) = c @ (if Connection_closed \<in> set c then [] else poll_heard es)"
| "poll_heard (Stop_signal # es) = []"

fun poll_stopped :: "poll_event list \<Rightarrow> bool" where
  "poll_stopped [] = False"
| "poll_stopped (Calls c # es) = (Connection_closed \<notin> set c \<and> poll_stopped es)"
| "poll_stopped (Stop_signal # es) = True"

definition opened :: "kvm_attempt \<Rightarrow> bool" where
  "opened a \<longleftrightarrow> at_initialize a \<and> at_event_impl a \<and> at_open a"

definition polls :: "kvm_attempt \<Rightarrow> bool" where
  "polls a \<longleftrightarrow> opened a \<and> at_register a \<and> at_keepalive a"

definition kvm_heard :: "kvm_attempt \<Rightarrow> dispatch list" where
  "kvm_heard a = (if polls a then poll_heard (ka_events a) else [])"

definition quiet :: "kvm_attempt \<Rightarrow> bool" where
  "quiet a \<longleftrightarrow> \<not> ka_early a \<and> Stop_signal \<notin> set (ka_events a) \<and> \<not> ka_late a"

lemma not_stopped: "Stop_signal \<notin> set es \<Longrightarrow> \<not> poll_stopped es"
  by (induction es rule: poll_stopped.induct) auto

lemma kvm_poll_idle: "\<not> lrun l \<Longrightarrow> kvm_poll_loop report C es l = Some l"
  by (cases es) simp_all

text \<open>The poll, from a connection that runs.\<close>

lemma kvm_poll_result:
  assumes "\<And>u st n. report u st n \<noteq> None" "lrun l"
  shows "\<exists>r. kvm_poll_loop report C es l =
     Some (l\<lparr>lrun := r, lexit := (if poll_stopped es then 0 else lexit l),
             lnet := tell_all report (reported C (poll_heard es)) (lnet l)\<rparr>)"
  using assms(2)
proof (induction es arbitrary: l rule: poll_heard.induct)
  case 1
  then show ?case by (auto intro!: exI [of _ True])
next
  case (2 c es)
  let ?l = "the (dispatch_all report C c l)"
  show ?case
  proof (cases "Connection_closed \<in> set c")
    case True
    then show ?thesis
      using 2(2) by (auto simp: dispatch_all_result [of report, OF assms(1)] kvm_poll_idle)
  next
    case False
    then obtain r where "kvm_poll_loop report C es ?l =
        Some (?l\<lparr>lrun := r, lexit := (if poll_stopped es then 0 else lexit ?l),
                 lnet := tell_all report (reported C (poll_heard es)) (lnet ?l)\<rparr>)"
      using 2(1) [of ?l] 2(2) by (auto simp: dispatch_all_result [of report, OF assms(1)])
    then show ?thesis
      using False 2(2) by (auto simp: dispatch_all_result [of report, OF assms(1)])
  qed
next
  case (3 es)
  then show ?case by (auto simp: kvm_poll_idle stopOnSignal_def intro!: exI [of _ False])
qed

text \<open>A round without signals, and the round of a signal in the poll.\<close>

lemma kvm_round_quiet:
  assumes "\<And>u st n. report u st n \<noteq> None" "lrun l" "quiet a"
  shows "kvm_round report C a l =
     Some (Alive (l\<lparr>installed := installed l \<or> opened a,
                    lnet := tell_all report (reported C (kvm_heard a)) (lnet l)\<rparr>))"
  using kvm_poll_result [of report "l\<lparr>installed := True\<rparr>" C "ka_events a", OF assms(1)] assms(2,3)
  by (cases l; cases "at_keepalive a") (auto simp: kvm_round_def deliver_def retry_def opened_def polls_def
      kvm_heard_def quiet_def kvm_poll_idle not_stopped Let_def)

lemma kvm_round_stop:
  assumes "\<And>u st n. report u st n \<noteq> None" "lrun l" "\<not> ka_early a" "polls a" "poll_stopped (ka_events a)"
  shows "\<exists>l'. kvm_round report C a l = Some (Alive l') \<and> lexit l' = 0 \<and>
     lnet l' = tell_all report (reported C (kvm_heard a)) (lnet l)"
proof -
  let ?l = "l\<lparr>installed := True\<rparr>"
  obtain r where r: "kvm_poll_loop report C (ka_events a) ?l =
      Some (?l\<lparr>lrun := r, lexit := 0, lnet := tell_all report (reported C (kvm_heard a)) (lnet l)\<rparr>)"
    using kvm_poll_result [of report ?l C "ka_events a", OF assms(1)] assms(2-) by (auto simp: kvm_heard_def)
  show ?thesis
    using assms(3,4) by (simp add: kvm_round_def deliver_def retry_def opened_def polls_def r stopOnSignal_def)
qed

text \<open>A signal before the handler is (again) installed.\<close>

lemma kvm_round_early:
  assumes "ka_early a"
  shows "\<exists>l'. kvm_round report C a l = Some (if installed l then Alive l' else Killed (lnet l)) \<and>
     lexit l' = 0 \<and> lnet l' = lnet l"
proof (cases "installed l")
  case True
  then show ?thesis
    using assms by (auto simp: kvm_round_def deliver_def retry_def stopOnSignal_def kvm_poll_idle Let_def)
next
  case False
  then show ?thesis
    using assms by (auto simp: kvm_round_def deliver_def stopOnSignal_def intro!: exI [of _ "stopOnSignal l"])
qed

lemma kvm_listen_quiet:
  assumes "\<And>u st n. report u st n \<noteq> None" "lrun l" "lexit l \<noteq> 0" "list_all quiet as"
  shows "kvm_listen_libvirt_events report C (as @ bs) l =
     kvm_listen_libvirt_events report C bs
       (l\<lparr>installed := installed l \<or> list_ex opened as,
          lnet := tell_all report (reported C (concat (map kvm_heard as))) (lnet l)\<rparr>)"
  using assms(2-)
proof (induction as arbitrary: l)
  case (Cons a as)
  then show ?case by (simp add: kvm_round_quiet [of report, OF assms(1)] disj_assoc)
qed simp

lemma kvm_listen_ended: "lexit l = 0 \<Longrightarrow> kvm_listen_libvirt_events report C as l = Some (Alive l)"
  by (cases as) simp_all

lemma unopened_heard: "\<not> list_ex opened as \<Longrightarrow> concat (map kvm_heard as) = []"
  by (induction as) (auto simp: kvm_heard_def polls_def)

text \<open>
  C22: a signal to the stand-alone listener.  While it listens on a connection the signal ends the
  program with status 0, and exactly the events heard before it have been reported.  A signal
  that comes while it is not connected does the same once a connection has been opened before;
  earlier than that it kills the process, which has reported nothing.
\<close>

theorem kvm_listener_signal:
  assumes "\<And>u st n. report u st n \<noteq> None" "list_all quiet as"
    and "\<not> ka_early a" "polls a" "poll_stopped (ka_events a)" "ka_early b"
  shows "kvm_listener_main report C True True True 0 (as @ a # bs) n =
       Some (Kvm_exits 0, tell_all report (reported C (concat (map kvm_heard (as @ [a])))) n) \<and>
     kvm_listener_main report C True True True 0 (as @ b # bs) n =
       Some (if list_ex opened as
             then (Kvm_exits 0, tell_all report (reported C (concat (map kvm_heard as))) n)
             else (Kvm_killed, n))"
proof -
  let ?l = "\<lparr>lrun = True, lexit = 1, lnet = n, installed = False\<rparr>"
  let ?m = "?l\<lparr>installed := list_ex opened as, lnet := tell_all report (reported C (concat (map kvm_heard as))) n\<rparr>"
  have go: "kvm_listen_libvirt_events report C (as @ cs) ?l = kvm_listen_libvirt_events report C cs ?m" for cs
    by (simp add: kvm_listen_quiet [of report, OF assms(1) _ _ assms(2)])
  obtain l1 where a: "kvm_round report C a ?m = Some (Alive l1)" "lexit l1 = 0"
      "lnet l1 = tell_all report (reported C (kvm_heard a)) (lnet ?m)"
    using kvm_round_stop [of report ?m a C, OF assms(1) _ assms(3-5)] by auto
  obtain l2 where b: "kvm_round report C b ?m = Some (if installed ?m then Alive l2 else Killed (lnet ?m))"
      "lexit l2 = 0" "lnet l2 = lnet ?m"
    using kvm_round_early [OF assms(6), of report C ?m] by auto
  have "kvm_listen_libvirt_events report C (as @ a # bs) ?l = Some (Alive l1)"
    unfolding go using a by (simp add: kvm_listen_ended)
  moreover have "kvm_listen_libvirt_events report C (as @ b # bs) ?l =
      Some (if list_ex opened as then Alive l2 else Killed (lnet ?m))"
    unfolding go using b by (simp add: kvm_listen_ended)
  ultimately show ?thesis
    using a(2,3) b(2,3) by (auto simp: kvm_listener_main_def singleInstance_vrtm_listener_def unopened_heard)
qed

definition kvm_demo :: "bool \<Rightarrow> poll_event list \<Rightarrow> kvm_attempt" where
  "kvm_demo early es =
     \<lparr>at_initialize = True, at_event_impl = True, at_open = True, at_register = True, at_keepalive = True,
      ka_early = early, ka_events = es, ka_late = False\<rparr>"

theorem kvm_listener_signal_witness:
  "kvm_listener_main (\<lambda>u st n. Some (0, n @ [(u, st)])) libvirt_consts True True True 0
     [kvm_demo False [Calls [Domain_event ''u1'' 2 0], Calls [Connection_closed]],
      kvm_demo False [Calls [Domain_event ''u1'' 5 1], Stop_signal, Calls [Domain_event ''u2'' 2 0]]] [] =
   Some (Kvm_exits 0, [(''u1'', VM_STATUS_STARTED), (''u1'', VM_STATUS_STOPPED)])"
  using kvm_listener_signal [of "\<lambda>u st n. Some (0, n @ [(u, st)])"
      "[kvm_demo False [Calls [Domain_event ''u1'' 2 0], Calls [Connection_closed]]]"
      "kvm_demo False [Calls [Domain_event ''u1'' 5 1], Stop_signal, Calls [Domain_event ''u2'' 2 0]]"
      "kvm_demo True []" libvirt_consts "[]" "[]"]
  by (simp add: kvm_demo_def quiet_def polls_def opened_def kvm_heard_def reported_def tell_all_def
      event_status_def libvirt_consts_def)

text \<open>
  A second copy ends at once; and a thread that could not be created goes unnoticed here too (the
  error numbers of \<open>pthread_create\<close> are positive).
\<close>

lemma kvm_listener_single_instance:
  "kvm_listener_main report C True True False created as n = Some (Kvm_exits 1, n)"
  by (simp add: kvm_listener_main_def singleInstance_vrtm_listener_def)

lemma kvm_thread_error_unnoticed:
  "0 < created \<Longrightarrow> kvm_listener_main report C True True True created as n = Some (Kvm_waits, n)"
  by (simp add: kvm_listener_main_def singleInstance_vrtm_listener_def)

end
