(* ===== verification/Resources.thy ===== *)
theory Resources
  imports Host "HOL-Library.Multiset"
begin

text \<open>
  What the Windows branches take and give back: handles, interfaces, buffers.  The multiset of
  what is held is threaded through the calls; giving back what is not held (a second
  \<open>free\<close> or \<open>Release\<close>) is undefined behaviour, \<open>None\<close>.  The locale \<open>ledger\<close> is what a
  function that cleans up after itself relies on.
\<close>

definition release :: "'r \<Rightarrow> 'r multiset \<Rightarrow> 'r multiset option" where
  "release r held = (if r \<in># held then Some (held - {#r#}) else None)"

fun release_all :: "('r \<Rightarrow> 'l \<Rightarrow> 'l option) \<Rightarrow> 'r list \<Rightarrow> 'l \<Rightarrow> 'l option" where
  "release_all rel [] l = Some l"
| "release_all rel (r # rs) l = (case rel r l of None \<Rightarrow> None | Some l' \<Rightarrow> release_all rel rs l')"

locale ledger =
  fixes acq :: "'r \<Rightarrow> 'l \<Rightarrow> 'l" and rel :: "'r \<Rightarrow> 'l \<Rightarrow> 'l option"
  assumes release_acquired: "rel r (acq r l) = Some l"
    and acquire_commute: "acq r (acq q l) = acq q (acq r l)"
begin

lemma fold_acquire_commute: "fold acq rs (acq r l) = acq r (fold acq rs l)"
  by (induction rs arbitrary: l) (simp_all add: acquire_commute [of _ r])

lemma fold_acquire_remove1: "r \<in> set rs \<Longrightarrow> fold acq rs l = acq r (fold acq (remove1 r rs) l)"
  by (induction rs arbitrary: l) (auto simp: fold_acquire_commute acquire_commute)

text \<open>What was taken can be given back in any order, and nothing else is touched.\<close>

lemma release_all_acquired:
  "mset rs = mset qs \<Longrightarrow> release_all rel rs (fold acq qs l) = Some l"
proof (induction rs arbitrary: qs)
  case (Cons r rs)
  then have "r \<in> set qs" by (metis list.set_intros(1) set_mset_mset)
  moreover have "mset rs = mset (remove1 r qs)"
    using Cons.prems by (metis add_mset_remove_trivial mset.simps(2) mset_remove1)
  ultimately show ?case
    using Cons.IH by (simp add: fold_acquire_remove1 [of r qs] release_acquired)
qed simp

end

interpretation multiset_ledger: ledger add_mset release
  by unfold_locales (simp_all add: release_def add_mset_commute)

text \<open>The same for a set of pointers that are tested one after the other.\<close>

lemma release_filtered:
  assumes "distinct order" "mset_set P = mset qs" "finite P" "P \<subseteq> set order"
  shows "release_all release (filter (\<lambda>r. r \<in> P) order) (fold add_mset qs l) = Some l"
proof (rule multiset_ledger.release_all_acquired)
  have "set (filter (\<lambda>r. r \<in> P) order) = P" using assms(4) by auto
  with assms(1,2) show "mset (filter (\<lambda>r. r \<in> P) order) = mset qs"
    by (metis distinct_filter mset_set_set)
qed

end
