(* ===== verification/Windows_Build.thy ===== *)
theory Windows_Build
  imports Resources Saml_Report Start_App
begin

text \<open>
  Functions that only the Windows build has: the file helpers of \<open>util/vrtmCommon.cpp\<close>, the search
  for a drive letter, hashing with the CNG functions, and the start of the Hyper-V thread (all three
  in \<open>vrtmcore/modtcService.cpp\<close>).  The functions of the system are parameters.
\<close>

section \<open>File helpers\<close>

datatype win_error = ERROR_ALREADY_EXISTS | ERROR_PATH_NOT_FOUND | ERROR_FILE_NOT_FOUND | Other_error

text \<open>
  A call that fails gives what \<open>GetLastError\<close> reports.  \<open>win_drives\<close> is \<open>GetLogicalDriveStrings\<close> on a
  buffer of 128 characters: the length it returns and the characters it writes.
\<close>

record 'w winapi =
  win_CreateDirectory :: "cstr \<Rightarrow> 'w \<Rightarrow> win_error option \<times> 'w"
  win_CopyFile :: "cstr \<Rightarrow> cstr \<Rightarrow> 'w \<Rightarrow> win_error option \<times> 'w"
  win_SHFileOperation :: "cstr \<Rightarrow> 'w \<Rightarrow> int \<times> 'w"
  win_drives :: "'w \<Rightarrow> nat \<times> string"
  win_sleep :: "'w \<Rightarrow> 'w"
  win_system :: "cstr \<Rightarrow> 'w \<Rightarrow> int \<times> 'w"

definition make_dir_win :: "'w winapi \<Rightarrow> cstr \<Rightarrow> 'w \<Rightarrow> int \<times> 'w" where
  "make_dir_win W dir_name w =
     (case win_CreateDirectory W dir_name w of
        (Some ERROR_PATH_NOT_FOUND, w) \<Rightarrow> (- 1, w)
      | (_, w) \<Rightarrow> (0, w))"

text \<open>
  \<open>strcpy_s\<close> of the Windows library ends the process when the name does not fit the 260
  characters of \<open>newFrom\<close>; a name of 259 characters makes the code write the second NUL behind
  the array.
\<close>

datatype 'a win_end = Win_done 'a | Win_terminates | Win_undefined

definition MAX_PATH :: nat where "MAX_PATH = 260"

definition remove_dir_win :: "'w winapi \<Rightarrow> cstr \<Rightarrow> 'w \<Rightarrow> (int \<times> 'w) win_end" where
  "remove_dir_win W dir_name w =
     (if MAX_PATH \<le> length dir_name then Win_terminates
      else if MAX_PATH \<le> strnlen_s dir_name MAX_LEN + 1 then Win_undefined
      else Win_done (win_SHFileOperation W dir_name w))"

text \<open>
  \<open>result\<close> is only written when the source does not exist; \<open>None\<close> is the value of the variable
  that was never set.
\<close>

definition copy_file_win :: "'w winapi \<Rightarrow> cstr \<Rightarrow> cstr \<Rightarrow> 'w \<Rightarrow> int option \<times> 'w" where
  "copy_file_win W existing_file_name new_file_name w =
     (case win_CopyFile W existing_file_name new_file_name w of
        (Some ERROR_FILE_NOT_FOUND, w) \<Rightarrow> (Some (- 1), w)
      | (_, w) \<Rightarrow> (None, w))"

lemma make_dir_win_unnoticed:
  "win_CreateDirectory W d w = (Some Other_error, w') \<Longrightarrow> make_dir_win W d w = (0, w')"
  by (simp add: make_dir_win_def)

lemma copy_file_win_unset:
  "win_CopyFile W f g w = (None, w') \<Longrightarrow> copy_file_win W f g w = (None, w')"
  by (simp add: copy_file_win_def)

section \<open>The drive letter\<close>

text \<open>
  The array \<open>drives\<close> of 24 characters, filled with the first character of every string in the
  buffer.  A string beyond the 24th is written behind the array, and an array without a NUL
  makes \<open>strstr\<close> read behind it: \<open>None\<close>.  So does a length beyond the buffer of 128 characters.
\<close>

fun collect_drives :: "string \<Rightarrow> nat \<Rightarrow> nat \<Rightarrow> nat \<Rightarrow> string \<Rightarrow> string option" where
  "collect_drives buf 0 i j drives = Some drives"
| "collect_drives buf (Suc n) i j drives =
     (if buf ! i = nul
      then (if 24 \<le> length drives then None
            else collect_drives buf n (Suc i) (Suc i) (drives @ [buf ! j]))
      else collect_drives buf n (Suc i) j drives)"

text \<open>The letters from D on; \<open>strstr\<close> looks for the one-letter string.\<close>

fun first_free :: "nat \<Rightarrow> nat \<Rightarrow> cstr \<Rightarrow> char option" where
  "first_free 0 c drives = None"
| "first_free (Suc n) c drives =
     (if \<not> contains [char_of c] drives then Some (char_of c) else first_free n (Suc c) drives)"

definition next_available_logical_drive :: "'w winapi \<Rightarrow> 'w \<Rightarrow> char option option" where
  "next_available_logical_drive W w =
     (case win_drives W w of (total_drive_size, drive_name_present) \<Rightarrow>
        if total_drive_size = 0 then Some None
        else if 128 < total_drive_size then None
        else case collect_drives drive_name_present total_drive_size 0 0 [] of
               None \<Rightarrow> None
             | Some drives \<Rightarrow>
                 if length drives = 24 \<and> nul \<notin> set drives then None
                 else Some (first_free 23 68 (cstr_of drives)))"

text \<open>The loop of \<open>StartApp\<close>: five waits of a second, and the result of the search.\<close>

function pick_drive :: "'w winapi \<Rightarrow> nat \<Rightarrow> 'w \<Rightarrow> (char option \<times> 'w) option" where
  "pick_drive W sleep_count w =
     (case next_available_logical_drive W w of
        None \<Rightarrow> None
      | Some None \<Rightarrow>
          if sleep_count < 5 then pick_drive W (Suc sleep_count) (win_sleep W w) else Some (None, w)
      | Some (Some c) \<Rightarrow> Some (Some c, w))"
  by auto
termination
  by (relation "measure (\<lambda>(W, n, w). 5 - n)") auto

declare pick_drive.simps [simp del]

section \<open>Which letter is found\<close>

text \<open>What \<open>GetLogicalDriveStrings\<close> writes for drives with these letters.\<close>

definition drive_strings :: "char list \<Rightarrow> string" where
  "drive_strings ds = concat (map (\<lambda>c. [c, CHR '':'', CHR 0x5C, nul]) ds)"

lemma drive_strings_simps [simp]:
  "drive_strings [] = []"
  "drive_strings (d # ds) = d # CHR '':'' # CHR 0x5C # nul # drive_strings ds"
  "length (drive_strings ds) = 4 * length ds"
  by (simp_all add: drive_strings_def) (induction ds, simp_all)

lemma collect_drives_strings:
  assumes "nul \<notin> set ds" "i = length pre" "length drv \<le> 24"
  shows "collect_drives (pre @ drive_strings ds @ rest) (4 * length ds) i i drv =
     (if length drv + length ds \<le> 24 then Some (drv @ ds) else None)"
  using assms
proof (induction ds arbitrary: pre i drv)
  case (Cons d ds)
  let ?buf = "(pre @ [d, CHR '':'', CHR 0x5C, nul]) @ drive_strings ds @ rest"
  have b: "pre @ drive_strings (d # ds) @ rest = ?buf" by simp
  have at: "?buf ! i = d" "?buf ! Suc i = CHR '':''" "?buf ! Suc (Suc i) = CHR 0x5C"
      "?buf ! Suc (Suc (Suc i)) = nul"
    using Cons.prems(2) by (simp_all add: nth_append)
  have d: "d \<noteq> nul" using Cons.prems(1) by auto
  have n: "4 * length (d # ds) = Suc (Suc (Suc (Suc (4 * length ds))))" by simp
  have "collect_drives ?buf (4 * length (d # ds)) i i drv =
      (if 24 \<le> length drv then None
       else collect_drives ?buf (4 * length ds) (Suc (Suc (Suc (Suc i)))) (Suc (Suc (Suc (Suc i)))) (drv @ [d]))"
    unfolding n using d by (simp only: collect_drives.simps at) simp
  also have "\<dots> = (if length drv + length (d # ds) \<le> 24 then Some (drv @ d # ds) else None)"
    using Cons.IH [of "Suc (Suc (Suc (Suc i)))" "pre @ [d, CHR '':'', CHR 0x5C, nul]" "drv @ [d]"] Cons.prems
    by auto
  finally show ?case by (simp only: b)
qed simp

lemma contains_one: "contains [c] s \<longleftrightarrow> c \<in> set s"
  by (induction s) auto

lemma first_free_find: "first_free n c drives = find (\<lambda>x. x \<notin> set drives) (map char_of [c ..< c + n])"
  by (induction n arbitrary: c) (simp_all add: contains_one upt_conv_Cons del: upt_Suc)

text \<open>
  C40: the search for a drive letter.  With fewer than 24 drives it finds the first letter from D to Z
  that no drive has.  With 24 drives or more, and so always when no letter is left beside the
  system drive, it writes or reads behind its array; so the answer that no letter is free, for
  which the caller waits, is given only when exactly the letters from D to Z are taken, or when
  the system call failed.
\<close>

theorem next_drive_letter:
  assumes "win_drives W w = (4 * length ds, drive_strings ds @ rest)"
    and "nul \<notin> set ds" "distinct ds" "length ds \<le> 26"
  shows "next_available_logical_drive W w =
      (if ds = [] then Some None
       else if 24 \<le> length ds then None
       else Some (find (\<lambda>c. c \<notin> set ds) (map char_of [68 ..< 91]))) \<and>
    (next_available_logical_drive W w = Some None \<longleftrightarrow> ds = [] \<or> set ds = set (map char_of [68 ..< 91 :: nat]))"
proof -
  have col: "collect_drives (drive_strings ds @ rest) (4 * length ds) 0 0 [] =
      (if length ds \<le> 24 then Some ds else None)"
    using collect_drives_strings [OF assms(2), of 0 "[]" "[]" rest] by simp
  have c: "cstr_of ds = ds" using assms(2) by (simp add: cstr_of_nul_free nul_free_def)
  have "first_free 23 68 ds = find (\<lambda>c. c \<notin> set ds) (map char_of [68 ..< 91])"
    by (simp add: first_free_find)
  then have 1: "next_available_logical_drive W w =
      (if ds = [] then Some None
       else if 24 \<le> length ds then None
       else Some (find (\<lambda>c. c \<notin> set ds) (map char_of [68 ..< 91])))"
    using assms col by (auto simp: next_available_logical_drive_def c)
  let ?L = "map char_of [68 ..< 91 :: nat] :: char list"
  have L: "distinct ?L" "length ?L = 23"
    by (simp_all add: distinct_map inj_on_def)
  have all: "set ds = set ?L" if "set ?L \<subseteq> set ds" "length ds < 24"
    using that L assms(3) by (metis card_seteq distinct_card finite_set less_Suc_eq_le numeral_nat)
  have n: "length ds = 23" if "set ds = set ?L"
    using that L assms(3) distinct_card [of ds] distinct_card [of ?L] by simp
  have "find (\<lambda>c. c \<notin> set ds) ?L = None \<longleftrightarrow> set ?L \<subseteq> set ds"
    by (auto simp: find_None_iff)
  moreover have "\<not> 24 \<le> length ds \<and> set ?L \<subseteq> set ds \<longleftrightarrow> set ds = set ?L"
  proof
    assume "\<not> 24 \<le> length ds \<and> set ?L \<subseteq> set ds"
    then show "set ds = set ?L" by (intro all) simp_all
  next
    assume e: "set ds = set ?L"
    then have "length ds = 23" by (rule n)
    with e show "\<not> 24 \<le> length ds \<and> set ?L \<subseteq> set ds" by (simp only: order_refl) simp
  qed
  ultimately show ?thesis using 1 n by (auto split: if_splits)
qed

definition demo_win :: "char list \<Rightarrow> unit winapi" where
  "demo_win ds =
     \<lparr>win_CreateDirectory = (\<lambda>_ w. (None, w)), win_CopyFile = (\<lambda>_ _ w. (None, w)),
      win_SHFileOperation = (\<lambda>_ w. (0, w)), win_drives = (\<lambda>_. (4 * length ds, drive_strings ds)),
      win_sleep = (\<lambda>w. w), win_system = (\<lambda>_ w. (0, w))\<rparr>"

theorem next_drive_letter_witness:
  "next_available_logical_drive (demo_win ''ACDEG'') () = Some (Some (CHR ''F''))"
proof -
  have "find (\<lambda>c. c \<notin> set ''ACDEG'') (map char_of [68 ..< 91 :: nat]) = Some (CHR ''F'')"
    by code_simp
  with next_drive_letter [THEN conjunct1, of "demo_win ''ACDEG''" "()" "''ACDEG''" "[]"]
  show ?thesis by (simp only: demo_win_def winapi.simps) simp
qed

text \<open>
  The wait: at most five seconds, and the letter is that of the first search that finds one.
\<close>

lemma pick_drive_waits:
  assumes "\<And>w. next_available_logical_drive W w \<noteq> None" "k \<le> 5"
  shows "\<exists>n c. n \<le> 5 - k \<and> pick_drive W k w = Some (c, (win_sleep W ^^ n) w) \<and>
     next_available_logical_drive W ((win_sleep W ^^ n) w) = Some c \<and> (c = None \<longrightarrow> n = 5 - k) \<and>
     (\<forall>m < n. next_available_logical_drive W ((win_sleep W ^^ m) w) = Some None)"
  using assms(2)
proof (induction "5 - k" arbitrary: k w)
  case 0
  obtain c where "next_available_logical_drive W w = Some c" using assms(1) by blast
  moreover have "k = 5" using 0 by simp
  ultimately show ?case
    by (intro exI [of _ 0] exI [of _ c]) (cases c, simp_all add: pick_drive.simps [of W 5])
next
  case (Suc d)
  obtain c where c: "next_available_logical_drive W w = Some c" using assms(1) by blast
  show ?case
  proof (cases c)
    case (Some x)
    with c show ?thesis
      by (intro exI [of _ 0] exI [of _ c]) (simp add: pick_drive.simps [of W k])
  next
    case None
    have "d = 5 - Suc k" "Suc k \<le> 5" using Suc.hyps(2) by simp_all
    from Suc.hyps(1) [OF this, of "win_sleep W w"] obtain n c' where
      "n \<le> 5 - Suc k" "pick_drive W (Suc k) (win_sleep W w) = Some (c', (win_sleep W ^^ n) (win_sleep W w))"
      "next_available_logical_drive W ((win_sleep W ^^ n) (win_sleep W w)) = Some c'" "c' = None \<longrightarrow> n = 5 - Suc k"
      "\<forall>m < n. next_available_logical_drive W ((win_sleep W ^^ m) (win_sleep W w)) = Some None"
      by blast
    with c None Suc.hyps(2) show ?thesis
      by (intro exI [of _ "Suc n"] exI [of _ c'])
        (auto simp: pick_drive.simps [of W k] funpow_swap1 less_Suc_eq_0_disj)
  qed
qed

section \<open>Hashing with CNG\<close>

text \<open>
  What the calls return: the NTSTATUS of each function (negative is failure), the sizes that are
  read from the algorithm, whether \<open>malloc\<close> succeeds, and what a fresh buffer holds.  A call
  that fails leaves the variable for its result alone.  \<open>cng_sha1\<close> and \<open>cng_sha256\<close> are the hash
  objects.
\<close>

record 'h cng =
  cng_open :: int
  cng_object_length :: "int \<times> int"
  cng_object_malloc :: bool
  cng_hash_length :: "int \<times> int"
  cng_hash_malloc :: bool
  cng_create :: int
  cng_data :: "nat \<Rightarrow> int"
  cng_finish :: int
  cng_junk :: string
  cng_sha1 :: "'h hash_lib"
  cng_sha256 :: "'h hash_lib"

definition NT_SUCCESS :: "int \<Rightarrow> bool" where "NT_SUCCESS status \<longleftrightarrow> 0 \<le> status"

datatype cng_resource =
  Read_buffer | File_stream | Alg_handle | Hash_handle | Object_buffer | Hash_buffer

text \<open>Which of the four pointers are set.\<close>

definition cleanup_CNG_api_args ::
  "cng_resource set \<Rightarrow> cng_resource multiset \<Rightarrow> cng_resource multiset option"
where
  "cleanup_CNG_api_args ptrs held =
     release_all release
       (filter (\<lambda>r. r \<in> ptrs) [Alg_handle, Hash_handle, Object_buffer, Hash_buffer]) held"

text \<open>The status, the pointers, the size of the hash, and what is held.\<close>

type_synonym cng_setup = "(int \<times> cng_resource set \<times> int) \<times> cng_resource multiset"

definition cng_fail ::
  "int \<Rightarrow> cng_resource set \<Rightarrow> int \<Rightarrow> cng_resource multiset \<Rightarrow> cng_setup option"
where
  "cng_fail status ptrs hash_size held =
     map_option (\<lambda>l. ((status, ptrs, hash_size), l)) (cleanup_CNG_api_args ptrs held)"

definition setup_CNG_api_args :: "'h cng \<Rightarrow> cng_resource multiset \<Rightarrow> cng_setup option" where
  "setup_CNG_api_args K held =
     (let status = cng_open K
      in if \<not> NT_SUCCESS status then cng_fail status {} 0 held
         else let ptrs = {Alg_handle}; held = add_mset Alg_handle held;
                  status = fst (cng_object_length K)
              in if \<not> NT_SUCCESS status then cng_fail status ptrs 0 held
                 else if \<not> cng_object_malloc K then cng_fail (- 1) ptrs 0 held
                 else let ptrs = insert Object_buffer ptrs; held = add_mset Object_buffer held;
                          (status, hash_size) = cng_hash_length K
                      in if \<not> NT_SUCCESS status then cng_fail status ptrs 0 held
                         else if \<not> cng_hash_malloc K then cng_fail (- 1) ptrs hash_size held
                         else let ptrs = insert Hash_buffer ptrs; held = add_mset Hash_buffer held;
                                  status = cng_create K
                              in if \<not> NT_SUCCESS status then cng_fail status ptrs hash_size held
                                 else Some ((status, insert Hash_handle ptrs, hash_size),
                                            add_mset Hash_handle held))"

text \<open>The loop over \<open>fread\<close>; \<open>None\<close> when hashing a chunk fails.\<close>

function cng_chunks :: "'h cng \<Rightarrow> 'h hash_lib \<Rightarrow> nat \<Rightarrow> 'h \<Rightarrow> string \<Rightarrow> 'h option" where
  "cng_chunks K L i st s =
     (if s = [] then Some st
      else if \<not> NT_SUCCESS (cng_data K i) then None
      else cng_chunks K L (Suc i) (hl_update L st (take 65000 s)) (drop 65000 s))"
  by auto
termination
  by (relation "measure (\<lambda>(K, L, i, st, s). length s)") auto

declare cng_chunks.simps [simp del]

text \<open>
  \<open>calculateHash\<close> in the Windows build.  The result of \<open>BCryptFinishHash\<close> is not looked at: when it
  fails, the hash is what the buffer held before.
\<close>

definition close_and_free ::
  "(int \<times> string) \<Rightarrow> cng_resource multiset \<Rightarrow> 'w
     \<Rightarrow> ((int \<times> string) \<times> cng_resource multiset \<times> 'w) option"
where
  "close_and_free r held w =
     map_option (\<lambda>l. (r, l, w)) (release_all release [File_stream, Read_buffer] held)"

definition calculateHash_win ::
  "'w host \<Rightarrow> 'h cng \<Rightarrow> bool \<Rightarrow> cstr \<Rightarrow> cstr \<Rightarrow> cng_resource multiset \<Rightarrow> 'w
     \<Rightarrow> ((int \<times> string) \<times> cng_resource multiset \<times> 'w) option"
where
  "calculateHash_win H K buffer xml_file hash_alg held w =
     (if \<not> buffer then Some ((- 1, []), held, w)
      else let held = add_mset Read_buffer held
      in case h_fopen H xml_file ForRead w of
        (False, w) \<Rightarrow> map_option (\<lambda>l. ((- 1, []), l, w)) (release Read_buffer held)
      | (True, w) \<Rightarrow>
          (let held = add_mset File_stream held
           in case setup_CNG_api_args K held of
                None \<Rightarrow> None
              | Some ((ntstatus, ptrs, hash_size), held) \<Rightarrow>
                  if \<not> NT_SUCCESS ntstatus then close_and_free (- 1, []) held w
                  else let L = (if hash_alg = ''sha1'' then cng_sha1 K else cng_sha256 K)
                       in case cng_chunks K L 0 (hl_init L) (h_content H xml_file w) of
                            None \<Rightarrow>
                              (case cleanup_CNG_api_args ptrs held of
                                 None \<Rightarrow> None
                               | Some held \<Rightarrow> close_and_free (- 1, []) held w)
                          | Some st \<Rightarrow>
                              (let hash = (if NT_SUCCESS (cng_finish K) then hl_final L st else cng_junk K)
                               in case cleanup_CNG_api_args ptrs held of
                                    None \<Rightarrow> None
                                  | Some held \<Rightarrow>
                                      close_and_free (hash_size, take (nat hash_size) hash) held w)))"

lemma cleanup_held:
  assumes "mset_set ptrs = mset qs" "finite ptrs" "Read_buffer \<notin> ptrs" "File_stream \<notin> ptrs"
  shows "cleanup_CNG_api_args ptrs (fold add_mset qs held) = Some held"
  unfolding cleanup_CNG_api_args_def
proof (rule release_filtered)
  show "ptrs \<subseteq> set [Alg_handle, Hash_handle, Object_buffer, Hash_buffer]"
  proof
    fix r assume "r \<in> ptrs"
    with assms(3,4) show "r \<in> set [Alg_handle, Hash_handle, Object_buffer, Hash_buffer]"
      by (cases r) auto
  qed
qed (use assms in simp_all)

lemma cleanup_cases:
  "cleanup_CNG_api_args {} held = Some held"
  "cleanup_CNG_api_args {Alg_handle} (add_mset Alg_handle held) = Some held"
  "cleanup_CNG_api_args {Object_buffer, Alg_handle} (add_mset Object_buffer (add_mset Alg_handle held)) = Some held"
  "cleanup_CNG_api_args {Hash_buffer, Object_buffer, Alg_handle}
     (add_mset Hash_buffer (add_mset Object_buffer (add_mset Alg_handle held))) = Some held"
  "cleanup_CNG_api_args {Hash_handle, Hash_buffer, Object_buffer, Alg_handle}
     (add_mset Hash_handle (add_mset Hash_buffer (add_mset Object_buffer (add_mset Alg_handle held)))) = Some held"
  using cleanup_held [of "{}" "[]" held] cleanup_held [of "{Alg_handle}" "[Alg_handle]" held]
    cleanup_held [of "{Object_buffer, Alg_handle}" "[Alg_handle, Object_buffer]" held]
    cleanup_held [of "{Hash_buffer, Object_buffer, Alg_handle}" "[Alg_handle, Object_buffer, Hash_buffer]" held]
    cleanup_held [of "{Hash_handle, Hash_buffer, Object_buffer, Alg_handle}"
      "[Alg_handle, Object_buffer, Hash_buffer, Hash_handle]" held]
  by (simp_all add: add_mset_commute)

text \<open>A set-up that fails holds nothing; one that succeeds holds the four, which the clean-up gives back.\<close>

lemma NT_SUCCESS_minus [simp]: "\<not> NT_SUCCESS (- 1)"
  by (simp add: NT_SUCCESS_def)

lemma setup_CNG_balance:
  "\<exists>status ptrs n l. setup_CNG_api_args K held = Some ((status, ptrs, n), l) \<and>
     (NT_SUCCESS status \<longrightarrow> n = snd (cng_hash_length K) \<and> cleanup_CNG_api_args ptrs l = Some held) \<and>
     (\<not> NT_SUCCESS status \<longrightarrow> l = held)"
proof -
  obtain a n where a: "cng_hash_length K = (a, n)" by force
  let ?o = "NT_SUCCESS (cng_open K)" and ?l = "NT_SUCCESS (fst (cng_object_length K))"
  consider "\<not> ?o" | "?o" "\<not> ?l" | "?o" "?l" "\<not> cng_object_malloc K"
    | "?o" "?l" "cng_object_malloc K" "\<not> NT_SUCCESS a"
    | "?o" "?l" "cng_object_malloc K" "NT_SUCCESS a" "\<not> cng_hash_malloc K"
    | "?o" "?l" "cng_object_malloc K" "NT_SUCCESS a" "cng_hash_malloc K" "\<not> NT_SUCCESS (cng_create K)"
    | "?o" "?l" "cng_object_malloc K" "NT_SUCCESS a" "cng_hash_malloc K" "NT_SUCCESS (cng_create K)"
    by blast
  then show ?thesis
    by cases (simp_all add: setup_CNG_api_args_def Let_def a cng_fail_def cleanup_cases)
qed

lemma close_and_free_held:
  "close_and_free r (add_mset File_stream (add_mset Read_buffer held)) w = Some (r, held, w)"
  using multiset_ledger.release_all_acquired [of "[File_stream, Read_buffer]" "[Read_buffer, File_stream]" held]
  by (simp add: close_and_free_def add_mset_commute)

lemma cng_chunks_all:
  assumes "\<And>i. NT_SUCCESS (cng_data K i)"
  shows "cng_chunks K L i st s = Some (hash_chunks L st s)"
proof (induction L st s arbitrary: i rule: hash_chunks.induct)
  case (1 L st s)
  then show ?case
    using assms by (subst cng_chunks.simps, subst hash_chunks.simps) simp
qed

text \<open>CNG with every call successful, computing the same hashes as OpenSSL.\<close>

definition cng_works :: "'h cng \<Rightarrow> 'h sign_lib \<Rightarrow> cstr \<Rightarrow> bool" where
  "cng_works K C hash_alg \<longleftrightarrow>
     NT_SUCCESS (cng_open K) \<and> NT_SUCCESS (fst (cng_object_length K)) \<and> cng_object_malloc K \<and>
     NT_SUCCESS (fst (cng_hash_length K)) \<and> cng_hash_malloc K \<and> NT_SUCCESS (cng_create K) \<and>
     (\<forall>i. NT_SUCCESS (cng_data K i)) \<and>
     snd (cng_hash_length K) = (if hash_alg = ''sha1'' then 20 else 32) \<and>
     cng_sha1 K = sl_sha1 C \<and> cng_sha256 K = sl_sha256 C"

definition digest_sizes :: "'h sign_lib \<Rightarrow> bool" where
  "digest_sizes C \<longleftrightarrow>
     (\<forall>st. length (hl_final (sl_sha1 C) st) = 20 \<and> length (hl_final (sl_sha256 C) st) = 32)"

lemma setup_CNG_works:
  "cng_works K C alg \<Longrightarrow> \<exists>status ptrs l. setup_CNG_api_args K held =
     Some ((status, ptrs, if alg = ''sha1'' then 20 else 32), l) \<and> NT_SUCCESS status \<and>
     cleanup_CNG_api_args ptrs l = Some held"
proof -
  assume w: "cng_works K C alg"
  obtain a n where a: "cng_hash_length K = (a, n)" by force
  have "NT_SUCCESS (cng_create K)" "n = (if alg = ''sha1'' then 20 else 32)"
    using w by (simp_all add: cng_works_def a)
  moreover have "setup_CNG_api_args K held =
      Some ((cng_create K, {Hash_handle, Hash_buffer, Object_buffer, Alg_handle}, n),
        add_mset Hash_handle (add_mset Hash_buffer (add_mset Object_buffer (add_mset Alg_handle held))))"
    using w by (simp add: cng_works_def setup_CNG_api_args_def Let_def a)
  ultimately show ?thesis using cleanup_cases(5) [of held] by simp
qed

lemma calculateHash_win_balanced:
  "\<exists>r w'. calculateHash_win H K buffer f alg held w = Some (r, held, w')"
proof (cases "buffer \<and> fst (h_fopen H f ForRead w)")
  case False
  then show ?thesis
    by (cases "h_fopen H f ForRead w"; cases buffer) (simp_all add: calculateHash_win_def release_def)
next
  case True
  then obtain w1 where w1: "buffer" "h_fopen H f ForRead w = (True, w1)"
    by (cases "h_fopen H f ForRead w") auto
  let ?held = "add_mset File_stream (add_mset Read_buffer held)"
  obtain status ptrs n l where set: "setup_CNG_api_args K ?held = Some ((status, ptrs, n), l)"
      "NT_SUCCESS status \<Longrightarrow> cleanup_CNG_api_args ptrs l = Some ?held" "\<not> NT_SUCCESS status \<Longrightarrow> l = ?held"
    using setup_CNG_balance [of K ?held] by blast
  with w1 show ?thesis
    by (auto simp: calculateHash_win_def Let_def close_and_free_held split: option.split)
qed

lemma calculateHash_win_result:
  assumes "cng_works K C alg"
  shows "calculateHash_win H K True f alg held w =
     (case h_fopen H f ForRead w of
        (False, w') \<Rightarrow> Some ((- 1, []), held, w')
      | (True, w') \<Rightarrow>
          (let L = (if alg = ''sha1'' then sl_sha1 C else sl_sha256 C);
               n = (if alg = ''sha1'' then 20 else 32 :: nat)
           in Some ((int n, take n (if NT_SUCCESS (cng_finish K)
                                    then hl_final L (hash_chunks L (hl_init L) (h_content H f w'))
                                    else cng_junk K)), held, w')))"
proof (cases "h_fopen H f ForRead w")
  case (Pair opened w1)
  show ?thesis
  proof (cases opened)
    case False
    with Pair show ?thesis by (simp add: calculateHash_win_def release_def)
  next
    case True
    let ?held = "add_mset File_stream (add_mset Read_buffer held)"
    obtain status ptrs l where set: "setup_CNG_api_args K ?held =
        Some ((status, ptrs, if alg = ''sha1'' then 20 else 32), l)" "NT_SUCCESS status"
        "cleanup_CNG_api_args ptrs l = Some ?held"
      using setup_CNG_works [OF assms, of ?held] by blast
    have "cng_sha1 K = sl_sha1 C" "cng_sha256 K = sl_sha256 C" "\<And>i. NT_SUCCESS (cng_data K i)"
      using assms by (simp_all add: cng_works_def)
    with Pair True set show ?thesis
      by (cases "alg = ''sha1''") (simp_all add: calculateHash_win_def Let_def close_and_free_held cng_chunks_all)
  qed
qed

text \<open>
  C38: hashing a file in the Windows build.  However the calls go, every handle, buffer and stream
  that was taken is given back, and given back once; and when all of them succeed, the result is
  that of the Linux build.
\<close>

theorem windows_hash:
  assumes "cng_works K C alg" "NT_SUCCESS (cng_finish K)" "digest_sizes C"
  shows "(\<exists>r w'. calculateHash_win H K' buffer f alg' held w = Some (r, held, w')) \<and>
    calculateHash_win H K True f alg held w =
      Some (fst (calculateHash H C f alg w), held, snd (calculateHash H C f alg w))"
proof (rule conjI)
  have t: "take 20 (hl_final (sl_sha1 C) st) = hl_final (sl_sha1 C) st"
      "take 32 (hl_final (sl_sha256 C) st) = hl_final (sl_sha256 C) st" for st
    using assms(3) by (simp_all add: digest_sizes_def)
  obtain opened w' where w': "h_fopen H f ForRead w = (opened, w')" by force
  show "calculateHash_win H K True f alg held w =
      Some (fst (calculateHash H C f alg w), held, snd (calculateHash H C f alg w))"
    unfolding calculateHash_win_result [OF assms(1)] calculateHash_def w' Let_def
    by (cases opened; cases "alg = ''sha1''") (simp_all add: assms(2) t)
qed (rule calculateHash_win_balanced)

text \<open>When only the last call fails, the hash is what the buffer held before, and no error is reported.\<close>

lemma unfinished_hash:
  assumes "cng_works K C alg" "\<not> NT_SUCCESS (cng_finish K)" "h_fopen H f ForRead w = (True, w')"
  shows "calculateHash_win H K True f alg held w =
     Some (if alg = ''sha1'' then (20, take 20 (cng_junk K)) else (32, take 32 (cng_junk K)), held, w')"
  using assms by (simp add: calculateHash_win_result [OF assms(1)])

definition demo_hash :: "nat \<Rightarrow> nat hash_lib" where
  "demo_hash n = \<lparr>hl_init = 0, hl_update = (\<lambda>k s. k + length s),
     hl_final = (\<lambda>k. replicate n (char_of k))\<rparr>"

definition demo_hashes :: "nat sign_lib" where
  "demo_hashes = \<lparr>sl_sha1 = demo_hash 20, sl_sha256 = demo_hash 32, sl_pem = Some, sl_c14n = Some\<rparr>"

definition demo_cng :: "nat cng" where
  "demo_cng = \<lparr>cng_open = 0, cng_object_length = (0, 300), cng_object_malloc = True,
     cng_hash_length = (0, 32), cng_hash_malloc = True, cng_create = 0, cng_data = (\<lambda>_. 0),
     cng_finish = 0, cng_junk = ''junk'', cng_sha1 = demo_hash 20, cng_sha256 = demo_hash 32\<rparr>"

theorem windows_hash_witness:
  "\<exists>w'. calculateHash_win ref_host demo_cng True ''f'' ''sha256'' {#}
     (ref_world0\<lparr>rw_files := [(''f'', ''abc'')]\<rparr>) = Some ((32, replicate 32 (CHR 0x03)), {#}, w')"
proof -
  let ?w = "ref_world0\<lparr>rw_files := [(''f'', ''abc'')]\<rparr>"
  have "fst (calculateHash ref_host demo_hashes ''f'' ''sha256'' ?w) = (32, replicate 32 (CHR 0x03))"
  proof -
    have "hash_chunks (demo_hash 32) 0 ''abc'' = 3"
      by (subst hash_chunks.simps, subst hash_chunks.simps) (simp add: demo_hash_def)
    moreover have "char_of (3 :: nat) = CHR 0x03" by code_simp
    ultimately show ?thesis
      by (simp add: calculateHash_def demo_hashes_def ref_host_def ref_file_def map_get_def)
        (simp add: demo_hash_def)
  qed
  moreover have "cng_works demo_cng demo_hashes ''sha256''" "NT_SUCCESS (cng_finish demo_cng)"
      "digest_sizes demo_hashes"
    by (simp_all add: cng_works_def demo_cng_def demo_hashes_def NT_SUCCESS_def digest_sizes_def demo_hash_def)
  ultimately show ?thesis
    using windows_hash [THEN conjunct2, of demo_cng demo_hashes "''sha256''" ref_host "''f''" "{#}" ?w]
    by simp
qed

section \<open>Starting the Hyper-V thread\<close>

text \<open>
  The Windows part of \<open>cleanupService\<close>, which follows the part of \<open>Proc_Table\<close>: the flag
  \<open>g_hyperv_vm_cleanup_service_status\<close> and the number of its threads that have been started and
  have not returned.
\<close>

record hyperv_service =
  hyperv_status :: int
  hyperv_threads :: nat

definition start_hyperv_thread ::
  "'w host \<Rightarrow> hyperv_service \<Rightarrow> 'w \<Rightarrow> hyperv_service \<times> 'w"
where
  "start_hyperv_thread H v w =
     (if hyperv_status v \<noteq> 0 then (v, w)
      else if h_setdetach_ok H w
           then let (created, w) = h_pthread_create H w
                in (if \<not> created then v
                    else v\<lparr>hyperv_status := 1, hyperv_threads := Suc (hyperv_threads v)\<rparr>, w)
           else (v, w))"

definition cleanupService_win ::
  "'w host \<Rightarrow> hyperv_service \<Rightarrow> 'w core \<Rightarrow> hyperv_service \<times> 'w core"
where
  "cleanupService_win H v s =
     (let s = cleanupService H s; (v, w) = start_hyperv_thread H v (os s) in (v, s\<lparr>os := w\<rparr>))"

text \<open>
  Unlike the flag of the other thread this one is set only when there is a thread, and a failed
  creation is tried again with the next update.
\<close>

lemma hyperv_flag_has_thread:
  assumes "hyperv_status v \<noteq> 0 \<longrightarrow> 0 < hyperv_threads v" "cleanupService_win H v s = (v', s')"
  shows "(hyperv_status v' \<noteq> 0 \<longrightarrow> 0 < hyperv_threads v') \<and> proc_table s' = proc_table s"
  using assms
  by (auto simp: cleanupService_win_def start_hyperv_thread_def cleanupService_def Let_def
      split: if_splits prod.splits)

end
