(* ===== verification/Windows_Start.thy ===== *)
theory Windows_Start
  imports Windows_Build Start_App_Spec
begin

text \<open>
  \<open>tcServiceInterface::StartApp\<close> in the Windows build (\<open>vrtmcore/modtcService.cpp\<close>), with the
  functions of the Windows library: \<open>strcpy_s\<close> and \<open>sprintf_s\<close>, which \<open>util/vrtmCommon.h\<close> puts in
  the place of \<open>snprintf\<close>, end the process when the text does not fit.  What is the same in
  both builds is taken from \<open>Start_App\<close>.
\<close>

section \<open>Texts that may not fit\<close>

definition win_bind :: "'a win_end \<Rightarrow> ('a \<Rightarrow> 'b win_end) \<Rightarrow> 'b win_end" where
  "win_bind m f = (case m of Win_done x \<Rightarrow> f x | Win_terminates \<Rightarrow> Win_terminates | Win_undefined \<Rightarrow> Win_undefined)"

text \<open>\<open>strcpy_s\<close> and \<open>sprintf_s\<close> with a buffer of \<open>n\<close> characters.\<close>

definition win_text :: "nat \<Rightarrow> cstr \<Rightarrow> cstr win_end" where
  "win_text n s = (if length s < n then Win_done s else Win_terminates)"

lemma win_bind_simps [simp]:
  "win_bind (Win_done x) f = f x" "win_bind Win_terminates f = Win_terminates"
  "win_bind Win_undefined f = Win_undefined"
  by (simp_all add: win_bind_def)

lemma win_bind_done: "win_bind m f = Win_done y \<longleftrightarrow> (\<exists>x. m = Win_done x \<and> f x = Win_done y)"
  by (cases m) simp_all

lemma win_bindE:
  assumes "win_bind m f = Win_done y"
  obtains x where "m = Win_done x" "f x = Win_done y"
  using assms by (auto simp: win_bind_done)

lemma win_text_done [simp]: "win_text n s = Win_done t \<longleftrightarrow> length s < n \<and> t = s"
  by (auto simp: win_text_def)

section \<open>Arguments\<close>

definition take_value_win ::
  "cstr \<Rightarrow> (cstr \<Rightarrow> app_args \<Rightarrow> app_args win_end) \<Rightarrow> cstr list \<Rightarrow> nat \<times> app_args \<Rightarrow> (nat \<times> app_args) win_end"
where
  "take_value_win flag set_arg av p =
     (case p of (i, a) \<Rightarrow>
        if av ! i = flag
        then (if Suc i < length av
              then win_bind (set_arg (av ! Suc i) a) (\<lambda>a. Win_done (Suc i, a))
              else Win_undefined)
        else Win_done (i, a))"

definition copied :: "nat \<Rightarrow> (cstr \<Rightarrow> app_args \<Rightarrow> app_args) \<Rightarrow> cstr \<Rightarrow> app_args \<Rightarrow> app_args win_end" where
  "copied n set_arg v a = win_bind (win_text n v) (\<lambda>t. Win_done (set_arg t a))"

definition parse_step_win :: "cstr list \<Rightarrow> nat \<times> app_args \<Rightarrow> (nat \<times> app_args) win_end" where
  "parse_step_win av p0 =
     win_bind (take_value_win ''-kernel'' (copied 1024 (\<lambda>v a. a\<lparr>a_kernel := v\<rparr>)) av p0) (\<lambda>p1.
     win_bind (take_value_win ''-ramdisk'' (copied 1024 (\<lambda>v a. a\<lparr>a_ramdisk := v\<rparr>)) av p1) (\<lambda>p2.
     win_bind (take_value_win ''-config'' (\<lambda>v a. Win_done (a\<lparr>a_config := Some v\<rparr>)) av p2) (\<lambda>p3.
     win_bind (take_value_win ''-uuid'' (copied UUID_SIZE (\<lambda>v a. a\<lparr>a_uuid := v\<rparr>)) av p3) (\<lambda>p4.
     win_bind (take_value_win ''-disk'' (copied 1024 (\<lambda>v a. a\<lparr>a_disk := v\<rparr>)) av p4) (\<lambda>p5.
     let p6 = (if av ! fst p5 = ''-docker_instance''
               then (fst p5, (snd p5)\<lparr>a_type := INSTANCE_TYPE_DOCKER\<rparr>) else p5) in
     win_bind (take_value_win ''-mount_path'' (copied 128 (\<lambda>v a. a\<lparr>a_mount := v\<rparr>)) av p6) (\<lambda>p7.
     take_value_win ''-name'' (copied INSTANCENAME_SIZE (\<lambda>v a. a\<lparr>a_name := v\<rparr>)) av p7))))))"

text \<open>What fits is taken as in the other build.\<close>

lemma take_value_win_linux:
  assumes "take_value_win flag f av p = Win_done q" "\<And>v a b. f v a = Win_done b \<Longrightarrow> b = g v a"
  shows "take_value flag g av p = Some q"
  using assms by (auto simp: take_value_win_def take_value_def win_bind_done split: if_splits prod.splits)

lemma copied_linux: "copied n f v a = Win_done b \<Longrightarrow> b = f (strcpy_s n v) a"
  by (auto simp: copied_def win_bind_done)

lemma parse_step_win_linux:
  assumes "parse_step_win av p = Win_done q"
  shows "parse_step av p = Some q"
proof -
  have c: "take_value_win flag (copied n f) av p = Win_done q \<Longrightarrow>
      take_value flag (\<lambda>v. f (strcpy_s n v)) av p = Some q" for flag n f p q
    by (erule take_value_win_linux) (rule copied_linux)
  have d: "take_value_win flag (\<lambda>v a. Win_done (f v a)) av p = Win_done q \<Longrightarrow>
      take_value flag f av p = Some q" for flag f p q
    by (erule take_value_win_linux) simp
  from assms show ?thesis
    unfolding parse_step_win_def win_bind_done Let_def parse_step_def bind_eq_Some_conv
    by (fast dest: c d)
qed

function parse_args_win :: "cstr list \<Rightarrow> nat \<Rightarrow> app_args \<Rightarrow> app_args win_end" where
  "parse_args_win av i a =
     (if i < length av
      then (case parse_step_win av (i, a) of
              Win_done (j, a') \<Rightarrow> parse_args_win av (Suc j) a'
            | Win_terminates \<Rightarrow> Win_terminates
            | Win_undefined \<Rightarrow> Win_undefined)
      else Win_done a)"
  by auto
termination
  by (relation "measure (\<lambda>(av, i, a). length av - i)") (auto dest!: parse_step_win_linux parse_step_le)

declare parse_args_win.simps [simp del]

lemma parse_args_win_linux: "parse_args_win av i a = Win_done b \<Longrightarrow> parse_args av i a = Some b"
proof (induction av i a rule: parse_args_win.induct)
  case (1 av i a)
  show ?case
  proof (cases "i < length av")
    case True
    with "1.prems" obtain j c where s: "parse_step_win av (i, a) = Win_done (j, c)"
      "parse_args_win av (Suc j) c = Win_done b"
      by (auto simp: parse_args_win.simps [of av i a] split: win_end.splits)
    with "1.IH" [OF True s(1) refl] parse_step_win_linux [OF s(1)] True show ?thesis
      by (simp add: parse_args.simps [of av i a])
  next
    case False
    with "1.prems" show ?thesis
      by (simp add: parse_args_done parse_args_win.simps [of av i a])
  qed
qed

section \<open>The policy\<close>

text \<open>
  The first node of an expression is copied into a buffer of 512 characters
  (\<open>list_elements_from_object\<close> of \<open>xpathparser.cpp\<close>), once the expression has at most one.
\<close>

fun node_fits :: "xpath_node \<Rightarrow> bool" where
  "node_fits (ElementNode c) \<longleftrightarrow> length c < LARGE_CHAR_ARR_SIZE"
| "node_fits (AttributeNode c) \<longleftrightarrow> length c < LARGE_CHAR_ARR_SIZE"
| "node_fits _ \<longleftrightarrow> True"

definition value_fits :: "xpath_lib \<Rightarrow> xnode \<Rightarrow> cstr \<Rightarrow> cstr \<Rightarrow> bool" where
  "value_fits XP doc nsList x =
     (case xp_eval XP doc (snd (register_namespaces XP nsList [])) x of
        Some (nd # _) \<Rightarrow> node_fits nd
      | _ \<Rightarrow> True)"

fun xpath_values_win ::
  "xpath_lib \<Rightarrow> xnode \<Rightarrow> cstr \<Rightarrow> (cstr \<times> cstr) list \<Rightarrow> (cstr \<times> cstr) list option win_end"
where
  "xpath_values_win XP doc ns [] = Win_done (Some [])"
| "xpath_values_win XP doc ns ((x, buf) # rest) =
     (let p_size = fst (parse_xpath XP doc (Some ns) x None)
      in if p_size < 0 then Win_done None
         else if 1 < p_size then Win_done None
         else if \<not> value_fits XP doc ns x then Win_terminates
         else case parse_xpath XP doc (Some ns) x (Some [buf]) of
                (n, bufs) \<Rightarrow>
                  if n < 0 then Win_done None
                  else win_bind (xpath_values_win XP doc ns rest)
                         (\<lambda>vs. Win_done (map_option ((#) (x, hd (the bufs))) vs)))"

definition get_xpath_values_win ::
  "xpath_lib \<Rightarrow> 'w host \<Rightarrow> (cstr \<times> cstr) list \<Rightarrow> cstr \<Rightarrow> cstr \<Rightarrow> 'w \<Rightarrow> (int + (cstr \<times> cstr) list) win_end"
where
  "get_xpath_values_win XP H xpath_map namespace_list xml_file w =
     (case setup_xpath_parser XP H xml_file w of
        (r, None) \<Rightarrow> Win_done (Inl TCSERVICE_RESULT_FAILED)
      | (r, Some doc) \<Rightarrow>
          if r < 0 then Win_done (Inl TCSERVICE_RESULT_FAILED)
          else win_bind (xpath_values_win XP doc namespace_list xpath_map) (\<lambda>vs.
                 Win_done (case vs of None \<Rightarrow> Inl TCSERVICE_RESULT_FAILED | Some values \<Rightarrow> Inr values)))"

lemma xpath_values_win_linux: "xpath_values_win XP doc ns l = Win_done r \<Longrightarrow> xpath_values XP doc ns l = r"
  by (induction XP doc ns l arbitrary: r rule: xpath_values_win.induct)
    (auto simp: Let_def win_bind_done split: if_splits prod.splits)

lemma get_xpath_values_win_linux:
  "get_xpath_values_win XP H l ns f w = Win_done r \<Longrightarrow> get_xpath_values XP H l ns f w = r"
  by (auto simp: get_xpath_values_win_def get_xpath_values_def win_bind_done
      dest!: xpath_values_win_linux split: option.splits prod.splits if_splits)

text \<open>
  The reports: no permissions are set, and the directories are made and copied by functions of
  the system.  \<open>strnlen_s(disk) - 5\<close> is a count beyond the text when the path is shorter than
  that; the whole path is copied then.
\<close>

definition prepare_reports_win :: "'w host \<Rightarrow> 'w winapi \<Rightarrow> app_args \<Rightarrow> cstr \<Rightarrow> 'w \<Rightarrow> 'w win_end" where
  "prepare_reports_win H W a dir w =
     (if a_type a = INSTANCE_TYPE_VM \<and> h_stat H dir w = StatFails
      then let (_, w) = make_dir_win W dir w;
               n = length (a_disk a);
               trust_report_dir = (if n < 5 then a_disk a else take (n - 5) (a_disk a))
           in win_bind (win_text 1024 (trust_report_dir @ ''/trustpolicy.xml'')) (\<lambda>manifest_file.
              win_bind (win_text 1024 (trust_report_dir @ ''/manifest.xml'')) (\<lambda>nohash_manifest_file.
              win_bind (win_text 1024 (dir @ ''/trustpolicy.xml'')) (\<lambda>file_to_copy.
              let (_, w) = copy_file_win W manifest_file file_to_copy w
              in win_bind (win_text 1024 (dir @ ''/manifest.xml'')) (\<lambda>file_to_copy.
                 Win_done (snd (copy_file_win W nohash_manifest_file file_to_copy w))))))
      else Win_done w)"

text \<open>\<open>PathFileExists\<close> is \<open>h_access\<close>.\<close>

definition read_policy_win ::
  "'w host \<Rightarrow> 'w winapi \<Rightarrow> xpath_lib \<Rightarrow> app_args \<Rightarrow> cstr \<Rightarrow> 'w \<Rightarrow> (app_run phase \<times> 'w) win_end"
where
  "read_policy_win H W XP a dir w =
     win_bind (win_text 1024 (dir @ ''/trustpolicy.xml'')) (\<lambda>manifest_file.
     win_bind (win_text 1024 (dir @ ''/manifest.xml'')) (\<lambda>nohash_manifest_file.
     if \<not> h_access H manifest_file w then Win_done (Leave True False, w)
     else if \<not> h_access H nohash_manifest_file w then Win_done (Leave True False, w)
     else win_bind (get_xpath_values_win XP H policy_xpaths [] manifest_file w) (\<lambda>vals.
       case vals of
         Inl _ \<Rightarrow> Win_done (Leave True False, w)
       | Inr vals \<Rightarrow>
           win_bind (get_xpath_values_win XP H [(xpath_digest_alg, [])] [] nohash_manifest_file w) (\<lambda>digest.
           case digest of
             Inl _ \<Rightarrow> Win_done (Leave True False, w)
           | Inr digest \<Rightarrow>
               (let launchPolicy = launch_policy_of (value_of vals xpath_policy)
                in if launchPolicy \<noteq> ''Audit'' \<and> launchPolicy \<noteq> ''Enforce''
                   then win_bind (remove_dir_win W dir w) (\<lambda>x. Win_done (Leave False False, snd x))
                   else win_bind (win_text 65 (value_of vals xpath_image_hash)) (\<lambda>golden.
                        win_bind (win_text 10 (value_of digest xpath_digest_alg)) (\<lambda>digestAlg.
                        win_bind (win_text 1024 (dir @ ''/measurement.'' @ digestAlg)) (\<lambda>hash_file.
                        Win_done (Continue \<lparr>r_args = a, r_dir = dir,
                           r_manifest = manifest_file, r_nohash = nohash_manifest_file,
                           r_policy = launchPolicy, r_golden = golden,
                           r_customer = value_of vals xpath_customer_id,
                           r_image = value_of vals xpath_image_id,
                           r_signature = value_of vals xpath_image_signature,
                           r_hash_file = hash_file\<rparr>, w)))))))))"

lemma read_policy_win_linux:
  assumes "read_policy_win H W XP a d w = Win_done (Continue r, w')"
  shows "read_policy H XP a d w = (Continue r, w)" "w' = w"
  using assms
  by (auto simp: read_policy_win_def read_policy_def Let_def
      elim!: win_bindE dest!: get_xpath_values_win_linux split: if_splits sum.splits)

section \<open>The measurement\<close>

text \<open>Mount the disk under a free drive letter, measure, unmount; a container has no mount.\<close>

definition power_shell :: cstr where
  "power_shell = ''powershell -noprofile -executionpolicy bypass -file ''"

definition win_log :: "cstr \<Rightarrow> int \<Rightarrow> cstr" where
  "win_log dir child = dir @ ma_log @ ''-'' @ show_int child @ '' 2>&1''"

definition measure_vm_win ::
  "'w winapi \<Rightarrow> globals \<Rightarrow> app_run \<Rightarrow> int \<Rightarrow> 'w \<Rightarrow> (unit phase \<times> 'w) win_end"
where
  "measure_vm_win W G r child w =
     win_bind (win_text 128 (g_vrtm_root G @ ''/scripts/Mount-EXTVM.ps1'')) (\<lambda>mount_script.
     case pick_drive W 0 w of
       None \<Rightarrow> Win_undefined
     | Some (None, w) \<Rightarrow> Win_done (Leave True False, w)
     | Some (Some letter, w) \<Rightarrow>
         win_bind (win_text 128 [letter, CHR '':'']) (\<lambda>mount_path.
         win_bind (win_text 2304 (power_shell @ mount_script @ '' -Path '' @ a_disk (r_args r) @
             '' -DriveLetter '' @ mount_path @ '' -Mount > '' @ win_log (r_dir r) child)) (\<lambda>command.
         let (i, w) = win_system W command w
         in if i \<noteq> 0 then Win_done (Leave True True, w)
            else win_bind (win_text 2304 (''verifier.exe '' @ r_nohash r @ '' '' @ mount_path @
                '' IMVM >> '' @ log_redirect (r_dir r) child)) (\<lambda>command.
              let (verifier_exit_status, w) = win_system W command w
              in win_bind (win_text 2304 (power_shell @ mount_script @ '' -Path '' @ a_disk (r_args r) @
                     '' -DriveLetter '' @ mount_path @ '' -Umount >> '' @ win_log (r_dir r) child)) (\<lambda>command.
                 let (i, w) = win_system W command w
                 in if i \<noteq> 0 then Win_done (Leave True True, w)
                    else if verifier_exit_status \<noteq> 0 then Win_done (Leave True True, w)
                    else Win_done (Continue (), w))))))"

definition measure_docker_win ::
  "'w winapi \<Rightarrow> app_run \<Rightarrow> int \<Rightarrow> 'w \<Rightarrow> (unit phase \<times> 'w) win_end"
where
  "measure_docker_win W r child w =
     win_bind (win_text 2304 (''./verifier '' @ r_nohash r @ '' '' @ a_mount (r_args r) @
         ''/ IMVM >> '' @ log_redirect (r_dir r) child)) (\<lambda>command.
     let (i, w) = win_system W command w
     in Win_done (if i \<noteq> 0 then Leave True True else Continue (), w))"

section \<open>The entry\<close>

text \<open>
  What \<open>updateprocEntry\<close> copies into the arrays of an entry, when there is one, and the thread
  that \<open>cleanupService\<close> starts beside the one of the other build.
\<close>

definition meta_fits :: "vm_meta \<Rightarrow> cstr option \<Rightarrow> bool" where
  "meta_fits d nm \<longleftrightarrow>
     length (vm_image_id d) < IMAGE_ID_SIZE \<and> length (vm_customer_id d) < CUSTOMER_ID_SIZE \<and>
     length (vm_manifest_signature d) < MANIFEST_SIGNATURE_SIZE \<and>
     length (vm_manifest_hash d) < MANIFEST_HASH_SIZE \<and>
     length (vm_manifest_dir d) < MANIFEST_DIR_SIZE \<and> length (launch_policy d) < LAUNCH_POLICY_SIZE \<and>
     (case nm of None \<Rightarrow> True | Some n \<Rightarrow> length n < INSTANCENAME_SIZE)"

definition updateprocEntry_win ::
  "'w host \<Rightarrow> int \<Rightarrow> vm_meta \<Rightarrow> cstr option \<Rightarrow> hyperv_service \<Rightarrow> 'w core
     \<Rightarrow> (bool \<times> hyperv_service \<times> 'w core) win_end"
where
  "updateprocEntry_win H procid d instance_name v s =
     (case updateprocEntry H Windows procid d instance_name s of
        (False, s') \<Rightarrow> Win_done (False, v, s')
      | (True, s') \<Rightarrow>
          if \<not> meta_fits d instance_name then Win_terminates
          else let (v', w) = start_hyperv_thread H v (os s') in Win_done (True, v', s'\<lparr>os := w\<rparr>))"

definition register_instance_win ::
  "'w host \<Rightarrow> app_run \<Rightarrow> int \<Rightarrow> cstr \<Rightarrow> bool \<Rightarrow> hyperv_service \<Rightarrow> 'w core
     \<Rightarrow> (int phase \<times> hyperv_service \<times> 'w core) win_end"
where
  "register_instance_win H r procid imageHash verification v s =
     win_bind (win_text MANIFEST_HASH_SIZE imageHash) (\<lambda>hash.
     let a = r_args r;
         temp_proc_id = getprocIdfromuuid (a_uuid a) (proc_table s);
         (added, s1) = (if temp_proc_id = 0
            then addprocEntry H Windows procid (a_kernel a) (a_uuid a) 32 (replicate 32 0) (a_type a) s
            else (True, s));
         child = (if temp_proc_id = 0 then procid else temp_proc_id);
         d = \<lparr>vm_image_id = r_image r, vm_customer_id = r_customer r, vm_manifest_hash = hash,
              vm_manifest_signature = r_signature r, launch_policy = r_policy r,
              verification_status = verification, vm_manifest_dir = r_dir r\<rparr>
     in if \<not> added then Win_done (Leave True True, v, s1)
        else win_bind
               (if a_type a = INSTANCE_TYPE_VM then updateprocEntry_win H child d None v s1
                else if a_type a = INSTANCE_TYPE_DOCKER
                then updateprocEntry_win H child d (Some (a_name a)) v s1
                else Win_done (False, v, s1))
               (\<lambda>(update_stat, v, s2).
                  Win_done (if \<not> update_stat then Leave True True else Continue child, v, s2)))"

section \<open>\<open>StartApp\<close>\<close>

definition fail_response_win ::
  "'w winapi \<Rightarrow> bool \<Rightarrow> cstr \<Rightarrow> hyperv_service \<Rightarrow> 'w core
     \<Rightarrow> ((int \<times> int option) \<times> hyperv_service \<times> 'w core) win_end"
where
  "fail_response_win W keep dir v s =
     (let answer = (TCSERVICE_RESULT_FAILED, Some (- 1))
      in if keep then Win_done (answer, v, s)
         else win_bind (remove_dir_win W dir (os s)) (\<lambda>x. Win_done (answer, v, s\<lparr>os := snd x\<rparr>)))"

definition measure_and_register_win ::
  "'w host \<Rightarrow> 'w winapi \<Rightarrow> globals \<Rightarrow> app_run \<Rightarrow> int \<Rightarrow> hyperv_service \<Rightarrow> 'w core
     \<Rightarrow> ((int \<times> int option) \<times> hyperv_service \<times> 'w core) win_end"
where
  "measure_and_register_win H W G r procid v s =
     win_bind (if a_type (r_args r) = INSTANCE_TYPE_VM then measure_vm_win W G r procid (os s)
               else if a_type (r_args r) = INSTANCE_TYPE_DOCKER then measure_docker_win W r procid (os s)
               else Win_done (Continue (), os s))
     (\<lambda>m. case m of
        (Leave _ keep, w) \<Rightarrow> fail_response_win W keep (r_dir r) v (s\<lparr>os := w\<rparr>)
      | (Continue _, w) \<Rightarrow>
          (case read_measurement H r w of
             (Leave _ keep, w) \<Rightarrow> fail_response_win W keep (r_dir r) v (s\<lparr>os := w\<rparr>)
           | (Continue imageHash, w) \<Rightarrow>
               (let verification = verify_hash r imageHash
                in win_bind (register_instance_win H r procid imageHash verification v (s\<lparr>os := w\<rparr>))
                   (\<lambda>x. case x of
                      (Leave _ keep, v, s') \<Rightarrow> fail_response_win W keep (r_dir r) v s'
                    | (Continue child, v, s') \<Rightarrow>
                        Win_done (ok_response verification (r_policy r) child, v, s')))))"

definition StartApp_win ::
  "'w host \<Rightarrow> 'w winapi \<Rightarrow> xpath_lib \<Rightarrow> globals \<Rightarrow> int \<Rightarrow> cstr list \<Rightarrow> hyperv_service \<Rightarrow> 'w core
     \<Rightarrow> ((int \<times> int option) \<times> hyperv_service \<times> 'w core) win_end"
where
  "StartApp_win H W XP G procid av v s =
     (if 30 < length av then Win_done ((TCSERVICE_RESULT_FAILED, None), v, s)
      else win_bind (parse_args_win av 0 no_args) (\<lambda>a.
        if \<not> args_ok a then Win_done ((TCSERVICE_RESULT_FAILED, None), v, s)
        else win_bind (win_text 1024 (g_trust_report_dir G @ a_uuid a @ ''/'')) (\<lambda>dir.
          win_bind (prepare_reports_win H W a dir (os s)) (\<lambda>w.
          win_bind (read_policy_win H W XP a dir w) (\<lambda>p.
          case p of
            (Leave True keep, w) \<Rightarrow> fail_response_win W keep dir v (s\<lparr>os := w\<rparr>)
          | (Leave False keep, w) \<Rightarrow> Win_done (ok_response False [] procid, v, s\<lparr>os := w\<rparr>)
          | (Continue r, w) \<Rightarrow> measure_and_register_win H W G r procid v (s\<lparr>os := w\<rparr>))))))"

section \<open>What a start decides\<close>

definition policy_found_win ::
  "'w host \<Rightarrow> 'w winapi \<Rightarrow> xpath_lib \<Rightarrow> globals \<Rightarrow> cstr list \<Rightarrow> 'w core \<Rightarrow> app_run option"
where
  "policy_found_win H W XP G av s =
     (case parse_args_win av 0 no_args of
        Win_done a \<Rightarrow>
          (case prepare_reports_win H W a (reports_dir G a) (os s) of
             Win_done w \<Rightarrow>
               (case read_policy_win H W XP a (reports_dir G a) w of
                  Win_done (Continue r, w) \<Rightarrow> Some r
                | _ \<Rightarrow> None)
           | _ \<Rightarrow> None)
      | _ \<Rightarrow> None)"

lemma fail_response_win_done:
  "fail_response_win W keep d v s = Win_done ((c, out), v', s') \<Longrightarrow>
   c = TCSERVICE_RESULT_FAILED \<and> out = Some (- 1) \<and> proc_table s' = proc_table s"
  by (auto simp: fail_response_win_def Let_def elim!: win_bindE split: if_splits)

text \<open>The entry after the two table methods, when everything fits.\<close>

lemma updateprocEntry_win_done:
  assumes "updateprocEntry_win H k d nm v s = Win_done (ok, v', s')" "map_of (proc_table s) k = Some e"
  shows "ok" "meta_fits d nm"
    "map_of (proc_table s') k = Some (set_instance_name nm (set_launch_status Windows d (set_meta d e)))"
  using assms
  by (auto simp: updateprocEntry_win_def updateprocEntry_def Let_def map_of_modify split: if_splits prod.splits)

lemma register_win_decided:
  assumes ok: "map_ok (proc_table s)" and u: "args_wf (r_args r)"
    and run: "register_instance_win H r procid h ver v s = Win_done (ph, v', s')"
  shows "ph = Continue (run_child r procid s) \<and>
    (\<exists>e. map_of (proc_table s') (run_child r procid s) = Some e \<and> m_uuid e = recording_uuid r procid (proc_table s) \<and>
       m_vm_launch_policy e = r_policy r \<and> m_vm_verfication_status e = ver \<and> m_vm_manifest_hash e = h \<and>
       m_vm_status e = (if \<not> ver \<and> r_policy r = ''Enforce'' then VM_STATUS_CANCELLED else VM_STATUS_STARTED))"
proof -
  let ?u = "a_uuid (r_args r)" and ?k = "run_child r procid s" and ?t = "a_type (r_args r)"
  let ?d = "\<lparr>vm_image_id = r_image r, vm_customer_id = r_customer r, vm_manifest_hash = h,
     vm_manifest_signature = r_signature r, launch_policy = r_policy r,
     verification_status = ver, vm_manifest_dir = r_dir r\<rparr>"
  let ?nm = "if ?t = INSTANCE_TYPE_VM then None else Some (a_name (r_args r))"
  define s1 where "s1 = snd (if getprocIdfromuuid ?u (proc_table s) = 0
    then addprocEntry H Windows procid (a_kernel (r_args r)) ?u 32 (replicate 32 0) ?t s else (True, s))"
  obtain e where e: "map_of (proc_table s1) ?k = Some e" "m_uuid e = recording_uuid r procid (proc_table s)"
  proof (cases "getprocIdfromuuid ?u (proc_table s) = 0")
    case True
    then have "\<exists>e. map_of (proc_table s1) ?k = Some e \<and> m_uuid e = recording_uuid r procid (proc_table s)"
      using u ok
      by (cases "map_of (proc_table s) procid")
        (auto simp: s1_def run_child_def addprocEntry_def args_wf_def map_lookup_simps recording_uuid_def
          Let_def split: prod.splits)
    with that show thesis by blast
  next
    case False
    then show thesis
      using getprocIdfromuuid_lookup [OF ok refl False] that
      by (auto simp: s1_def run_child_def recording_uuid_def Let_def)
  qed
  have ty: "?t = INSTANCE_TYPE_VM \<or> ?t = INSTANCE_TYPE_DOCKER" using u by (simp add: args_wf_def)
  have h: "length h < MANIFEST_HASH_SIZE"
    using run by (auto simp: register_instance_win_def elim!: win_bindE)
  have added: "fst (if getprocIdfromuuid ?u (proc_table s) = 0
    then addprocEntry H Windows procid (a_kernel (r_args r)) ?u 32 (replicate 32 0) ?t s else (True, s))"
    by (simp add: addprocEntry_def Let_def split: prod.splits)
  obtain ok where up: "updateprocEntry_win H ?k ?d ?nm v s1 = Win_done (ok, v', s')"
    "ph = (if \<not> ok then Leave True True else Continue ?k)"
    using run ty added h
    by (auto simp: register_instance_win_def Let_def run_child_def s1_def win_text_def split_beta
        elim!: win_bindE split: if_splits)
  note d = updateprocEntry_win_done [OF up(1) e(1)]
  have "m_vm_status (set_launch_status Windows ?d x) =
      (if \<not> ver \<and> r_policy r = ''Enforce'' then VM_STATUS_CANCELLED else VM_STATUS_STARTED)" for x
    by (simp add: set_launch_status_def)
  with d e(2) up(2) h show ?thesis
    by (auto simp: meta_fits_def set_instance_name_def set_launch_status_def set_meta_def Let_def)
qed

lemma measure_win_decided:
  assumes ok: "map_ok (proc_table s)" and u: "args_wf (r_args r)"
    and run: "measure_and_register_win H W G r procid v s = Win_done ((c, out), v', s')"
  shows "c = TCSERVICE_RESULT_FAILED \<or>
    (\<exists>e h. map_of (proc_table s') (run_child r procid s) = Some e \<and> m_uuid e = recording_uuid r procid (proc_table s) \<and>
       m_vm_launch_policy e = r_policy r \<and> m_vm_manifest_hash e = h \<and>
       m_vm_verfication_status e = (h = r_golden r) \<and>
       m_vm_status e = (if h \<noteq> r_golden r \<and> r_policy r = ''Enforce'' then VM_STATUS_CANCELLED else VM_STATUS_STARTED) \<and>
       out = Some (if h \<noteq> r_golden r \<and> r_policy r = ''Enforce'' then - 1 else run_child r procid s))"
proof -
  obtain m w where m: "(if a_type (r_args r) = INSTANCE_TYPE_VM then measure_vm_win W G r procid (os s)
      else if a_type (r_args r) = INSTANCE_TYPE_DOCKER then measure_docker_win W r procid (os s)
      else Win_done (Continue (), os s)) = Win_done (m, w)"
    using run by (auto simp: measure_and_register_win_def elim!: win_bindE)
  show ?thesis
  proof (cases m)
    case (Leave f keep)
    with run m show ?thesis by (auto simp: measure_and_register_win_def dest!: fail_response_win_done)
  next
    case m': (Continue x)
    obtain q w2 where q: "read_measurement H r w = (q, w2)" by force
    show ?thesis
    proof (cases q)
      case (Leave f keep)
      with run m m' q show ?thesis by (auto simp: measure_and_register_win_def dest!: fail_response_win_done)
    next
      case (Continue h)
      have rest: "win_bind (register_instance_win H r procid h (verify_hash r h) v (s\<lparr>os := w2\<rparr>))
          (\<lambda>x. case x of
             (Leave _ keep, v, s') \<Rightarrow> fail_response_win W keep (r_dir r) v s'
           | (Continue child, v, s') \<Rightarrow>
               Win_done (ok_response (verify_hash r h) (r_policy r) child, v, s')) = Win_done ((c, out), v', s')"
        using run unfolding measure_and_register_win_def m
        by (simp only: m' win_bind_simps prod.case phase.case q Continue Let_def)
      obtain y where y: "register_instance_win H r procid h (verify_hash r h) v (s\<lparr>os := w2\<rparr>) = Win_done y"
          "(case y of
             (Leave _ keep, v, s') \<Rightarrow> fail_response_win W keep (r_dir r) v s'
           | (Continue child, v, s') \<Rightarrow>
               Win_done (ok_response (verify_hash r h) (r_policy r) child, v, s')) = Win_done ((c, out), v', s')"
        by (rule win_bindE [OF rest]) (rule that)
      obtain ph v1 s1 where t: "y = (ph, v1, s1)" by (cases y)
      note g = y(1) [unfolded t]
      from register_win_decided [OF _ u g] ok
      have d: "ph = Continue (run_child r procid s)" "\<exists>e. map_of (proc_table s1) (run_child r procid s) = Some e \<and>
         m_uuid e = recording_uuid r procid (proc_table s) \<and> m_vm_launch_policy e = r_policy r \<and>
         m_vm_verfication_status e = verify_hash r h \<and> m_vm_manifest_hash e = h \<and>
         m_vm_status e = (if \<not> verify_hash r h \<and> r_policy r = ''Enforce'' then VM_STATUS_CANCELLED else VM_STATUS_STARTED)"
        by (simp_all add: run_child_def)
      have "s' = s1" "out = Some (if \<not> verify_hash r h \<and> r_policy r = ''Enforce'' then - 1 else run_child r procid s)"
        using y(2) unfolding t d(1) by (auto simp: ok_response_def split: if_splits)
      moreover have "verify_hash r h \<longleftrightarrow> h = r_golden r" by (simp add: verify_hash_def eq_commute)
      moreover obtain e where "map_of (proc_table s1) (run_child r procid s) = Some e"
         "m_uuid e = recording_uuid r procid (proc_table s)" "m_vm_launch_policy e = r_policy r"
         "m_vm_verfication_status e = verify_hash r h" "m_vm_manifest_hash e = h"
         "m_vm_status e = (if \<not> verify_hash r h \<and> r_policy r = ''Enforce'' then VM_STATUS_CANCELLED else VM_STATUS_STARTED)"
        using d(2) by blast
      ultimately show ?thesis by (intro disjI2 exI [of _ e] exI [of _ h] conjI) simp_all
    qed
  qed
qed

lemma policy_found_win_run:
  assumes "policy_found_win H W XP G av s = Some r"
  shows "args_wf (r_args r)" "r_policy r = ''Audit'' \<or> r_policy r = ''Enforce''"
proof -
  obtain a w w' where a: "parse_args_win av 0 no_args = Win_done a"
    "read_policy_win H W XP a (reports_dir G a) w = Win_done (Continue r, w')"
    using assms by (auto simp: policy_found_win_def split: win_end.splits prod.splits phase.splits)
  show "args_wf (r_args r)" "r_policy r = ''Audit'' \<or> r_policy r = ''Enforce''"
    using read_policy_run [OF read_policy_win_linux(1) [OF a(2)]] parse_args_wf0 [OF parse_args_win_linux [OF a(1)]]
    by simp_all
qed

lemma StartApp_win_cases:
  assumes "StartApp_win H W XP G procid av v s = Win_done ((c, out), v', s')"
  obtains (failed) "c = TCSERVICE_RESULT_FAILED" "proc_table s' = proc_table s"
  | (unmeasured) "policy_found_win H W XP G av s = None" "c = TCSERVICE_RESULT_SUCCESS"
      "out = Some procid" "proc_table s' = proc_table s"
  | (measured) r w where "policy_found_win H W XP G av s = Some r"
      "measure_and_register_win H W G r procid v (s\<lparr>os := w\<rparr>) = Win_done ((c, out), v', s')"
proof (cases "30 < length av")
  case True
  with assms failed show thesis by (simp add: StartApp_win_def)
next
  case False
  with assms obtain a where a: "parse_args_win av 0 no_args = Win_done a"
    by (auto simp: StartApp_win_def elim!: win_bindE)
  show thesis
  proof (cases "args_ok a")
    case False
    with assms a \<open>\<not> 30 < length av\<close> failed show thesis by (simp add: StartApp_win_def)
  next
    case True
    let ?d = "reports_dir G a"
    have len: "length (g_trust_report_dir G @ a_uuid a @ ''/'') < 1024"
      using assms a True \<open>\<not> 30 < length av\<close> by (auto simp: StartApp_win_def elim!: win_bindE)
    then have d: "g_trust_report_dir G @ a_uuid a @ ''/'' = ?d" by (simp add: reports_dir_def)
    obtain w where w: "prepare_reports_win H W a ?d (os s) = Win_done w"
      and r0: "win_bind (read_policy_win H W XP a ?d w) (\<lambda>p. case p of
            (Leave True keep, w) \<Rightarrow> fail_response_win W keep ?d v (s\<lparr>os := w\<rparr>)
          | (Leave False keep, w) \<Rightarrow> Win_done (ok_response False [] procid, v, s\<lparr>os := w\<rparr>)
          | (Continue r, w) \<Rightarrow> measure_and_register_win H W G r procid v (s\<lparr>os := w\<rparr>)) = Win_done ((c, out), v', s')"
      using assms len True \<open>\<not> 30 < length av\<close> unfolding StartApp_win_def a win_bind_simps d
      by (simp only: win_text_def d len if_True if_False win_bind_simps not_True_eq_False)
        (erule win_bindE, rule that)
    obtain p where p: "read_policy_win H W XP a ?d w = Win_done p"
      and r: "(case p of
            (Leave True keep, w) \<Rightarrow> fail_response_win W keep ?d v (s\<lparr>os := w\<rparr>)
          | (Leave False keep, w) \<Rightarrow> Win_done (ok_response False [] procid, v, s\<lparr>os := w\<rparr>)
          | (Continue r, w) \<Rightarrow> measure_and_register_win H W G r procid v (s\<lparr>os := w\<rparr>)) = Win_done ((c, out), v', s')"
      by (rule win_bindE [OF r0]) (rule that)
    obtain ph w' where ph: "p = (ph, w')" by force
    show thesis
    proof (cases ph)
      case (Leave f keep)
      with a w p r ph failed unmeasured show thesis
        by (auto simp: ok_response_def policy_found_win_def dest!: fail_response_win_done split: bool.splits)
    next
      case (Continue x)
      with a w p r ph measured show thesis by (simp add: policy_found_win_def)
    qed
  qed
qed


text \<open>A Windows whose calls all succeed, and an instance that was refused and is now accepted.\<close>

definition works_win :: "'w winapi" where
  "works_win =
     \<lparr>win_CreateDirectory = (\<lambda>_ w. (None, w)), win_CopyFile = (\<lambda>_ _ w. (None, w)),
      win_SHFileOperation = (\<lambda>_ w. (0, w)), win_drives = (\<lambda>_. (4, drive_strings ''C'')),
      win_sleep = (\<lambda>w. w), win_system = (\<lambda>_ w. (0, w))\<rparr>"

definition demo_start_win :: "ptab \<Rightarrow> string \<Rightarrow> string
     \<Rightarrow> ((int \<times> int option) \<times> hyperv_service \<times> ref_world core) win_end" where
  "demo_start_win t golden measured =
     StartApp_win ref_host works_win ref_xpath demo_globals 6 demo_args
       \<lparr>hyperv_status = 0, hyperv_threads = 0\<rparr> (demo_core ''MeasureAndEnforce'' golden measured t)"

definition win_answer :: "((int \<times> int option) \<times> hyperv_service \<times> 'w core) win_end
     \<Rightarrow> ((int \<times> int option) \<times> (int \<times> cstr \<times> int) list) option" where
  "win_answer x = (case x of
     Win_done (a, v, s) \<Rightarrow> Some (a, map (\<lambda>(k, e). (k, m_uuid e, m_vm_status e)) (proc_table s))
   | _ \<Rightarrow> None)"

lemma demo_relaunch_win:
  "win_answer (demo_start_win cancelled_table ''ab12'' ''ab12'') =
     Some ((TCSERVICE_RESULT_SUCCESS, Some 5), [(5, ''u1'', VM_STATUS_STARTED)])"
  by code_simp

lemma demo_found_win:
  "policy_found_win ref_host works_win ref_xpath demo_globals demo_args
     (demo_core ''MeasureAndEnforce'' ''ab12'' ''ab12'' cancelled_table) = Some demo_run"
  by code_simp


section \<open>Texts that do not fit\<close>

lemma parse_step_win_flags:
  assumes "\<not> is_flag (av ! Suc i)" "Suc i < length av"
  shows "av ! i = ''-kernel'' \<Longrightarrow> parse_step_win av (i, a) =
      win_bind (win_text 1024 (av ! Suc i)) (\<lambda>t. Win_done (Suc i, a\<lparr>a_kernel := t\<rparr>))"
    and "av ! i = ''-ramdisk'' \<Longrightarrow> parse_step_win av (i, a) =
      win_bind (win_text 1024 (av ! Suc i)) (\<lambda>t. Win_done (Suc i, a\<lparr>a_ramdisk := t\<rparr>))"
    and "av ! i = ''-uuid'' \<Longrightarrow> parse_step_win av (i, a) =
      win_bind (win_text UUID_SIZE (av ! Suc i)) (\<lambda>t. Win_done (Suc i, a\<lparr>a_uuid := t\<rparr>))"
    and "av ! i = ''-disk'' \<Longrightarrow> parse_step_win av (i, a) =
      win_bind (win_text 1024 (av ! Suc i)) (\<lambda>t. Win_done (Suc i, a\<lparr>a_disk := t\<rparr>))"
  using assms
  by (simp_all add: parse_step_win_def take_value_win_def copied_def is_flag_def win_text_def Let_def)

lemma parse_args_win_step:
  "i < length av \<Longrightarrow> parse_step_win av (i, a) = win_bind (win_text n x) (\<lambda>t. Win_done (Suc i, f t)) \<Longrightarrow>
   parse_args_win av i a = (if length x < n then parse_args_win av (Suc (Suc i)) (f x) else Win_terminates)"
  by (simp add: parse_args_win.simps [of av i a] win_text_def)

lemma parse_win_overlong:
  assumes "\<not> is_flag k" "\<not> is_flag r" "\<not> is_flag d" "\<not> is_flag u"
    and "1024 \<le> length k \<or> 1024 \<le> length r \<or> 1024 \<le> length d \<or> UUID_SIZE \<le> length u"
  shows "parse_args_win (proxy_args k r d u) 0 no_args = Win_terminates"
proof -
  let ?av = "proxy_args k r d u"
  have n: "?av ! 0 = ''-kernel''" "?av ! Suc 0 = k" "?av ! 2 = ''-ramdisk''" "?av ! Suc 2 = r"
    "?av ! 4 = ''-disk''" "?av ! Suc 4 = d" "?av ! 6 = ''-uuid''" "?av ! Suc 6 = u" "length ?av = 10"
    by (simp_all add: proxy_args_def)
  note f = parse_step_win_flags [of ?av]
  have "parse_args_win ?av 0 a = (if length k < 1024 then parse_args_win ?av 2 (a\<lparr>a_kernel := k\<rparr>) else Win_terminates)" for a
    using parse_args_win_step [OF _ f(1) [of 0]] n assms(1) by (simp add: numeral_2_eq_2)
  moreover have "parse_args_win ?av 2 a = (if length r < 1024 then parse_args_win ?av 4 (a\<lparr>a_ramdisk := r\<rparr>) else Win_terminates)" for a
    using parse_args_win_step [OF _ f(2) [of 2]] n assms(2) by simp
  moreover have "parse_args_win ?av 4 a = (if length d < 1024 then parse_args_win ?av 6 (a\<lparr>a_disk := d\<rparr>) else Win_terminates)" for a
    using parse_args_win_step [OF _ f(4) [of 4]] n assms(3) by simp
  moreover have "parse_args_win ?av 6 a = (if length u < UUID_SIZE then parse_args_win ?av 8 (a\<lparr>a_uuid := u\<rparr>) else Win_terminates)" for a
    using parse_args_win_step [OF _ f(3) [of 6]] n assms(4) by simp
  ultimately show ?thesis using assms(5) by auto
qed

text \<open>
  C34: the UUID and the paths of a launch request are the client's.  In the Windows build a path
  of 1024 characters or a UUID of 65 ends the core, with everything in its table, before it has
  looked at the instance; the Linux build takes each of them as it is or, when it is that long,
  as the empty string, and for a UUID answers that the start has failed.  None of the four is
  spelled like a flag.
\<close>

theorem overlong_launch_ends_core:
  assumes "\<not> is_flag k" "\<not> is_flag r" "\<not> is_flag d" "\<not> is_flag u"
    and "1024 \<le> length k \<or> 1024 \<le> length r \<or> 1024 \<le> length d \<or> UUID_SIZE \<le> length u"
  shows "StartApp_win H W XP G procid (proxy_args k r d u) v s = Win_terminates \<and>
    (\<exists>a. parse_args (proxy_args k r d u) 0 no_args = Some a \<and>
       a_kernel a = (if length k < 1024 then k else []) \<and> a_ramdisk a = (if length r < 1024 then r else []) \<and>
       a_disk a = (if length d < 1024 then d else []) \<and> a_uuid a = (if length u < UUID_SIZE then u else [])) \<and>
    (UUID_SIZE \<le> length u \<longrightarrow>
       StartApp H XP G procid (proxy_args k r d u) s = Some ((TCSERVICE_RESULT_FAILED, None), s))"
proof (intro conjI)
  have "length (proxy_args k r d u) = 10" by (simp add: proxy_args_def)
  with parse_win_overlong [OF assms] show "StartApp_win H W XP G procid (proxy_args k r d u) v s = Win_terminates"
    by (simp add: StartApp_win_def)
  show "\<exists>a. parse_args (proxy_args k r d u) 0 no_args = Some a \<and>
       a_kernel a = (if length k < 1024 then k else []) \<and> a_ramdisk a = (if length r < 1024 then r else []) \<and>
       a_disk a = (if length d < 1024 then d else []) \<and> a_uuid a = (if length u < UUID_SIZE then u else [])"
    unfolding parse_proxy_args [OF assms(1-4)] by (intro exI conjI, rule refl) (simp_all add: strcpy_s_def)
  from \<open>length (proxy_args k r d u) = 10\<close>
  show "UUID_SIZE \<le> length u \<longrightarrow>
       StartApp H XP G procid (proxy_args k r d u) s = Some ((TCSERVICE_RESULT_FAILED, None), s)"
    by (simp add: parse_proxy_args [OF assms(1-4)] StartApp_def args_ok_def strcpy_s_def)
qed

theorem overlong_launch_ends_core_witness:
  "StartApp_win ref_host works_win ref_xpath demo_globals 6 (proxy_args [] [] ''/d/disk'' (replicate 65 (CHR ''a'')))
     \<lparr>hyperv_status = 0, hyperv_threads = 0\<rparr> demo_core0 = Win_terminates"
proof -
  have "\<not> is_flag (replicate 65 (CHR ''a''))" "\<not> is_flag []" "\<not> is_flag ''/d/disk''" by code_simp+
  from overlong_launch_ends_core [OF this(2,2,3,1), THEN conjunct1] show ?thesis by simp
qed

text \<open>
  So does a golden hash that does not fit, which the Linux build takes for the empty string
  (\<open>unusable_golden_hash\<close>): there is no such verification here.
\<close>

lemma overlong_golden_hash:
  assumes "read_policy_win H W XP a d w = Win_done (Continue r, w')"
    and "get_xpath_values XP H policy_xpaths [] (d @ ''/trustpolicy.xml'') w = Inr vals"
  shows "length (value_of vals xpath_image_hash) < 65 \<and> r_golden r = value_of vals xpath_image_hash"
  using assms
  by (auto simp: read_policy_win_def Let_def elim!: win_bindE dest!: get_xpath_values_win_linux
      split: if_splits sum.splits)

end
