(* ===== verification/Windows_Report.thy ===== *)
theory Windows_Report
  imports Windows_Start Saml_Props
begin

text \<open>
  The signed report in the Windows build (\<open>GenerateSAMLAndGetDir\<close> with its helpers in
  \<open>vrtmcore/modtcService.cpp\<close>): a running VM is looked up in Hyper-V first, hashes are made with
  CNG, the password of the signing key comes from the trust agent's properties, the certificate
  from \<open>CertUtil\<close>, and a text that does not fit ends the process.  What is the same in both
  builds is taken from \<open>Saml_Report\<close>.
\<close>

section \<open>Parameters\<close>

text \<open>
  What Hyper-V answers (\<open>None\<close> when the query fails), \<open>_popen\<close>, the CNG functions for an
  algorithm, and whether the buffer of \<open>calculateHash\<close> is allocated.
\<close>

record ('w, 'h) report_env =
  rp_rows :: "(cstr \<times> int) list option"
  rp_popen :: "cstr \<Rightarrow> 'w \<Rightarrow> bool \<times> 'w"
  rp_cng :: "cstr \<Rightarrow> 'h cng"
  rp_buffer :: bool

text \<open>Steps of the report that may end the process.\<close>

definition saml_win ::
  "('a saml \<times> 'w) win_end \<Rightarrow> ('a \<Rightarrow> 'w \<Rightarrow> ('b saml \<times> 'w) win_end) \<Rightarrow> ('b saml \<times> 'w) win_end"
where
  "saml_win m f = win_bind m (\<lambda>(x, w). case x of
       Saml_fail c \<Rightarrow> Win_done (Saml_fail c, w)
     | Saml_throw \<Rightarrow> Win_done (Saml_throw, w)
     | Saml_undef \<Rightarrow> Win_done (Saml_undef, w)
     | Saml_ok y \<Rightarrow> f y w)"

lemma saml_win_done [simp]:
  "saml_win (Win_done m) (\<lambda>x w. Win_done (f x w)) = Win_done (saml_bind m f)"
  by (simp add: saml_win_def saml_bind_def split: prod.splits saml.splits)

lemma saml_win_ok [simp]:
  "saml_win (Win_done (Saml_ok x, w)) f = f x w"
  by (simp add: saml_win_def)

lemma saml_winE:
  assumes "saml_win m f = Win_done (Saml_ok y, w')"
  obtains x w where "m = Win_done (Saml_ok x, w)" "f x w = Win_done (Saml_ok y, w')"
  using assms by (auto simp: saml_win_def elim!: win_bindE split: saml.splits)

section \<open>The entry and the configuration\<close>

definition find_report_entry_win ::
  "(cstr \<times> int) list option \<Rightarrow> cstr \<Rightarrow> ptab \<Rightarrow> serviceprocEnt saml"
where
  "find_report_entry_win rows vm_uuid t =
     (case find_report_entry vm_uuid t of
        Saml_ok e \<Rightarrow>
          if m_vm_status e = VM_STATUS_STARTED
          then (case get_hyperv_vms_status rows (map_insert (m_uuid e) VM_STATUS_STARTED []) of
                  (r, vm_in_ques) \<Rightarrow>
                    if r = 0 \<and> map_of vm_in_ques (m_uuid e) = Some VM_STATUS_STOPPED
                    then Saml_fail TCSERVICE_RESULT_FAILED else Saml_ok e)
          else Saml_ok e
      | x \<Rightarrow> x)"

definition config_path :: "(cstr, cstr) smap \<Rightarrow> cstr \<Rightarrow> 'w \<Rightarrow> (cstr saml \<times> 'w) win_end" where
  "config_path m key w =
     (let reqValue = map_get [] m key
      in if reqValue = [] then Win_done (Saml_fail EXIT_FAILURE, w)
         else win_bind (win_text 1048 reqValue) (\<lambda>v. Win_done (Saml_ok v, w)))"

text \<open>Lines 863 to 904; the second component is the file of the trust agent's properties.\<close>

definition read_signing_config_win :: "'w host \<Rightarrow> 'w \<Rightarrow> ((signing_config \<times> cstr) saml \<times> 'w) win_end" where
  "read_signing_config_win H w =
     (case load_config H ''../configuration/vRTM.cfg'' [] w of
        (Load_failed, w) \<Rightarrow> Win_done (Saml_fail EXIT_FAILURE, w)
      | (Load_throws, w) \<Rightarrow> Win_done (Saml_throw, w)
      | (Loaded m, w) \<Rightarrow>
          saml_win (config_path m ''signingkey_file'' w) (\<lambda>key_file w.
          saml_win (config_path m ''signingkey_blob'' w) (\<lambda>key_blob w.
          saml_win (config_path m ''tpm_version_file'' w) (\<lambda>version_file w.
          saml_win (config_path m ''tpm_signdata_cmd'' w) (\<lambda>sign_cmd w.
          saml_win (config_path m ''ta_properties_file'' w) (\<lambda>ta_properties_file w.
          Win_done (Saml_ok (\<lparr>sc_key_file = key_file, sc_key_blob = key_blob,
            sc_version_file = version_file, sc_sign_cmd = sign_cmd\<rparr>, ta_properties_file), w)))))))"

section \<open>Hashes and the head of the report\<close>

definition hash_win ::
  "'w host \<Rightarrow> ('w, 'h) report_env \<Rightarrow> cstr \<Rightarrow> cstr \<Rightarrow> 'w \<Rightarrow> ((int \<times> string) \<times> 'w) win_end"
where
  "hash_win H R xml_file hash_alg w =
     (case calculateHash_win H (rp_cng R hash_alg) (rp_buffer R) xml_file hash_alg {#} w of
        None \<Rightarrow> Win_undefined
      | Some (r, held, w) \<Rightarrow> Win_done (r, w))"

definition hash_of_file_win ::
  "'w host \<Rightarrow> ('w, 'h) report_env \<Rightarrow> 'h sign_lib \<Rightarrow> cstr \<Rightarrow> cstr \<Rightarrow> cstr \<Rightarrow> 'w
     \<Rightarrow> ((int \<times> string) saml \<times> 'w) win_end"
where
  "hash_of_file_win H R C tempfile outfile hash_alg w =
     (let (r, w) = canonicalizeXml H C tempfile outfile w
      in if r \<noteq> 0 then Win_done (Saml_fail TCSERVICE_RESULT_FAILED, w)
         else win_bind (hash_win H R outfile hash_alg w) (\<lambda>((n, hash), w).
           Win_done (if n = - 1 then Saml_fail TCSERVICE_RESULT_FAILED else Saml_ok (n, hash), w)))"

text \<open>
  Lines 930 to 991.  The directory's name has fewer than 1024 characters, so the names of its
  files fit their buffers of 1048; the two texts with the client's nonce may not.
\<close>

definition quote_head :: "cstr \<Rightarrow> cstr \<Rightarrow> cstr \<Rightarrow> cstr \<Rightarrow> string" where
  "quote_head nonce uuid hash_alg hash =
     vm_quote nonce uuid hash_alg hash @ ''<Signature'' @ attr ''xmlns'' dsig @ ''>'' @
     signed_info short_elem [] hash_alg"

definition write_report_head_win ::
  "'w host \<Rightarrow> ('w, 'h) report_env \<Rightarrow> 'h sign_lib \<Rightarrow> b64_lib \<Rightarrow> cstr \<Rightarrow> cstr \<Rightarrow> serviceprocEnt \<Rightarrow> cstr \<Rightarrow> 'w
     \<Rightarrow> (cstr saml \<times> 'w) win_end"
where
  "write_report_head_win H R C B dir nonce e hash_alg w =
     (let outfile = snprintf 1048 (dir @ ''temp.xml'');
          filepath = snprintf 1048 (dir @ ''signed_report.xml'');
          tempfile = snprintf 1048 (dir @ ''us_xml.xml'')
      in saml_win (Win_done (must_open H filepath ForWrite w)) (\<lambda>_ w.
         let w = h_fwrite H filepath xml_decl w
         in win_bind (win_text 8192 (quote_head nonce (m_uuid e) hash_alg (m_vm_manifest_hash e))) (\<lambda>xmlstr.
            let w = h_fwrite H filepath xmlstr w
            in win_bind (win_text 8192 (vm_quote nonce (m_uuid e) hash_alg (m_vm_manifest_hash e) @
                 ''</VMQuote>'')) (\<lambda>xmlstr.
               saml_win (Win_done (must_open H tempfile ForWrite w)) (\<lambda>_ w.
               let w = h_fwrite H tempfile xmlstr w
               in saml_win (hash_of_file_win H R C tempfile outfile hash_alg w) (\<lambda>(n, hash) w.
                  saml_win (Win_done (encode_line B hash (nat n), w)) (\<lambda>b64_str w.
                  let w = h_fwrite H filepath b64_str w;
                      w = h_fwrite H filepath digest_end w
                  in Win_done (Saml_ok b64_str, w))))))))"

section \<open>The signature\<close>

text \<open>Lines 1014 to 1023.\<close>

definition read_signkey_passwd_win :: "'w host \<Rightarrow> cstr \<Rightarrow> 'w \<Rightarrow> (cstr saml \<times> 'w) win_end" where
  "read_signkey_passwd_win H ta_properties_file w =
     (case load_config H ta_properties_file [] w of
        (Load_failed, w) \<Rightarrow> Win_done (Saml_fail EXIT_FAILURE, w)
      | (Load_throws, w) \<Rightarrow> Win_done (Saml_throw, w)
      | (Loaded m, w) \<Rightarrow>
          win_bind (win_text 100 (map_get [] m ''signing.key.secret'')) (\<lambda>v. Win_done (Saml_ok v, w)))"

definition sign_command :: "signing_config \<Rightarrow> cstr \<Rightarrow> cstr \<Rightarrow> cstr" where
  "sign_command sc dir passwd =
     [CHR 0x22] @ sc_sign_cmd sc @ [CHR 0x22] @ '' -i '' @ dir @ ''hash.input -k sign -o '' @ dir @
     ''hash.sig -q '' @ passwd @ '' -b '' @ sc_key_blob sc"

definition make_signature_win ::
  "'w host \<Rightarrow> 'w winapi \<Rightarrow> ('w, 'h) report_env \<Rightarrow> 'h sign_lib \<Rightarrow> b64_lib \<Rightarrow> signing_config \<Rightarrow> cstr
     \<Rightarrow> cstr \<Rightarrow> cstr \<Rightarrow> cstr \<Rightarrow> 'w \<Rightarrow> (cstr saml \<times> 'w) win_end"
where
  "make_signature_win H W R C B sc ta_properties_file dir hash_alg digest w =
     (let tempfile = snprintf 1048 (dir @ ''us_can.xml'')
      in saml_win (Win_done (must_open H tempfile ForWrite w)) (\<lambda>_ w.
         let w = h_fwrite H tempfile (signed_info long_elem (attr ''xmlns'' dsig) hash_alg) w;
             w = h_fwrite H tempfile digest w;
             w = h_fwrite H tempfile ''</DigestValue></Reference></SignedInfo>'' w
         in saml_win (read_signkey_passwd_win H ta_properties_file w) (\<lambda>passwd w.
            saml_win (hash_of_file_win H R C tempfile (snprintf 1048 (dir @ ''temp.xml'')) hash_alg w)
              (\<lambda>(n, hash) w.
            let inputfile = snprintf 1048 (dir @ ''hash.input'')
            in saml_win (Win_done (must_open H inputfile ForWrite w)) (\<lambda>_ w.
               let w = h_fwrite H inputfile (take (nat n) hash) w
               in win_bind (win_text 2304 (sign_command sc dir passwd)) (\<lambda>command0.
                  let (i, w) = win_system W command0 w
                  in if i \<noteq> 0 then Win_done (Saml_fail TCSERVICE_RESULT_FAILED, w)
                     else let sigfile = snprintf 1048 (dir @ ''hash.sig'')
                          in saml_win (Win_done (must_open H sigfile ForRead w)) (\<lambda>_ w.
                             let signature = take 256 (h_content H sigfile w)
                             in Win_done (encode_line B signature (length signature), w))))))))"

section \<open>The certificate\<close>

text \<open>\<open>strcat_s\<close> ends the process when the line does not fit any more.\<close>

function cert_lines_win :: "nat \<Rightarrow> cstr \<Rightarrow> string \<Rightarrow> cstr win_end" where
  "cert_lines_win sz cert content =
     (case fgets 4095 content of (line, rest, eof) \<Rightarrow>
        if eof then Win_done cert
        else let l = cstr_of line
             in if contains ''BEGIN'' l \<or> contains ''END'' l then cert_lines_win sz cert rest
                else if length cert + length l < sz then cert_lines_win sz (cert @ l) rest
                else Win_terminates)"
  by auto
termination
  by (relation "measure (\<lambda>(sz, cert, content). length content)")
    (auto dest: fgets_4095_progress simp del: fgets.simps)

declare cert_lines_win.simps [simp del]

definition certutil_command :: "cstr \<Rightarrow> cstr \<Rightarrow> cstr \<Rightarrow> cstr" where
  "certutil_command signingkey_file infile outfile =
     ''CertUtil -decode '' @ [CHR 0x22] @ signingkey_file @ [CHR 0x22] @ '' '' @ infile @
     '' && CertUtil -encode '' @ infile @ '' '' @ outfile"

definition appendCert_win ::
  "'w host \<Rightarrow> ('w, 'h) report_env \<Rightarrow> cstr \<Rightarrow> cstr \<Rightarrow> nat \<Rightarrow> cstr \<Rightarrow> 'w \<Rightarrow> ((int \<times> cstr) \<times> 'w) win_end"
where
  "appendCert_win H R certBuffer manifest_dir sz signingkey_file w =
     (let outfile = snprintf 1048 (manifest_dir @ ''temp.pem'');
          infile = snprintf 1048 (manifest_dir @ ''temp.der'')
      in win_bind (win_text 2304 (certutil_command signingkey_file infile outfile)) (\<lambda>command.
         case rp_popen R command w of
           (False, w) \<Rightarrow> Win_done ((- 1, certBuffer), w)
         | (True, w) \<Rightarrow>
             (case h_fopen H outfile ForRead w of
                (False, w) \<Rightarrow> Win_done ((- 1, certBuffer), w)
              | (True, w) \<Rightarrow>
                  win_bind (cert_lines_win sz certBuffer (h_content H outfile w)) (\<lambda>cert.
                  Win_done ((0, cert), w)))))"

definition finish_report_win ::
  "'w host \<Rightarrow> ('w, 'h) report_env \<Rightarrow> signing_config \<Rightarrow> cstr \<Rightarrow> cstr \<Rightarrow> 'w \<Rightarrow> (unit saml \<times> 'w) win_end"
where
  "finish_report_win H R sc dir signature w =
     (let filepath = snprintf 1048 (dir @ ''signed_report.xml'')
      in saml_win (Win_done (must_open H filepath ForAppend w)) (\<lambda>_ w.
         let w = h_fwrite H filepath signature w;
             w = h_fwrite H filepath signature_end w
         in win_bind (appendCert_win H R [] dir 2048 (sc_key_file sc) w) (\<lambda>((r, cert), w).
            if r \<noteq> 0 then Win_done (Saml_fail TCSERVICE_RESULT_FAILED, w)
            else let w = h_fwrite H filepath cert w;
                     w = h_fwrite H filepath report_end w
                 in Win_done (Saml_ok (), w))))"

section \<open>The report\<close>

definition GenerateSAMLAndGetDir_win ::
  "'w host \<Rightarrow> 'w winapi \<Rightarrow> ('w, 'h) report_env \<Rightarrow> 'h sign_lib \<Rightarrow> b64_lib \<Rightarrow> globals \<Rightarrow> ptab \<Rightarrow> cstr \<Rightarrow> cstr
     \<Rightarrow> 'w \<Rightarrow> (cstr saml \<times> 'w) win_end"
where
  "GenerateSAMLAndGetDir_win H W R C B G t vm_uuid nonce w =
     saml_win (Win_done (find_report_entry_win (rp_rows R) vm_uuid t, w)) (\<lambda>e w.
     saml_win (read_signing_config_win H w) (\<lambda>(sc, ta_properties_file) w.
     saml_win (Win_done (tpm_hash_alg H (sc_version_file sc) w)) (\<lambda>hash_alg w.
     win_bind (win_text MANIFEST_DIR_SIZE (g_trust_report_dir G @ m_uuid e @ ''/'')) (\<lambda>dir.
     saml_win (write_report_head_win H R C B dir nonce e hash_alg w) (\<lambda>digest w.
     saml_win (make_signature_win H W R C B sc ta_properties_file dir hash_alg digest w) (\<lambda>signature w.
     saml_win (finish_report_win H R sc dir signature w) (\<lambda>_ w. Win_done (Saml_ok dir, w))))))))"

section \<open>What agrees with the other build\<close>

text \<open>CNG with every call successful and the hash functions of the other build.\<close>

definition report_law :: "('w, 'h) report_env \<Rightarrow> 'h sign_lib \<Rightarrow> bool" where
  "report_law R C \<longleftrightarrow> rp_buffer R \<and>
     (\<forall>alg \<in> {''sha1'', ''sha256''}. cng_works (rp_cng R alg) C alg \<and> NT_SUCCESS (cng_finish (rp_cng R alg))) \<and>
     (\<forall>st. length (hl_final (sl_sha1 C) st) \<le> 20 \<and> length (hl_final (sl_sha256 C) st) \<le> 32)"

lemma hash_win_linux:
  assumes "report_law R C" "alg \<in> {''sha1'', ''sha256''}"
  shows "hash_win H R f alg w = Win_done (calculateHash H C f alg w)"
proof -
  have l: "cng_works (rp_cng R alg) C alg" "NT_SUCCESS (cng_finish (rp_cng R alg))" "rp_buffer R = True"
      "\<And>st. take 20 (hl_final (sl_sha1 C) st) = hl_final (sl_sha1 C) st"
      "\<And>st. take 32 (hl_final (sl_sha256 C) st) = hl_final (sl_sha256 C) st"
    using assms unfolding report_law_def by auto
  show ?thesis
    unfolding hash_win_def l(3) calculateHash_win_result [OF l(1)] calculateHash_def Let_def
    by (simp only: l(2) if_True) (simp add: l(4,5) split: prod.splits bool.splits)
qed

lemma hash_of_file_win_linux:
  assumes "report_law R C" "alg \<in> {''sha1'', ''sha256''}"
  shows "hash_of_file_win H R C f out alg w = Win_done (hash_of_file H C f out alg w)"
  by (auto simp: hash_of_file_win_def hash_of_file_def hash_win_linux [OF assms] split: prod.splits)

text \<open>The permissions of the report are not set: a host whose \<open>chmod\<close> does nothing.\<close>

definition no_chmod :: "'w host \<Rightarrow> 'w host" where
  "no_chmod H = H\<lparr>h_chmod := (\<lambda>f w. w)\<rparr>"

lemma no_chmod_simps [simp]:
  "h_chmod (no_chmod H) f w = w" "h_fwrite (no_chmod H) = h_fwrite H" "h_content (no_chmod H) = h_content H"
  "h_fopen (no_chmod H) = h_fopen H"
  by (simp_all add: no_chmod_def)

lemma no_chmod_files [simp]:
  "must_open (no_chmod H) = must_open H" "hash_of_file (no_chmod H) = hash_of_file H"
  unfolding fun_eq_iff must_open_def hash_of_file_def canonicalizeXml_def calculateHash_def no_chmod_simps
  by simp_all

lemma file_law_no_chmod: "file_law H \<Longrightarrow> file_law (no_chmod H)"
  by (simp add: file_law_def no_chmod_def)

lemma quote_head_fits: "length (quote_head nonce u alg h) < 8192 \<Longrightarrow> report_head nonce u alg h = quote_head nonce u alg h"
  by (simp add: report_head_def quote_head_def)

lemma write_report_head_win_linux:
  assumes law: "report_law R C" "alg \<in> {''sha1'', ''sha256''}"
    and fits: "length (quote_head nonce (m_uuid e) alg (m_vm_manifest_hash e)) < 8192"
      "length (vm_quote nonce (m_uuid e) alg (m_vm_manifest_hash e) @ ''</VMQuote>'') < 8192"
  shows "write_report_head_win H R C B dir nonce e alg w = Win_done (write_report_head (no_chmod H) C B dir nonce e alg w)"
proof -
  have t: "win_text 8192 (quote_head nonce (m_uuid e) alg (m_vm_manifest_hash e)) =
      Win_done (report_head nonce (m_uuid e) alg (m_vm_manifest_hash e))"
    using fits(1) quote_head_fits by (simp add: win_text_def)
  have q: "win_text 8192 (vm_quote nonce (m_uuid e) alg (m_vm_manifest_hash e) @ ''</VMQuote>'') =
      Win_done (snprintf 8192 (vm_quote nonce (m_uuid e) alg (m_vm_manifest_hash e) @ ''</VMQuote>''))"
    using fits(2) by (simp add: win_text_def)
  show ?thesis
    unfolding write_report_head_win_def write_report_head_def t q win_bind_simps Let_def
      hash_of_file_win_linux [OF law] case_prod_unfold saml_win_done no_chmod_simps no_chmod_files
    by (rule refl)
qed

section \<open>The report is only appended to\<close>

text \<open>The two commands that a report runs leave the report alone.\<close>

definition windows_keep :: "'w host \<Rightarrow> 'w winapi \<Rightarrow> ('w, 'h) report_env \<Rightarrow> signing_config \<Rightarrow> cstr \<Rightarrow> bool" where
  "windows_keep H W R sc dir \<longleftrightarrow>
     (\<forall>passwd w. h_content H (dir @ ''signed_report.xml'') (snd (win_system W (sign_command sc dir passwd) w)) =
        h_content H (dir @ ''signed_report.xml'') w) \<and>
     (\<forall>w. h_content H (dir @ ''signed_report.xml'')
          (snd (rp_popen R (certutil_command (sc_key_file sc) (dir @ ''temp.der'') (dir @ ''temp.pem'')) w)) =
        h_content H (dir @ ''signed_report.xml'') w)"

lemma read_signkey_passwd_win_frame:
  assumes "file_law H" "read_signkey_passwd_win H f w = Win_done (Saml_ok p, w')"
  shows "h_content H g w' = h_content H g w"
  using assms(2) file_lawD(1) [OF assms(1), of f ForRead w]
  by (auto simp: read_signkey_passwd_win_def load_config_def elim!: win_bindE
      split: prod.splits bool.splits load_result.splits option.splits)

lemma make_signature_win_ok:
  assumes law: "file_law H" "hash_law (sl_sha1 C)" "hash_law (sl_sha256 C)" "report_law R C"
    and alg: "alg \<in> {''sha1'', ''sha256''}" and dir: "length dir < 1024"
    and keeps: "windows_keep H W R sc dir"
    and run: "make_signature_win H W R C B sc ta dir alg digest w = Win_done (Saml_ok sig, w')"
  shows "h_content H (dir @ ''signed_report.xml'') w' = h_content H (dir @ ''signed_report.xml'') w"
    and "\<exists>q passwd ws ws'. sl_c14n C (signed_text alg digest) = Some q \<and>
      h_content H (dir @ ''hash.input'') ws = take (nat (fst (hash_text C alg q))) (snd (hash_text C alg q)) \<and>
      win_system W (sign_command sc dir passwd) ws = (0, ws') \<and>
      encodes_signature B (h_content H (dir @ ''hash.sig'') ws') sig"
proof -
  define rep tmp out where "rep = dir @ ''signed_report.xml''" and "tmp = dir @ ''us_can.xml''"
    and "out = dir @ ''temp.xml''"
  define inp sgf where "inp = dir @ ''hash.input''" and "sgf = dir @ ''hash.sig''"
  have nm: "snprintf 1048 (dir @ ''us_can.xml'') = tmp" "snprintf 1048 (dir @ ''temp.xml'') = out"
    "snprintf 1048 (dir @ ''hash.input'') = inp" "snprintf 1048 (dir @ ''hash.sig'') = sgf"
    unfolding tmp_def out_def inp_def sgf_def by (rule dir_file [OF dir], simp)+
  have ne: "rep \<noteq> tmp" "rep \<noteq> out" "rep \<noteq> inp" unfolding rep_def tmp_def out_def inp_def by simp_all
  note run' = run [unfolded make_signature_win_def nm Let_def hash_of_file_win_linux [OF law(4) alg] case_prod_unfold]
  let ?doc = "\<lambda>w1. h_fwrite H tmp ''</DigestValue></Reference></SignedInfo>''
       (h_fwrite H tmp digest (h_fwrite H tmp (signed_info long_elem (attr ''xmlns'' dsig) alg) w1))"
  obtain w1 p w2 a b w3 w4 where
    1: "h_fopen H tmp ForWrite w = (True, w1)"
    and 2: "read_signkey_passwd_win H ta (?doc w1) = Win_done (Saml_ok p, w2)"
    and 3: "hash_of_file H C tmp out alg w2 = (Saml_ok (a, b), w3)"
    and 4: "h_fopen H inp ForWrite w3 = (True, w4)"
    and 5: "fst (win_system W (sign_command sc dir p) (h_fwrite H inp (take (nat a) b) w4)) = 0"
      "h_fopen H sgf ForRead (snd (win_system W (sign_command sc dir p) (h_fwrite H inp (take (nat a) b) w4))) = (True, w')"
    and 6: "encode_line B (take 256 (h_content H sgf w')) (length (take 256 (h_content H sgf w'))) = Saml_ok sig"
    using run' by (elim saml_winE win_bindE) (clarsimp simp: must_open_ok saml_bind_ok win_text_def split: if_splits)
  let ?ws = "h_fwrite H inp (take (nat a) b) w4"
  have sys: "h_content H rep (snd (win_system W (sign_command sc dir p) w)) = h_content H rep w" for w
    using keeps unfolding windows_keep_def rep_def by blast
  have "h_content H rep w2 = h_content H rep w"
    using read_signkey_passwd_win_frame [OF law(1) 2, of rep] file_lawD(1) [OF law(1) 1, of rep] ne
    by (simp add: file_lawD(2) [OF law(1)])
  moreover have "h_content H rep w3 = h_content H rep w2"
    using hash_of_file_ok [OF law(1-3) 3] ne by blast
  moreover have "h_content H rep w' = h_content H rep w3"
    using file_lawD(1) [OF law(1) 5(2), of rep] file_lawD(1) [OF law(1) 4, of rep] ne
    by (simp add: file_lawD(2) [OF law(1)] sys)
  ultimately show "h_content H (dir @ ''signed_report.xml'') w' = h_content H (dir @ ''signed_report.xml'') w"
    unfolding rep_def [symmetric] by simp
  have doc: "h_content H tmp w2 = signed_text alg digest"
    using read_signkey_passwd_win_frame [OF law(1) 2, of tmp] file_lawD(1) [OF law(1) 1, of tmp]
    by (simp add: file_lawD(2) [OF law(1)] signed_text_def)
  obtain q where q: "sl_c14n C (signed_text alg digest) = Some q" "(a, b) = hash_text C alg q"
    using hash_of_file_ok [OF law(1-3) 3] doc by auto
  have "h_content H inp ?ws = take (nat a) b"
    using file_lawD(1) [OF law(1) 4, of inp] by (simp add: file_lawD(2) [OF law(1)])
  with q(2) have inp: "h_content H inp ?ws = take (nat (fst (hash_text C alg q))) (snd (hash_text C alg q))"
    by (metis fst_conv snd_conv)
  obtain w5 where w5: "win_system W (sign_command sc dir p) ?ws = (0, w5)"
    using 5(1) by (metis prod.collapse)
  have "encodes_signature B (h_content H sgf w5) sig"
    using 6 file_lawD(1) [OF law(1) 5(2), of sgf] w5 by (simp add: encodes_signature_def)
  with q(1) inp w5 show "\<exists>q passwd ws ws'. sl_c14n C (signed_text alg digest) = Some q \<and>
      h_content H (dir @ ''hash.input'') ws = take (nat (fst (hash_text C alg q))) (snd (hash_text C alg q)) \<and>
      win_system W (sign_command sc dir passwd) ws = (0, ws') \<and>
      encodes_signature B (h_content H (dir @ ''hash.sig'') ws') sig"
    unfolding inp_def sgf_def by blast
qed

lemma cert_lines_win_linux:
  "cert_lines_win sz c s = Win_done cert \<Longrightarrow> cert = cert_lines sz c s"
proof (induction sz c s rule: cert_lines_win.induct)
  case (1 sz c s)
  obtain l r e where f: "fgets 4095 s = (l, r, e)" by (metis prod_cases3)
  show ?case
    using "1.IH" [OF f [symmetric]] "1.prems"
    by (auto simp: cert_lines_win.simps [of sz c s] cert_lines.simps [of sz c s] f Let_def strcat_s_fits
        simp del: fgets.simps split: if_splits)
qed

lemma finish_report_win_ok:
  assumes law: "file_law H" and dir: "length dir < 1024"
    and keeps: "windows_keep H W R sc dir"
    and run: "finish_report_win H R sc dir sig w = Win_done (Saml_ok x, w')"
  shows "\<exists>cert wc wc'.
     rp_popen R (certutil_command (sc_key_file sc) (dir @ ''temp.der'') (dir @ ''temp.pem'')) wc = (True, wc') \<and>
     cert_lines_win 2048 [] (h_content H (dir @ ''temp.pem'') wc') = Win_done cert \<and>
     h_content H (dir @ ''signed_report.xml'') w' =
       h_content H (dir @ ''signed_report.xml'') w @ sig @ signature_end @ cert @ report_end"
proof -
  define rep pem where "rep = dir @ ''signed_report.xml''" and "pem = dir @ ''temp.pem''"
  define cmd where "cmd = certutil_command (sc_key_file sc) (dir @ ''temp.der'') pem"
  have nm: "snprintf 1048 (dir @ ''signed_report.xml'') = rep" "snprintf 1048 (dir @ ''temp.pem'') = pem"
    "snprintf 1048 (dir @ ''temp.der'') = dir @ ''temp.der''"
    unfolding rep_def pem_def by (rule dir_file [OF dir], simp)+
  obtain w1 cert w2 where
    1: "h_fopen H rep ForAppend w = (True, w1)" and
    2: "appendCert_win H R [] dir 2048 (sc_key_file sc) (h_fwrite H rep signature_end (h_fwrite H rep sig w1)) =
         Win_done ((0, cert), w2)"
    and 3: "w' = h_fwrite H rep report_end (h_fwrite H rep cert w2)"
    using run [unfolded finish_report_win_def nm Let_def]
    by (elim saml_winE win_bindE) (auto simp: must_open_ok split: if_splits)
  let ?wc = "h_fwrite H rep signature_end (h_fwrite H rep sig w1)"
  obtain w3 where p: "rp_popen R cmd ?wc = (True, w3)"
    "h_fopen H pem ForRead w3 = (True, w2)" "cert_lines_win 2048 [] (h_content H pem w2) = Win_done cert"
    using 2 [unfolded appendCert_win_def nm Let_def, folded cmd_def]
    by (auto simp: win_text_def elim!: win_bindE split: prod.splits bool.splits if_splits)
  have "h_content H rep w3 = h_content H rep ?wc"
    using keeps p(1) unfolding windows_keep_def rep_def cmd_def pem_def by (metis snd_conv)
  then have "h_content H rep w2 = h_content H rep w @ sig @ signature_end"
    using file_lawD(1) [OF law 1, of rep] file_lawD(1) [OF law p(2), of rep] by (simp add: file_lawD(2) [OF law])
  then have "h_content H rep w' = h_content H rep w @ sig @ signature_end @ cert @ report_end"
    unfolding 3 by (simp add: file_lawD(2) [OF law])
  moreover have "cert_lines_win 2048 [] (h_content H pem w3) = Win_done cert"
    using p(3) file_lawD(1) [OF law p(2), of pem] by simp
  ultimately show ?thesis using p(1) unfolding rep_def cmd_def pem_def by blast
qed

lemma find_report_entry_win_ok:
  assumes "find_report_entry_win rows u t = Saml_ok e"
  shows "find_report_entry u t = Saml_ok e"
    and "m_vm_status e = VM_STATUS_STARTED \<Longrightarrow> rows = Some rs \<Longrightarrow>
      hyperv_state (vm_list_of rs []) (m_uuid e) \<noteq> VM_STATUS_STOPPED"
  using assms
  by (auto simp: find_report_entry_win_def get_hyperv_vms_status_def Let_def split: saml.splits if_splits prod.splits)

lemma write_report_head_win_fits:
  assumes "write_report_head_win H R C B dir nonce e alg w = Win_done (Saml_ok d, w')"
  shows "length (quote_head nonce (m_uuid e) alg (m_vm_manifest_hash e)) < 8192"
    "length (vm_quote nonce (m_uuid e) alg (m_vm_manifest_hash e) @ ''</VMQuote>'') < 8192"
  using assms unfolding write_report_head_win_def Let_def by (elim saml_winE win_bindE; simp)+

section \<open>Properties\<close>


text \<open>An instance of the parameters, with the files of the Linux instance and the agent's properties.\<close>

definition win_files :: "cstr \<Rightarrow> string" where
  "win_files = saml_files(
     ''../configuration/vRTM.cfg'' := concat (map print_entry (saml_config @ [(''ta_properties_file'', ''/ta'')])),
     ''/ta'' := concat (map print_entry [(''signing.key.secret'', ''pw'')]))"

definition demo_report_env :: "(cstr \<Rightarrow> string, string) report_env" where
  "demo_report_env = \<lparr>rp_rows = Some [(''u1'', 2)], rp_popen = (\<lambda>c w. (True, w)),
     rp_cng = (\<lambda>alg. \<lparr>cng_open = 0, cng_object_length = (0, 300), cng_object_malloc = True,
       cng_hash_length = (0, if alg = ''sha1'' then 20 else 32), cng_hash_malloc = True, cng_create = 0,
       cng_data = (\<lambda>_. 0), cng_finish = 0, cng_junk = [], cng_sha1 = sl_sha1 demo_sign,
       cng_sha256 = sl_sha256 demo_sign\<rparr>), rp_buffer = True\<rparr>"

lemma demo_report_law: "report_law demo_report_env demo_sign"
  by (auto simp: report_law_def demo_report_env_def cng_works_def NT_SUCCESS_def demo_sign_def)

lemma demo_windows_keep: "windows_keep fun_host works_win demo_report_env sc dir"
  by (simp add: windows_keep_def works_win_def demo_report_env_def)

lemma no_chmod_fun_host: "no_chmod fun_host = fun_host"
  by (simp add: no_chmod_def fun_host_def)

lemma demo_load_win:
  "read_signing_config_win fun_host win_files = Win_done (Saml_ok (\<lparr>sc_key_file = ''/k.pem'',
     sc_key_blob = ''/k.blob'', sc_version_file = ''/v'', sc_sign_cmd = ''/bin/sign''\<rparr>, ''/ta''), win_files)"
proof -
  let ?c = "saml_config @ [(''ta_properties_file'', ''/ta'')]"
  have e: "\<forall>p \<in> set ?c. config_entry p"
    by (simp add: saml_config_def config_entry_def config_text_def blank_def)
  have "load_lines (win_files ''../configuration/vRTM.cfg'') [] = Some (insert_all ?c [])"
    using load_lines_print [OF e, of "[]" "[]"] by (simp add: win_files_def)
  moreover have "map_of (insert_all ?c []) k = map_of ?c k" for k
    using insert_all_lookup [OF map_ok_Nil, of ?c k] by simp
  ultimately show ?thesis
    by (simp add: read_signing_config_win_def load_config_def fun_host_def config_path_def map_get_def)
      (simp add: saml_config_def win_text_def saml_bind_def)
qed

lemma demo_passwd_win:
  assumes "w ''/ta'' = win_files ''/ta''"
  shows "read_signkey_passwd_win fun_host ''/ta'' w = Win_done (Saml_ok ''pw'', w)"
proof -
  let ?c = "[(''signing.key.secret'', ''pw'')]"
  have e: "\<forall>p \<in> set ?c. config_entry p"
    by (simp add: config_entry_def config_text_def blank_def)
  have "load_lines (w ''/ta'') [] = Some (insert_all ?c [])"
    using load_lines_print [OF e, of "[]" "[]"] assms by (simp add: win_files_def)
  moreover have "map_of (insert_all ?c []) k = map_of ?c k" for k
    using insert_all_lookup [OF map_ok_Nil, of ?c k] by simp
  ultimately show ?thesis
    by (simp add: read_signkey_passwd_win_def load_config_def fun_host_def map_get_def win_text_def)
qed

lemma demo_head_fits:
  "length (quote_head ''n0'' ''u1'' ''sha256'' ''ab12'') < 8192"
  "length (vm_quote ''n0'' ''u1'' ''sha256'' ''ab12'' @ ''</VMQuote>'') < 8192"
  by (simp_all add: quote_head_def vm_quote_def signed_info_def attr_def short_elem_def dsig_def dsig_more_def
      exc_c14n_def signature_method_def digest_method_def)

lemma demo_run_win:
  "\<exists>w'. GenerateSAMLAndGetDir_win fun_host works_win demo_report_env demo_sign rfc4648 saml_globals saml_table
     ''u1'' ''n0'' win_files = Win_done (Saml_ok ''/r/u1/'', w')"
proof -
  let ?e = "snd (hd saml_table)" and ?sc = "\<lparr>sc_key_file = ''/k.pem'',
      sc_key_blob = ''/k.blob'', sc_version_file = ''/v'', sc_sign_cmd = ''/bin/sign''\<rparr>"
  have found: "find_report_entry_win (rp_rows demo_report_env) ''u1'' saml_table = Saml_ok ?e"
    by (simp add: find_report_entry_win_def find_report_entry_def saml_table_def getEntfromprocId_def
        demo_report_env_def get_hyperv_vms_status_def hyperv_state_def)
  have alg: "tpm_hash_alg fun_host ''/v'' win_files = (Saml_ok ''sha256'', win_files)"
    by (simp add: tpm_hash_alg_def fun_host_def win_files_def saml_files_def fgets_code Let_def)
  have e: "m_uuid ?e = ''u1''" "m_vm_manifest_hash ?e = ''ab12''" by (simp_all add: saml_table_def)
  have dir: "win_text MANIFEST_DIR_SIZE (g_trust_report_dir saml_globals @ m_uuid ?e @ ''/'') = Win_done ''/r/u1/''"
    by (simp add: saml_globals_def e win_text_def)
  obtain w1 where w1: "write_report_head fun_host demo_sign rfc4648 ''/r/u1/'' ''n0'' ?e ''sha256'' win_files =
      (Saml_ok ''c2hhMjU2'', w1)" "w1 ''/ta'' = win_files ''/ta''" "w1 ''/r/u1/hash.sig'' = ''sig''"
      "w1 ''/r/u1/temp.pem'' = []"
    using demo_head [of "''n0''" ?e win_files] by (force simp: win_files_def saml_files_def)
  have hd: "write_report_head_win fun_host demo_report_env demo_sign rfc4648 ''/r/u1/'' ''n0'' ?e ''sha256'' win_files =
      Win_done (Saml_ok ''c2hhMjU2'', w1)"
    using write_report_head_win_linux [OF demo_report_law, of "''sha256''" "''n0''" ?e] demo_head_fits w1(1)
    by (simp add: e no_chmod_fun_host)
  obtain w2 where w2: "make_signature_win fun_host works_win demo_report_env demo_sign rfc4648 ?sc ''/ta'' ''/r/u1/''
      ''sha256'' ''c2hhMjU2'' w1 = Win_done (Saml_ok ''c2ln'', w2)" "w2 ''/r/u1/temp.pem'' = []"
  proof -
    let ?w = "h_fwrite fun_host ''/r/u1/us_can.xml'' ''</DigestValue></Reference></SignedInfo>''
      (h_fwrite fun_host ''/r/u1/us_can.xml'' ''c2hhMjU2'' (h_fwrite fun_host ''/r/u1/us_can.xml''
        (signed_info long_elem (attr ''xmlns'' dsig) ''sha256'') (w1(''/r/u1/us_can.xml'' := []))))"
    obtain t where t: "hash_of_file fun_host demo_sign ''/r/u1/us_can.xml'' ''/r/u1/temp.xml'' ''sha256'' ?w =
        (Saml_ok (32, ''sha256''), ?w(''/r/u1/temp.xml'' := t))"
      using demo_hash by blast
    have "?w ''/ta'' = win_files ''/ta''" "?w ''/r/u1/hash.sig'' = ''sig''" "?w ''/r/u1/temp.pem'' = []"
      using w1(2-4) by simp_all
    then show thesis
      using t that demo_passwd_win [of ?w] hash_of_file_win_linux [OF demo_report_law, of "''sha256''"]
      by (simp add: make_signature_win_def saml_bind_def demo_open demo_encode_Suc win_text_def sign_command_def
          works_win_def Let_def)
  qed
  have "cert_lines_win 2048 [] [] = Win_done []"
    using fgets_last [of "[]" 4095] by (simp add: cert_lines_win.simps [of 2048 "[]" "[]"])
  then have "\<exists>w3. finish_report_win fun_host demo_report_env ?sc ''/r/u1/'' ''c2ln'' w2 = Win_done (Saml_ok (), w3)"
    by (simp add: w2(2) finish_report_win_def demo_open appendCert_win_def demo_report_env_def win_text_def
        certutil_command_def Let_def)
  then show ?thesis
    by (auto simp: GenerateSAMLAndGetDir_win_def saml_bind_def found demo_load_win alg dir hd w2)
qed


text \<open>
  Hyper-V is asked by the UUID: a VM it lists as switched off has no report, one it does not list
  has one, and so has every VM when the query fails.
\<close>

lemma find_report_entry_win_running:
  assumes "find_report_entry u t = Saml_ok e" "m_vm_status e = VM_STATUS_STARTED"
  shows "find_report_entry_win None u t = Saml_ok e"
    and "map_of (vm_list_of rows []) (m_uuid e) = None \<Longrightarrow> find_report_entry_win (Some rows) u t = Saml_ok e"
    and "map_of (vm_list_of rows []) (m_uuid e) = Some 3 \<Longrightarrow>
      find_report_entry_win (Some rows) u t = Saml_fail TCSERVICE_RESULT_FAILED"
  using assms by (simp_all add: find_report_entry_win_def get_hyperv_vms_status_def hyperv_state_def)

end
