(* ===== verification/Hyperv_Query.thy ===== *)
theory Hyperv_Query
  imports Resources Tc_Service
begin

text \<open>
  The COM side of \<open>util/hypervWMIcaller.cpp\<close>: \<open>init_com_wmi\<close>, \<open>uninit_com_wmi\<close> and the body of
  \<open>get_hyperv_vms_status\<close>, of which \<open>Tc_Service\<close> has the evaluation.  COM itself is a parameter:
  what each call returns, and the rows the query enumerates.
\<close>

datatype com_resource =
  Com_library | Locator | Services | Enumerator | Class_object | Name_string | Char_copy

record com_calls =
  com_init :: int
  com_security :: int
  com_create :: int
  com_connect :: int
  com_blanket :: int
  com_query :: int
  com_rows :: "(cstr \<times> int) list"

definition FAILED :: "int \<Rightarrow> bool" where "FAILED hres \<longleftrightarrow> hres < 0"

text \<open>The result, which of \<open>pLoc\<close> and \<open>pSvc\<close> are set, and what is held; \<open>None\<close> is a second release.\<close>

definition com_leave ::
  "int \<Rightarrow> com_resource list \<Rightarrow> com_resource multiset \<Rightarrow> (int \<times> com_resource multiset) option"
where
  "com_leave code rs held = map_option (Pair code) (release_all release rs held)"

definition init_com_wmi ::
  "com_calls \<Rightarrow> com_resource multiset \<Rightarrow> (int \<times> com_resource multiset) option"
where
  "init_com_wmi K held =
     (if FAILED (com_init K) then Some (1, held)
      else let held = add_mset Com_library held
      in if FAILED (com_security K) then com_leave 2 [Com_library] held
      else if FAILED (com_create K) then com_leave 3 [Com_library] held
      else let held = add_mset Locator held
      in if FAILED (com_connect K) then com_leave 4 [Locator, Com_library] held
      else let held = add_mset Services held
      in if FAILED (com_blanket K) then com_leave 5 [Services, Locator, Com_library] held
      else Some (0, held))"

text \<open>Called only after a successful set-up, with both pointers set.\<close>

definition uninit_com_wmi :: "com_resource multiset \<Rightarrow> com_resource multiset option" where
  "uninit_com_wmi held = release_all release [Locator, Services, Com_library] held"

text \<open>
  The loop over the rows; the two \<open>Get\<close> calls on a row, whose results the code does not look at,
  are taken to succeed.  The string that the first \<open>Get\<close> puts into the VARIANT is overwritten by
  the second one, so \<open>VariantClear\<close> clears an integer.
\<close>

fun enumerate_rows ::
  "(cstr \<times> int) list \<Rightarrow> (cstr, int) smap \<Rightarrow> com_resource multiset
     \<Rightarrow> ((cstr, int) smap \<times> com_resource multiset) option"
where
  "enumerate_rows [] vm_list held = Some (vm_list, held)"
| "enumerate_rows ((name, enabled_state) # rows) vm_list held =
     (let held = add_mset Char_copy (add_mset Name_string (add_mset Class_object held));
          vm_list = map_insert name enabled_state vm_list
      in case release_all release [Char_copy, Class_object] held of
           None \<Rightarrow> None
         | Some held \<Rightarrow> enumerate_rows rows vm_list held)"

definition query_hyperv ::
  "com_calls \<Rightarrow> (cstr, int) smap \<Rightarrow> com_resource multiset
     \<Rightarrow> ((int \<times> (cstr, int) smap) \<times> com_resource multiset) option"
where
  "query_hyperv K hyperv_vms held =
     (case init_com_wmi K held of
        None \<Rightarrow> None
      | Some (r, held) \<Rightarrow>
          if r > 0 then Some ((1, hyperv_vms), held)
          else if FAILED (com_query K)
          then map_option (Pair (1, hyperv_vms)) (uninit_com_wmi held)
          else (case enumerate_rows (com_rows K) [] (add_mset Enumerator held) of
                  None \<Rightarrow> None
                | Some (vm_list, held) \<Rightarrow>
                    map_option (Pair (0, map (\<lambda>(u, _). (u, hyperv_state vm_list u)) hyperv_vms))
                      (uninit_com_wmi held)))"

section \<open>What the query returns, and what it keeps\<close>

definition com_up :: "com_calls \<Rightarrow> bool" where
  "com_up K \<longleftrightarrow> \<not> FAILED (com_init K) \<and> \<not> FAILED (com_security K) \<and> \<not> FAILED (com_create K) \<and>
     \<not> FAILED (com_connect K) \<and> \<not> FAILED (com_blanket K)"

lemma com_leave_held:
  "mset rs = mset qs \<Longrightarrow> com_leave code rs (fold add_mset qs held) = Some (code, held)"
  by (simp add: com_leave_def multiset_ledger.release_all_acquired)

lemma com_leave_cases:
  "com_leave code [Com_library] (add_mset Com_library held) = Some (code, held)"
  "com_leave code [Locator, Com_library] (add_mset Locator (add_mset Com_library held)) = Some (code, held)"
  "com_leave code [Services, Locator, Com_library]
     (add_mset Services (add_mset Locator (add_mset Com_library held))) = Some (code, held)"
  using com_leave_held [of "[Com_library]" "[Com_library]" code held]
    com_leave_held [of "[Locator, Com_library]" "[Com_library, Locator]" code held]
    com_leave_held [of "[Services, Locator, Com_library]" "[Com_library, Locator, Services]" code held]
  by simp_all

text \<open>A set-up that fails keeps nothing.\<close>

lemma init_com_wmi_result:
  "com_up K \<Longrightarrow> init_com_wmi K held =
     Some (0, add_mset Services (add_mset Locator (add_mset Com_library held)))"
  "\<not> com_up K \<Longrightarrow> \<exists>r > 0. init_com_wmi K held = Some (r, held)"
  by (auto simp: init_com_wmi_def com_up_def com_leave_cases Let_def)

lemma uninit_com_wmi_held:
  "uninit_com_wmi (add_mset Services (add_mset Locator (add_mset Com_library held))) = Some held"
  using multiset_ledger.release_all_acquired [of "[Locator, Services, Com_library]"
      "[Com_library, Locator, Services]" held]
  by (simp add: uninit_com_wmi_def)

lemma enumerate_rows_result:
  "enumerate_rows rows m held =
     Some (vm_list_of rows m, replicate_mset (length rows) Name_string + held)"
proof (induction rows arbitrary: m held)
  case (Cons row rows)
  have "release_all release [Char_copy, Class_object]
      (add_mset Char_copy (add_mset Name_string (add_mset Class_object held))) = Some (add_mset Name_string held)"
    using multiset_ledger.release_all_acquired [of "[Char_copy, Class_object]" "[Class_object, Char_copy]"
        "add_mset Name_string held"]
    by (simp add: add_mset_commute)
  with Cons show ?case by (cases row) (simp add: Let_def del: release_all.simps)
qed simp

definition query_answer :: "com_calls \<Rightarrow> (cstr \<times> int) list option" where
  "query_answer K = (if com_up K \<and> \<not> FAILED (com_query K) then Some (com_rows K) else None)"

text \<open>
  C39: the query of Hyper-V.  However the calls go, nothing is released twice; a query that fails
  gives back all it took and changes no status; one that succeeds answers from its rows, and it
  keeps the enumerator and one string for every virtual machine of the host.
\<close>

theorem hyperv_query_keeps:
  "query_hyperv K vms held =
     Some (get_hyperv_vms_status (query_answer K) vms,
           (case query_answer K of
              None \<Rightarrow> {#}
            | Some rows \<Rightarrow> add_mset Enumerator (replicate_mset (length rows) Name_string)) + held)"
proof (cases "com_up K")
  case False
  then obtain r where "r > 0" "init_com_wmi K held = Some (r, held)"
    using init_com_wmi_result(2) by blast
  with False show ?thesis by (simp add: query_hyperv_def query_answer_def get_hyperv_vms_status_def)
next
  case True
  let ?up = "\<lambda>h. add_mset Services (add_mset Locator (add_mset Com_library h))"
  have "uninit_com_wmi (add_mset Enumerator (?up h)) = Some (add_mset Enumerator h)" for h
    using uninit_com_wmi_held [of "add_mset Enumerator h"] by (simp add: add_mset_commute)
  with True show ?thesis
    by (simp add: query_hyperv_def query_answer_def get_hyperv_vms_status_def init_com_wmi_result(1)
        enumerate_rows_result uninit_com_wmi_held)
qed

end
