(* ===== verification/Vm_Isolation.thy ===== *)
theory Vm_Isolation
  imports Start_App_Spec
begin

text \<open>
  The requests of the core as threads that share the process table: the end of \<open>StartApp\<close>,
  \<open>UpdateAppStatus\<close> and \<open>IsVerified\<close> (\<open>vrtmcore/modtcService.cpp\<close>), one step for each section
  that holds the table's mutex and for each access without it.  Requests about different VMs,
  with numbers of their own, do not disturb each other, however their steps are interleaved;
  between requests about one VM there are races, which are shown as runs of the threads.
\<close>

section \<open>Threads\<close>

text \<open>
  How a thread ends.  \<open>Freed\<close> is an access through a pointer to an entry that is no longer in
  the table.  The keys are request numbers, so that an erased one does not come back.
\<close>

datatype task_end = Registered int | Not_registered | Reported int | Verdict "int + int" | Freed

text \<open>
  The point a thread has reached, with its local variables: registering a measured instance,
  reporting a status (with the removal a report of DELETED asks for), asking for a verdict.
\<close>

datatype task =
    Rg_start app_run int cstr bool
  | Rg_add app_run int cstr bool
  | Rg_update int app_run cstr bool
  | St_start cstr int
  | St_found cstr int int
  | St_entry cstr int int
  | St_time int int
  | St_store int int
  | Rm_start cstr
  | Rm_found int
  | Ask cstr
  | Ended task_end

definition register_update :: "'w host \<Rightarrow> int \<Rightarrow> app_run \<Rightarrow> cstr \<Rightarrow> bool \<Rightarrow> 'w core \<Rightarrow> bool \<times> 'w core" where
  "register_update H child r imageHash verification s =
     (let a = r_args r;
          d = \<lparr>vm_image_id = r_image r, vm_customer_id = r_customer r,
               vm_manifest_hash = strcpy_s MANIFEST_HASH_SIZE imageHash,
               vm_manifest_signature = r_signature r, launch_policy = r_policy r,
               verification_status = verification, vm_manifest_dir = r_dir r\<rparr>
      in if a_type a = INSTANCE_TYPE_VM then updateprocEntry H Linux child d None s
         else if a_type a = INSTANCE_TYPE_DOCKER
         then updateprocEntry H Linux child d (Some (a_name a)) s
         else (False, s))"

fun task_step :: "'w host \<Rightarrow> task \<Rightarrow> 'w core \<Rightarrow> task \<times> 'w core" where
  "task_step H (Rg_start r procid h v) s =
     (let k = getprocIdfromuuid (a_uuid (r_args r)) (proc_table s)
      in (if k = 0 then Rg_add r procid h v else Rg_update k r h v, s))"
| "task_step H (Rg_add r procid h v) s =
     (let (ok, s') = addprocEntry H Linux procid (a_kernel (r_args r)) (a_uuid (r_args r)) 32
            (replicate 32 0) (a_type (r_args r)) s
      in (if ok then Rg_update procid r h v else Ended Not_registered, s'))"
| "task_step H (Rg_update k r h v) s =
     (let (ok, s') = register_update H k r h v s
      in (Ended (if ok then Registered k else Not_registered), s'))"
| "task_step H (St_start u st) s =
     (let k = getprocIdfromuuid u (proc_table s)
      in (if k = 0 then Ended (Reported TCSERVICE_RESULT_FAILED) else St_found u st k, s))"
| "task_step H (St_found u st k) s =
     (case getEntfromprocId k (proc_table s) of
        None \<Rightarrow> (Ended (Reported TCSERVICE_RESULT_FAILED), s)
      | Some _ \<Rightarrow> (St_entry u st k, s))"
| "task_step H (St_entry u st k) s =
     (case map_of (proc_table s) k of
        None \<Rightarrow> (Ended Freed, s)
      | Some e \<Rightarrow>
          (if m_vm_status e = VM_STATUS_CANCELLED then Ended (Reported TCSERVICE_RESULT_SUCCESS)
           else if st = VM_STATUS_DELETED then Rm_start u
           else St_time st k, s))"
| "task_step H (St_time st k) s =
     (case map_of (proc_table s) k of
        None \<Rightarrow> (Ended Freed, s)
      | Some _ \<Rightarrow>
          (let (now, w) = h_time H (os s)
           in (if h_localtime_ok H now then St_store st k else Ended (Reported TCSERVICE_RESULT_FAILED),
               s\<lparr>proc_table := map_modify k (\<lambda>e. e\<lparr>m_status_upadation_time := now\<rparr>) (proc_table s),
                 os := w\<rparr>)))"
| "task_step H (St_store st k) s =
     (case map_of (proc_table s) k of
        None \<Rightarrow> (Ended Freed, s)
      | Some _ \<Rightarrow> (Ended (Reported TCSERVICE_RESULT_SUCCESS),
          s\<lparr>proc_table := map_modify k (\<lambda>e. e\<lparr>m_vm_status := st\<rparr>) (proc_table s)\<rparr>))"
| "task_step H (Rm_start u) s =
     (let k = getprocIdfromuuid u (proc_table s)
      in (if k = 0 then Ended (Reported TCSERVICE_RESULT_FAILED) else Rm_found k, s))"
| "task_step H (Rm_found k) s =
     (let (ok, s') = removeprocEntry H k s
      in (Ended (Reported (if ok then TCSERVICE_RESULT_SUCCESS else TCSERVICE_RESULT_FAILED)), s'))"
| "task_step H (Ask u) s = (Ended (Verdict (IsVerified u (proc_table s))), s)"
| "task_step H (Ended x) s = (Ended x, s)"

text \<open>The threads and the core; a schedule says which thread moves next.\<close>

type_synonym 'w system = "(nat \<Rightarrow> task) \<times> 'w core"

definition move :: "'w host \<Rightarrow> nat \<Rightarrow> 'w system \<Rightarrow> 'w system" where
  "move H i S = (case task_step H (fst S i) (snd S) of (t, s) \<Rightarrow> ((fst S)(i := t), s))"

definition run_threads :: "'w host \<Rightarrow> nat list \<Rightarrow> 'w system \<Rightarrow> 'w system" where
  "run_threads H sched S = fold (move H) sched S"

section \<open>A thread that is left alone\<close>

text \<open>Its steps one after the other are the operation as the other theories have it.\<close>

fun steps_alone :: "nat \<Rightarrow> 'w host \<Rightarrow> task \<times> 'w core \<Rightarrow> task \<times> 'w core" where
  "steps_alone 0 H c = c"
| "steps_alone (Suc n) H c = steps_alone n H (task_step H (fst c) (snd c))"

lemma register_alone:
  "steps_alone 3 H (Rg_start r procid h v, s) =
     (case register_instance H r procid h v s of
        (Continue k, s') \<Rightarrow> (Ended (Registered k), s')
      | (Leave _ _, s') \<Rightarrow> (Ended Not_registered, s'))"
  by (simp add: numeral_3_eq_3 register_instance_def register_update_def Let_def addprocEntry_def
      split: prod.splits)

lemma map_modify_twice: "map_modify k f (map_modify k g t) = map_modify k (\<lambda>e. f (g e)) t"
  by (auto simp: map_modify_def)

lemma report_alone:
  "steps_alone 5 H (St_start u st, s) =
     (case UpdateAppStatus H u st s of (c, s') \<Rightarrow> (Ended (Reported c), s'))"
  by (auto simp: eval_nat_numeral UpdateAppStatus_def getEntfromprocId_def removeprocEntry_uuid_def Let_def
      map_of_modify map_modify_twice split: option.splits prod.splits)

section \<open>What a VM sees of the table\<close>

text \<open>Its entries, without the times, which depend on how fast the others run.\<close>

definition untimed :: "serviceprocEnt \<Rightarrow> serviceprocEnt" where
  "untimed e = e\<lparr>m_status_upadation_time := 0\<rparr>"

definition vm_view :: "cstr \<Rightarrow> ptab \<Rightarrow> ptab" where
  "vm_view u t = map (\<lambda>(k, e). (k, untimed e)) (filter (\<lambda>(k, e). m_uuid e = u) t)"

text \<open>
  Every key belongs to one VM: the entries have the UUID of the owner of their key.
\<close>

definition owned :: "(int \<Rightarrow> cstr) \<Rightarrow> ptab \<Rightarrow> bool" where
  "owned ow t \<longleftrightarrow> map_ok t \<and> (\<forall>(k, e) \<in> set t. m_uuid e = ow k)"

lemma untimed_simps [simp]:
  "m_uuid (untimed e) = m_uuid e" "m_vm_status (untimed e) = m_vm_status e"
  "m_vm_verfication_status (untimed e) = m_vm_verfication_status e"
  "m_instance_type (untimed e) = m_instance_type e"
  by (simp_all add: untimed_def)

lemma vm_view_Nil [simp]: "vm_view u [] = []"
  and vm_view_Cons [simp]:
    "vm_view u ((k, e) # t) = (if m_uuid e = u then (k, untimed e) # vm_view u t else vm_view u t)"
  by (simp_all add: vm_view_def)

lemma in_vm_view: "(k, e) \<in> set (vm_view u t) \<longleftrightarrow> (\<exists>d. (k, d) \<in> set t \<and> m_uuid d = u \<and> e = untimed d)"
  by (auto simp: vm_view_def)

lemma owned_Cons: "owned ow ((k, e) # t) \<Longrightarrow> m_uuid e = ow k \<and> owned ow t \<and> (\<forall>(j, d) \<in> set t. k < j)"
  by (auto simp: owned_def map_ok_def)

lemma getprocIdfromuuid_view: "getprocIdfromuuid u t = getprocIdfromuuid u (vm_view u t)"
  by (induction u t rule: getprocIdfromuuid.induct) simp_all

lemma IsVerified_view: "IsVerified u t = IsVerified u (vm_view u t)"
  by (induction u t rule: IsVerified.induct) simp_all

lemma map_of_view: "owned ow t \<Longrightarrow> ow k = u \<Longrightarrow> map_of (vm_view u t) k = map_option untimed (map_of t k)"
proof (induction t)
  case (Cons a t)
  then show ?case by (cases a) (auto dest!: owned_Cons)
qed simp

lemma vm_view_erase: "vm_view u (map_erase k t) = map_erase k (vm_view u t)"
  by (induction t) (auto simp: map_erase_def split: if_splits)

lemma vm_view_modify:
  assumes "\<And>e. m_uuid (f e) = m_uuid e" "\<And>e. untimed (f e) = g (untimed e)"
  shows "vm_view u (map_modify k f t) = map_modify k g (vm_view u t)"
  by (induction t) (auto simp: map_modify_def assms)

lemma map_insert_first: "(\<forall>(j, d) \<in> set m. k < j) \<Longrightarrow> map_insert k v m = (k, v) # m"
  by (cases m) auto

lemma vm_view_insert:
  assumes "owned ow t" "m_uuid e = ow k"
  shows "vm_view u (map_insert k e t) =
    (if ow k = u then map_insert k (untimed e) (vm_view u t) else vm_view u t)"
  using assms(1)
proof (induction t)
  case (Cons a t)
  obtain j d where a: "a = (j, d)" by force
  note o = owned_Cons [OF Cons.prems [unfolded a]]
  show ?case
  proof (cases "k < j")
    case True
    then have "k < i" if "(i, x) \<in> set t" for i x using o that by fastforce
    then have "\<forall>(i, x) \<in> set (vm_view u ((j, d) # t)). k < i" using True by (auto simp: in_vm_view)
    from map_insert_first [OF this] True show ?thesis by (simp add: a assms(2))
  next
    case False
    then show ?thesis using Cons.IH o by (auto simp: a assms(2))
  qed
qed (simp add: assms(2))

text \<open>A key of another VM is not in the view.\<close>

lemma vm_view_others: "owned ow t \<Longrightarrow> ow k \<noteq> u \<Longrightarrow> k \<notin> fst ` set (vm_view u t)"
  by (force simp: owned_def in_vm_view)

lemma map_absent: "k \<notin> fst ` set m \<Longrightarrow> map_modify k f m = m" "k \<notin> fst ` set m \<Longrightarrow> map_erase k m = m"
  by (auto simp: map_modify_def map_erase_def image_iff intro!: map_idI filter_True)

lemma vm_view_modify_others:
  assumes "owned ow t" "ow k \<noteq> u" "\<And>e. m_uuid (f e) = m_uuid e"
  shows "vm_view u (map_modify k f t) = vm_view u t"
  using assms(1)
proof (induction t)
  case (Cons a t)
  obtain j d where a: "a = (j, d)" by force
  note o = owned_Cons [OF Cons.prems [unfolded a]]
  then show ?case using Cons.IH assms(2,3) by (auto simp: a map_modify_def)
qed (simp add: map_modify_def)

lemma owned_insert: "owned ow t \<Longrightarrow> m_uuid e = ow k \<Longrightarrow> owned ow (map_insert k e t)"
  using smap.all_entries_insert [of t "\<lambda>k e. m_uuid e = ow k" k e] by (auto simp: owned_def)

lemma owned_erase: "owned ow t \<Longrightarrow> owned ow (map_erase k t)"
  using smap.all_entries_erase [of t "\<lambda>k e. m_uuid e = ow k" k] by (auto simp: owned_def)

lemma owned_modify: "owned ow t \<Longrightarrow> (\<And>e. m_uuid (f e) = m_uuid e) \<Longrightarrow> owned ow (map_modify k f t)"
  using smap.all_entries_modify [of t "\<lambda>k e. m_uuid e = ow k" k f] by (auto simp: owned_def)

lemma getprocIdfromuuid_owner:
  assumes "owned ow t" "getprocIdfromuuid u t \<noteq> 0"
  shows "ow (getprocIdfromuuid u t) = u"
  using assms by (induction u t rule: getprocIdfromuuid.induct) (auto dest!: owned_Cons split: if_splits)

section \<open>The tables after the locked sections\<close>

lemma add_table:
  "fst (addprocEntry H Linux p f u 32 h ty s)"
  "proc_table (snd (addprocEntry H Linux p f u 32 h ty s)) =
     map_insert p (fresh_entry Linux (fst (h_time H (os s))) f u 32 h ty) (proc_table s)"
  by (simp_all add: addprocEntry_def Let_def split: prod.splits)

lemma map_of_absent: "map_of m k = None \<Longrightarrow> k \<notin> fst ` set m"
  by (simp add: map_of_eq_None_iff)

lemma register_update_table:
  assumes "args_wf (r_args r)"
  shows "fst (register_update H k r h v s) \<longleftrightarrow> map_of (proc_table s) k \<noteq> None"
    and "proc_table (snd (register_update H k r h v s)) =
      map_modify k (updated_entry (run_meta r h v) (run_name r)) (proc_table s)"
proof -
  have "register_update H k r h v s = updateprocEntry H Linux k (run_meta r h v) (run_name r) s"
    using assms by (auto simp: register_update_def run_meta_def run_name_def args_wf_def Let_def)
  then show "fst (register_update H k r h v s) \<longleftrightarrow> map_of (proc_table s) k \<noteq> None"
    "proc_table (snd (register_update H k r h v s)) =
      map_modify k (updated_entry (run_meta r h v) (run_name r)) (proc_table s)"
    by (auto simp: updateprocEntry_def updated_entry_def [abs_def] Let_def map_absent map_of_absent split: option.splits)
qed

lemma remove_table:
  "fst (removeprocEntry H k s) \<longleftrightarrow> map_of (proc_table s) k \<noteq> None"
  "proc_table (snd (removeprocEntry H k s)) = map_erase k (proc_table s)"
  by (auto simp: removeprocEntry_def Let_def map_absent map_of_absent split: option.splits prod.splits)

lemma fresh_entry_uuid: "length u < UUID_SIZE \<Longrightarrow> m_uuid (fresh_entry Linux now f u sz h ty) = u"
  by (simp add: fresh_entry_def Let_def)

lemma fresh_entry_untimed:
  "untimed (fresh_entry Linux now f u sz h ty) = untimed (fresh_entry Linux 0 f u sz h ty)"
  by (simp add: fresh_entry_def new_serviceprocEnt_def untimed_def Let_def)

lemma updated_entry_untimed: "untimed (updated_entry d nm e) = updated_entry d nm (untimed e)"
  by (simp add: updated_entry_def set_instance_name_def set_launch_status_def set_meta_def untimed_def Let_def
      split: option.splits)

lemma updated_entry_uuid [simp]: "m_uuid (updated_entry d nm e) = m_uuid e"
  by (simp add: updated_entry_def)

lemma status_untimed:
  "untimed (e\<lparr>m_status_upadation_time := now\<rparr>) = untimed e"
  "untimed (e\<lparr>m_vm_status := st\<rparr>) = (untimed e)\<lparr>m_vm_status := st\<rparr>"
  by (simp_all add: untimed_def)

lemma vm_view_time: "vm_view u (map_modify k (\<lambda>e. e\<lparr>m_status_upadation_time := n\<rparr>) t) = vm_view u t"
  using vm_view_modify [where f = "\<lambda>e. e\<lparr>m_status_upadation_time := n\<rparr>" and g = "\<lambda>e. e" and k = k and t = t]
  by (simp add: status_untimed map_modify_def)

section \<open>Threads of different VMs\<close>

text \<open>
  A thread works for one VM: the UUID it was given, and keys that belong to that VM.
\<close>

fun works_for :: "(int \<Rightarrow> cstr) \<Rightarrow> cstr \<Rightarrow> task \<Rightarrow> bool" where
  "works_for ow u (Rg_start r procid h v) \<longleftrightarrow> args_wf (r_args r) \<and> a_uuid (r_args r) = u \<and> ow procid = u"
| "works_for ow u (Rg_add r procid h v) \<longleftrightarrow> args_wf (r_args r) \<and> a_uuid (r_args r) = u \<and> ow procid = u"
| "works_for ow u (Rg_update k r h v) \<longleftrightarrow> args_wf (r_args r) \<and> ow k = u"
| "works_for ow u (St_start x st) \<longleftrightarrow> x = u"
| "works_for ow u (St_found x st k) \<longleftrightarrow> x = u \<and> ow k = u"
| "works_for ow u (St_entry x st k) \<longleftrightarrow> x = u \<and> ow k = u"
| "works_for ow u (St_time st k) \<longleftrightarrow> ow k = u"
| "works_for ow u (St_store st k) \<longleftrightarrow> ow k = u"
| "works_for ow u (Rm_start x) \<longleftrightarrow> x = u"
| "works_for ow u (Rm_found k) \<longleftrightarrow> ow k = u"
| "works_for ow u (Ask x) \<longleftrightarrow> x = u"
| "works_for ow u (Ended x) \<longleftrightarrow> True"

text \<open>What a step does to the table: nothing, or one of three changes at a key of its VM.\<close>

datatype change = Keep | Insert int serviceprocEnt | Modify int "serviceprocEnt \<Rightarrow> serviceprocEnt" | Erase int

fun apply_change :: "change \<Rightarrow> ptab \<Rightarrow> ptab" where
  "apply_change Keep t = t"
| "apply_change (Insert k e) t = map_insert k e t"
| "apply_change (Modify k f) t = map_modify k f t"
| "apply_change (Erase k) t = map_erase k t"

fun change_for :: "(int \<Rightarrow> cstr) \<Rightarrow> cstr \<Rightarrow> change \<Rightarrow> bool" where
  "change_for ow u Keep \<longleftrightarrow> True"
| "change_for ow u (Insert k e) \<longleftrightarrow> ow k = u \<and> m_uuid e = u"
| "change_for ow u (Modify k f) \<longleftrightarrow> ow k = u \<and> (\<forall>e. m_uuid (f e) = m_uuid e)"
| "change_for ow u (Erase k) \<longleftrightarrow> ow k = u"

lemma owned_change: "owned ow t \<Longrightarrow> change_for ow u c \<Longrightarrow> owned ow (apply_change c t)"
  by (cases c) (auto intro: owned_insert owned_erase owned_modify)

lemma vm_view_change: "owned ow t \<Longrightarrow> change_for ow u c \<Longrightarrow> x \<noteq> u \<Longrightarrow> vm_view x (apply_change c t) = vm_view x t"
  using map_absent(2) [OF vm_view_others [of ow t _ x]]
  by (cases c) (auto simp: vm_view_insert vm_view_modify_others vm_view_erase)

lemma task_step_change:
  assumes "owned ow (proc_table s)" "works_for ow u t"
  shows "\<exists>c. change_for ow u c \<and> proc_table (snd (task_step H t s)) = apply_change c (proc_table s)"
    and "works_for ow u (fst (task_step H t s))"
proof -
  show "\<exists>c. change_for ow u c \<and> proc_table (snd (task_step H t s)) = apply_change c (proc_table s)"
  proof (cases t)
    case (Rg_add r p h v)
    then show ?thesis
      using assms(2) add_table [of H p "a_kernel (r_args r)" "a_uuid (r_args r)" "replicate 32 0" "a_type (r_args r)" s]
      by (intro exI [of _ "Insert p (fresh_entry Linux (fst (h_time H (os s))) (a_kernel (r_args r))
          (a_uuid (r_args r)) 32 (replicate 32 0) (a_type (r_args r)))"])
        (auto simp: fresh_entry_uuid args_wf_def split_beta)
  next
    case (Rg_update k r h v)
    then show ?thesis
      using assms(2) register_update_table(2) [of r H k h v s]
      by (intro exI [of _ "Modify k (updated_entry (run_meta r h v) (run_name r))"]) (simp add: split_beta)
  next
    case (St_time st k)
    then show ?thesis
      using assms(2) by (intro exI [of _ "Modify k (\<lambda>e. e\<lparr>m_status_upadation_time := fst (h_time H (os s))\<rparr>)"])
        (auto simp: map_absent map_of_absent split_beta split: option.splits)
  next
    case (St_store st k)
    then show ?thesis
      using assms(2) by (intro exI [of _ "Modify k (\<lambda>e. e\<lparr>m_vm_status := st\<rparr>)"])
        (auto simp: map_absent map_of_absent split: option.splits)
  next
    case (Rm_found k)
    then show ?thesis
      using assms(2) remove_table(2) [of H k s] by (intro exI [of _ "Erase k"]) (simp add: split_beta)
  qed (intro exI [of _ Keep]; simp add: Let_def split: option.splits)+
  show "works_for ow u (fst (task_step H t s))"
    using assms getprocIdfromuuid_owner [OF assms(1), of u]
    by (cases t) (auto simp: Let_def split: option.splits prod.splits)
qed

text \<open>What a thread does depends on what its VM sees of the table alone.\<close>

lemma map_of_views:
  assumes "owned ow t" "owned ow t'" "vm_view u t = vm_view u t'" "ow k = u"
  shows "map_option untimed (map_of t k) = map_option untimed (map_of t' k)"
  using assms map_of_view by metis

lemma task_step_view:
  assumes own: "owned ow (proc_table s)" "owned ow (proc_table s')" and w: "works_for ow u t"
    and see: "vm_view u (proc_table s) = vm_view u (proc_table s')" and clock: "\<forall>n. h_localtime_ok H n"
  shows "fst (task_step H t s) = fst (task_step H t s')"
    and "vm_view u (proc_table (snd (task_step H t s))) = vm_view u (proc_table (snd (task_step H t s')))"
proof -
  have id: "getprocIdfromuuid u (proc_table s) = getprocIdfromuuid u (proc_table s')"
    using getprocIdfromuuid_view [of u] see by metis
  have v: "IsVerified u (proc_table s) = IsVerified u (proc_table s')" using IsVerified_view [of u] see by metis
  have at: "map_option untimed (map_of (proc_table s) k) = map_option untimed (map_of (proc_table s') k)"
    if "ow k = u" for k
    using map_of_views [OF own see that] .
  have none: "map_of (proc_table s) k = None \<longleftrightarrow> map_of (proc_table s') k = None" if "ow k = u" for k
    using at [OF that] by (metis map_option_is_None)
  have st: "m_vm_status e = m_vm_status e'" if "map_of (proc_table s) k = Some e" "map_of (proc_table s') k = Some e'"
    "ow k = u" for k e e'
    using at [OF that(3)] that(1,2) by (metis option.inject option.simps(9) untimed_simps(2))
  show "fst (task_step H t s) = fst (task_step H t s')"
  proof (cases t)
    case (St_entry x st k)
    then show ?thesis
      using w none [of k] st [of k] by (auto split: option.splits)
  next
    case (Rg_update k r h v)
    then show ?thesis
      using w none [of k] register_update_table(1) [of r H k h v] by (auto simp: split_beta)
  next
    case (Rm_found k)
    then show ?thesis using w none [of k] remove_table(1) [of H k] by (auto simp: split_beta)
  next
    case (St_found x st k)
    then show ?thesis using w none [of k] by (auto simp: getEntfromprocId_def split: option.splits)
  next
    case (St_time st k)
    then show ?thesis using w none [of k] clock by (auto simp: split_beta split: option.splits)
  next
    case (St_store st k)
    then show ?thesis using w none [of k] by (auto split: option.splits)
  qed (use w id v in \<open>auto simp: Let_def add_table split_beta\<close>)
  have mod: "vm_view u (map_modify k f (proc_table s)) = vm_view u (map_modify k f' (proc_table s'))"
    if "\<And>e. m_uuid (f e) = m_uuid e" "\<And>e. m_uuid (f' e) = m_uuid e"
      "\<And>e. untimed (f e) = g (untimed e)" "\<And>e. untimed (f' e) = g (untimed e)" for f f' g k
    using vm_view_modify [where f = f and g = g, OF that(1,3)] vm_view_modify [where f = f' and g = g, OF that(2,4)]
      see by simp
  show "vm_view u (proc_table (snd (task_step H t s))) = vm_view u (proc_table (snd (task_step H t s')))"
  proof (cases t)
    case (Rg_add r p h v)
    let ?e = "\<lambda>n. fresh_entry Linux n (a_kernel (r_args r)) (a_uuid (r_args r)) 32 (replicate 32 0) (a_type (r_args r))"
    have u: "m_uuid (?e n) = ow p" "ow p = u" for n
      using w Rg_add by (auto simp: fresh_entry_uuid args_wf_def)
    have "untimed (?e (fst (h_time H (os s)))) = untimed (?e (fst (h_time H (os s'))))"
      by (metis fresh_entry_untimed)
    then show ?thesis
      using vm_view_insert [OF own(1) u(1)] vm_view_insert [OF own(2) u(1)] u(2) see
      by (simp add: Rg_add add_table split_beta)
  next
    case (Rg_update k r h v)
    let ?f = "updated_entry (run_meta r h v) (run_name r)"
    have "vm_view u (map_modify k ?f (proc_table s)) = vm_view u (map_modify k ?f (proc_table s'))"
      by (rule mod [where g = ?f]) (simp_all add: updated_entry_untimed)
    with Rg_update show ?thesis
      using w register_update_table(2) [of r H k h v] by (simp add: split_beta)
  next
    case (St_time st k)
    then show ?thesis using w none [of k] see by (auto simp: split_beta vm_view_time split: option.splits)
  next
    case (St_store st k)
    then show ?thesis
      using w none [of k] mod [where f = "\<lambda>e. e\<lparr>m_vm_status := st\<rparr>" and f' = "\<lambda>e. e\<lparr>m_vm_status := st\<rparr>"
          and g = "\<lambda>e. e\<lparr>m_vm_status := st\<rparr>"] see
      by (auto simp: status_untimed split: option.splits)
  next
    case (Rm_found k)
    then show ?thesis using see remove_table(2) [of H k] by (simp add: split_beta vm_view_erase)
  qed (use see in \<open>auto simp: Let_def split: option.splits\<close>)
qed

section \<open>Unwinding\<close>

text \<open>
  The contract of a system whose steps belong to domains: a step changes only what its own domain
  sees, and what it does there depends on that alone.  A run then shows a domain what the run
  of its own steps would have shown.
\<close>

locale unwinding =
  fixes step :: "'i \<Rightarrow> 's \<Rightarrow> 's"
    and domain_of :: "'i \<Rightarrow> 'd"
    and sees :: "'d \<Rightarrow> 's \<Rightarrow> 'v"
    and inv :: "'s \<Rightarrow> bool"
  assumes step_inv: "inv s \<Longrightarrow> inv (step i s)"
    and respects: "inv s \<Longrightarrow> domain_of i \<noteq> d \<Longrightarrow> sees d (step i s) = sees d s"
    and consistent: "inv s \<Longrightarrow> inv t \<Longrightarrow> sees (domain_of i) s = sees (domain_of i) t \<Longrightarrow>
      sees (domain_of i) (step i s) = sees (domain_of i) (step i t)"
begin

lemma run_inv: "inv s \<Longrightarrow> inv (fold step is s)"
  by (induction "is" arbitrary: s) (simp_all add: step_inv)

lemma purge:
  "inv s \<Longrightarrow> inv t \<Longrightarrow> sees d s = sees d t \<Longrightarrow>
   sees d (fold step is s) = sees d (fold step (filter (\<lambda>i. domain_of i = d) is) t)"
proof (induction "is" arbitrary: s t)
  case (Cons i "is")
  show ?case
  proof (cases "domain_of i = d")
    case True
    then have "sees d (step i s) = sees d (step i t)" using Cons.prems consistent by blast
    with True Cons show ?thesis by (simp add: step_inv)
  next
    case False
    then have "sees d (step i s) = sees d t" using Cons.prems respects by simp
    from Cons.IH [OF step_inv [OF Cons.prems(1)] Cons.prems(2) this] False show ?thesis by simp
  qed
qed simp

end

text \<open>The threads of a VM and its entries; every thread works for its VM.\<close>

definition seen_by :: "(nat \<Rightarrow> cstr) \<Rightarrow> cstr \<Rightarrow> 'w system \<Rightarrow> (nat \<Rightarrow> task option) \<times> ptab" where
  "seen_by vm u S = ((\<lambda>i. if vm i = u then Some (fst S i) else None), vm_view u (proc_table (snd S)))"

definition well_owned :: "'w host \<Rightarrow> (int \<Rightarrow> cstr) \<Rightarrow> (nat \<Rightarrow> cstr) \<Rightarrow> 'w system \<Rightarrow> bool" where
  "well_owned H ow vm S \<longleftrightarrow> (\<forall>n. h_localtime_ok H n) \<and> owned ow (proc_table (snd S)) \<and>
     (\<forall>i. works_for ow (vm i) (fst S i))"

lemma seen_byD: "seen_by vm u S = seen_by vm u T \<Longrightarrow> vm i = u \<Longrightarrow> fst S i = fst T i"
  by (auto simp: seen_by_def dest!: fun_cong [of _ _ i])

lemma fst_move: "fst (move H i S) = (fst S)(i := fst (task_step H (fst S i) (snd S)))"
  and snd_move: "snd (move H i S) = snd (task_step H (fst S i) (snd S))"
  by (simp_all add: move_def split_beta)

lemma well_ownedD:
  assumes "well_owned H ow vm S"
  shows "owned ow (proc_table (snd S))" "works_for ow (vm i) (fst S i)" "\<forall>n. h_localtime_ok H n"
  using assms by (simp_all add: well_owned_def)

lemma move_change:
  assumes "well_owned H ow vm S"
  shows "\<exists>c. change_for ow (vm i) c \<and> proc_table (snd (move H i S)) = apply_change c (proc_table (snd S))"
    and "works_for ow (vm i) (fst (move H i S) i)"
  using task_step_change [OF well_ownedD(1,2) [OF assms], of i H] by (simp_all add: fst_move snd_move)

interpretation threads: unwinding "move H" vm "seen_by vm" "well_owned H ow vm"
  for H :: "'w host" and ow :: "int \<Rightarrow> cstr" and vm :: "nat \<Rightarrow> cstr"
proof unfold_locales
  fix S :: "'w system" and i
  assume S: "well_owned H ow vm S"
  obtain c where "change_for ow (vm i) c" "proc_table (snd (move H i S)) = apply_change c (proc_table (snd S))"
    using move_change(1) [OF S] by blast
  then have "owned ow (proc_table (snd (move H i S)))" using owned_change well_ownedD(1) [OF S] by simp
  moreover have "works_for ow (vm j) (fst (move H i S) j)" for j
    using move_change(2) [OF S, of i] well_ownedD(2) [OF S, of j] by (cases "j = i") (simp_all add: fst_move)
  ultimately show "well_owned H ow vm (move H i S)" using well_ownedD(3) [OF S] by (simp add: well_owned_def)
next
  fix S :: "'w system" and i u
  assume S: "well_owned H ow vm S" and u: "vm i \<noteq> u"
  obtain c where "change_for ow (vm i) c" "proc_table (snd (move H i S)) = apply_change c (proc_table (snd S))"
    using move_change(1) [OF S] by blast
  then have "vm_view u (proc_table (snd (move H i S))) = vm_view u (proc_table (snd S))"
    using vm_view_change [OF well_ownedD(1) [OF S]] u by simp
  then show "seen_by vm u (move H i S) = seen_by vm u S"
    using u by (auto simp: seen_by_def fst_move)
next
  fix S T :: "'w system" and i
  assume S: "well_owned H ow vm S" and T: "well_owned H ow vm T" and see: "seen_by vm (vm i) S = seen_by vm (vm i) T"
  have same: "fst S j = fst T j" if "vm j = vm i" for j
    using seen_byD [OF see that] .
  have view: "vm_view (vm i) (proc_table (snd S)) = vm_view (vm i) (proc_table (snd T))"
    using see by (simp add: seen_by_def)
  note v = task_step_view [OF well_ownedD(1) [OF S] well_ownedD(1) [OF T] well_ownedD(2) [OF S] view well_ownedD(3) [OF S]]
  show "seen_by vm (vm i) (move H i S) = seen_by vm (vm i) (move H i T)"
    using v same by (auto simp: seen_by_def fst_move snd_move)
qed

section \<open>Properties\<close>

text \<open>
  C33: requests about different VMs do not disturb each other.  Threads register measured instances,
  report statuses and ask for verdicts, each for one VM, in any interleaving of their locked
  sections and unlocked accesses.  Provided that every request number and every key of the table
  belongs to one VM only (the counter has not come around, and no two sessions got one number,
  see \<open>Request_Numbers\<close>) and that the time can be converted, the threads of a VM are at the same points with the same results, and its entries are the same
  but for their times, as if the threads of the other VMs had never run.
\<close>

theorem vms_isolated:
  assumes "\<forall>n. h_localtime_ok H n" "owned ow (proc_table (snd S))" "\<forall>i. works_for ow (vm i) (fst S i)"
  shows "(\<forall>i. vm i = u \<longrightarrow> fst (run_threads H sched S) i =
      fst (run_threads H (filter (\<lambda>i. vm i = u) sched) S) i) \<and>
    vm_view u (proc_table (snd (run_threads H sched S))) =
      vm_view u (proc_table (snd (run_threads H (filter (\<lambda>i. vm i = u) sched) S)))"
proof -
  have "well_owned H ow vm S" using assms by (simp add: well_owned_def)
  then have "seen_by vm u (run_threads H sched S) = seen_by vm u (run_threads H (filter (\<lambda>i. vm i = u) sched) S)"
    unfolding run_threads_def by (intro threads.purge) simp_all
  from seen_byD [OF this] this show ?thesis by (simp add: seen_by_def)
qed

text \<open>Two launches at once, the first with the golden hash, the second refused, and a question.\<close>

definition demo_tasks :: "nat \<Rightarrow> task" where
  "demo_tasks i =
     (if i = 0 then Rg_start demo_run 5 ''ab12'' True
      else if i = 1 then Rg_start other_run 6 ''cd34'' False
      else Ask ''u1'')"

theorem vms_isolated_witness:
  "fst (run_threads ref_host [0, 1, 1, 0, 1, 0, 2] (demo_tasks, demo_core [] [] [] [])) 2 =
     Ended (Verdict (Inr 1)) \<and>
   vm_view ''u1'' (proc_table (snd (run_threads ref_host [0, 1, 1, 0, 1, 0, 2] (demo_tasks, demo_core [] [] [] [])))) =
     [(5, untimed (demo_entry ''Enforce'' ''ab12'' True VM_STATUS_STOPPED))]"
proof -
  let ?vm = "\<lambda>i :: nat. if i = 1 then ''u2'' else ''u1''" and ?ow = "\<lambda>k :: int. if k = 6 then ''u2'' else ''u1''"
  let ?S = "(demo_tasks, demo_core [] [] [] [])" and ?run = "[0, 1, 1, 0, 1, 0, 2]"
  have "\<forall>i. works_for ?ow (?vm i) (fst ?S i)"
    by (simp add: demo_tasks_def args_wf_def demo_run_def other_run_def)
  moreover have "\<forall>n. h_localtime_ok ref_host n" "owned ?ow (proc_table (snd ?S))"
    by (simp_all add: ref_host_def owned_def demo_core_def)
  ultimately have "fst (run_threads ref_host ?run ?S) 2 = fst (run_threads ref_host [0, 0, 0, 2] ?S) 2"
    "vm_view ''u1'' (proc_table (snd (run_threads ref_host ?run ?S))) =
      vm_view ''u1'' (proc_table (snd (run_threads ref_host [0, 0, 0, 2] ?S)))"
    using vms_isolated [of ref_host ?ow ?S ?vm "''u1''" ?run] by simp_all
  moreover have "fst (run_threads ref_host [0, 0, 0, 2] ?S) 2 = Ended (Verdict (Inr 1))"
    by code_simp
  moreover have "vm_view ''u1'' (proc_table (snd (run_threads ref_host [0, 0, 0, 2] ?S))) =
      [(5, untimed (demo_entry ''Enforce'' ''ab12'' True VM_STATUS_STOPPED))]"
    by code_simp
  ultimately show ?thesis by simp
qed

section \<open>Threads of one VM\<close>

lemma run_threads_steps:
  "run_threads H [] S = S"
  "run_threads H (i # is) S = run_threads H is (move H i S)"
  by (simp_all add: run_threads_def)

lemma run_threads_append: "run_threads H (is @ js) S = run_threads H js (run_threads H is S)"
  by (simp add: run_threads_def)

lemma getprocIdfromuuid_modify:
  assumes "\<And>e. m_uuid (f e) = m_uuid e"
  shows "getprocIdfromuuid u (map_modify k f t) = getprocIdfromuuid u t"
proof (induction t)
  case (Cons a t)
  then show ?case by (cases a) (auto simp: map_modify_def assms)
qed (simp add: map_modify_def)

text \<open>
  The stages of the two operations: a report looks at the entry and writes it later, a relaunch
  looks for the entry and registers.
\<close>

lemma report_looks:
  assumes "getprocIdfromuuid u (proc_table s) = k" "k \<noteq> 0" "map_of (proc_table s) k = Some e"
    and "m_vm_status e \<noteq> VM_STATUS_CANCELLED" "st \<noteq> VM_STATUS_DELETED" "T i = St_start u st"
  shows "run_threads H [i, i, i] (T, s) = (T(i := St_time st k), s)"
  using assms by (simp add: run_threads_steps move_def getEntfromprocId_def)

lemma report_refrains:
  assumes "getprocIdfromuuid u (proc_table s) = k" "k \<noteq> 0" "map_of (proc_table s) k = Some e"
    and "m_vm_status e = VM_STATUS_CANCELLED" "T i = St_start u st"
  shows "run_threads H [i, i, i] (T, s) = (T(i := Ended (Reported TCSERVICE_RESULT_SUCCESS)), s)"
  using assms by (simp add: run_threads_steps move_def getEntfromprocId_def)

lemma report_writes:
  assumes "map_of (proc_table s) k = Some e" "\<forall>n. h_localtime_ok H n" "T i = St_time st k"
  shows "\<exists>s' now. run_threads H [i, i] (T, s) = (T(i := Ended (Reported TCSERVICE_RESULT_SUCCESS)), s') \<and>
    proc_table s' = map_modify k (\<lambda>e. e\<lparr>m_status_upadation_time := now, m_vm_status := st\<rparr>) (proc_table s)"
  using assms
  by (cases "h_time H (os s)") (auto simp: run_threads_steps move_def map_of_modify map_modify_twice)

lemma relaunch_registers:
  assumes "getprocIdfromuuid (a_uuid (r_args r)) (proc_table s) = k" "k \<noteq> 0" "map_of (proc_table s) k = Some e"
    and "args_wf (r_args r)" "T i = Rg_start r procid h v"
  shows "\<exists>s'. run_threads H [i, i] (T, s) = (T(i := Ended (Registered k)), s') \<and>
    proc_table s' = map_modify k (updated_entry (run_meta r h v) (run_name r)) (proc_table s)"
  using assms register_update_table [of r H k h v s] by (simp add: run_threads_steps move_def split_beta)

lemma refused_entry:
  assumes "r_policy r = ''Enforce''"
  shows "m_vm_launch_policy (updated_entry (run_meta r h False) nm e) = ''Enforce''"
    and "\<not> m_vm_verfication_status (updated_entry (run_meta r h False) nm e)"
    and "m_vm_status (updated_entry (run_meta r h False) nm e) = VM_STATUS_CANCELLED"
  using assms by (simp_all add: run_meta_def updated_entry_status)

text \<open>The three orders of a report by the thread \<open>i\<close> and a refused relaunch by \<open>j\<close>.\<close>

lemma relaunch_between:
  assumes known: "getprocIdfromuuid (a_uuid (r_args r)) (proc_table s) = k" "k \<noteq> 0"
      "map_of (proc_table s) k = Some e" "m_vm_status e \<noteq> VM_STATUS_CANCELLED"
    and r: "args_wf (r_args r)" "r_policy r = ''Enforce''" and clock: "\<forall>n. h_localtime_ok H n"
    and st: "st \<noteq> VM_STATUS_DELETED"
    and T: "i \<noteq> j" "T i = St_start (a_uuid (r_args r)) st" "T j = Rg_start r procid h False"
  shows "\<exists>s' e'. run_threads H ([i, i, i] @ [j, j] @ [i, i]) (T, s) =
      (T(j := Ended (Registered k), i := Ended (Reported TCSERVICE_RESULT_SUCCESS)), s') \<and>
    map_of (proc_table s') k = Some e' \<and> m_vm_launch_policy e' = ''Enforce'' \<and>
    \<not> m_vm_verfication_status e' \<and> m_vm_status e' = st"
proof -
  let ?T = "T(i := St_time st k)" and ?up = "updated_entry (run_meta r h False) (run_name r)"
  let ?U = "?T(j := Ended (Registered k))"
  note look = report_looks [where H = H and T = T and i = i, OF known st T(2)]
  have "?T j = Rg_start r procid h False" using T by simp
  from relaunch_registers [where H = H and T = ?T and i = j, OF known(1-3) r(1) this] obtain s1
    where s1: "run_threads H [j, j] (?T, s) = (?U, s1)" "proc_table s1 = map_modify k ?up (proc_table s)"
    by blast
  have k1: "map_of (proc_table s1) k = Some (?up e)" using known(3) by (simp add: s1(2) map_of_modify)
  have "?U i = St_time st k" using T(1) by simp
  from report_writes [where T = ?U and i = i, OF k1 clock this] obtain s' now
    where s': "run_threads H [i, i] (?U, s1) = (?U(i := Ended (Reported TCSERVICE_RESULT_SUCCESS)), s')"
      "proc_table s' = map_modify k (\<lambda>e. e\<lparr>m_status_upadation_time := now, m_vm_status := st\<rparr>) (proc_table s1)"
    by blast
  have u: "?U(i := t) = T(j := Ended (Registered k), i := t)" for t using T(1) by (simp add: fun_upd_twist)
  have "map_of (proc_table s') k = Some ((?up e)\<lparr>m_status_upadation_time := now, m_vm_status := st\<rparr>)"
    using k1 by (simp add: s'(2) map_of_modify)
  then show ?thesis
    using refused_entry(1,2) [OF r(2), of h "run_name r" e]
    unfolding run_threads_append look s1(1) s'(1) u by simp
qed

lemma report_first:
  assumes known: "getprocIdfromuuid (a_uuid (r_args r)) (proc_table s) = k" "k \<noteq> 0"
      "map_of (proc_table s) k = Some e" "m_vm_status e \<noteq> VM_STATUS_CANCELLED"
    and r: "args_wf (r_args r)" "r_policy r = ''Enforce''" and clock: "\<forall>n. h_localtime_ok H n"
    and st: "st \<noteq> VM_STATUS_DELETED"
    and T: "i \<noteq> j" "T i = St_start (a_uuid (r_args r)) st" "T j = Rg_start r procid h False"
  shows "\<exists>s' e'. run_threads H (([i, i, i] @ [i, i]) @ [j, j]) (T, s) =
      (T(i := Ended (Reported TCSERVICE_RESULT_SUCCESS), j := Ended (Registered k)), s') \<and>
    map_of (proc_table s') k = Some e' \<and> m_vm_status e' = VM_STATUS_CANCELLED"
proof -
  let ?T = "T(i := St_time st k)" and ?U = "T(i := Ended (Reported TCSERVICE_RESULT_SUCCESS))"
  note look = report_looks [where H = H and T = T and i = i, OF known st T(2)]
  have "?T i = St_time st k" by simp
  from report_writes [where T = ?T and i = i, OF known(3) clock this] obtain s1 now
    where s1: "run_threads H [i, i] (?T, s) = (?U, s1)"
      "proc_table s1 = map_modify k (\<lambda>e. e\<lparr>m_status_upadation_time := now, m_vm_status := st\<rparr>) (proc_table s)"
    by auto
  have g: "getprocIdfromuuid (a_uuid (r_args r)) (proc_table s1) = k"
    using known(1) by (simp add: s1(2) getprocIdfromuuid_modify)
  have m: "map_of (proc_table s1) k = Some (e\<lparr>m_status_upadation_time := now, m_vm_status := st\<rparr>)"
    using known(3) by (simp add: s1(2) map_of_modify)
  have "?U j = Rg_start r procid h False" using T by simp
  from relaunch_registers [where H = H and T = ?U and i = j, OF g known(2) m r(1) this] obtain s'
    where s': "run_threads H [j, j] (?U, s1) = (?U(j := Ended (Registered k)), s')"
      "proc_table s' = map_modify k (updated_entry (run_meta r h False) (run_name r)) (proc_table s1)"
    by blast
  show ?thesis
    unfolding run_threads_append look s1(1) s'(1)
    using m refused_entry(3) [OF r(2)] by (simp add: s'(2) map_of_modify)
qed

lemma relaunch_first:
  assumes known: "getprocIdfromuuid (a_uuid (r_args r)) (proc_table s) = k" "k \<noteq> 0" "map_of (proc_table s) k = Some e"
    and r: "args_wf (r_args r)" "r_policy r = ''Enforce''"
    and T: "i \<noteq> j" "T i = St_start (a_uuid (r_args r)) st" "T j = Rg_start r procid h False"
  shows "\<exists>s' e'. run_threads H ([j, j] @ [i, i, i]) (T, s) =
      (T(j := Ended (Registered k), i := Ended (Reported TCSERVICE_RESULT_SUCCESS)), s') \<and>
    map_of (proc_table s') k = Some e' \<and> m_vm_status e' = VM_STATUS_CANCELLED"
proof -
  let ?up = "updated_entry (run_meta r h False) (run_name r)" and ?U = "T(j := Ended (Registered k))"
  from relaunch_registers [where H = H and T = T and i = j, OF known r(1) T(3)] obtain s1
    where s1: "run_threads H [j, j] (T, s) = (?U, s1)" "proc_table s1 = map_modify k ?up (proc_table s)"
    by blast
  have g: "getprocIdfromuuid (a_uuid (r_args r)) (proc_table s1) = k"
    using known(1) by (simp add: s1(2) getprocIdfromuuid_modify)
  have m: "map_of (proc_table s1) k = Some (?up e)" using known(3) by (simp add: s1(2) map_of_modify)
  have "?U i = St_start (a_uuid (r_args r)) st" using T by simp
  from report_refrains [where H = H and T = ?U and i = i, OF g known(2) m refused_entry(3) [OF r(2)] this]
  show ?thesis
    unfolding run_threads_append s1(1) using m refused_entry(3) [OF r(2)] by simp
qed

text \<open>
  C15: the race of a status report with a relaunch of the same VM, on any table in which it is not
  cancelled.  The report looks at the entry, then the relaunch, refused under Enforce,
  registers, then the report writes: both succeed, and the entry has the failed verdict, the
  policy Enforce and the reported status.  When one of the two runs to its end before the other
  begins, the entry is CANCELLED, whichever is first.
\<close>

theorem report_undoes_refusal:
  assumes "getprocIdfromuuid (a_uuid (r_args r)) (proc_table s) = k" "k \<noteq> 0"
      "map_of (proc_table s) k = Some e" "m_vm_status e \<noteq> VM_STATUS_CANCELLED"
    and "args_wf (r_args r)" "r_policy r = ''Enforce''" "\<forall>n. h_localtime_ok H n"
    and "st \<noteq> VM_STATUS_DELETED" "st \<noteq> VM_STATUS_CANCELLED"
    and "i \<noteq> j" "T i = St_start (a_uuid (r_args r)) st" "T j = Rg_start r procid h False"
  shows "(\<exists>s' e'. run_threads H ([i, i, i] @ [j, j] @ [i, i]) (T, s) =
        (T(j := Ended (Registered k), i := Ended (Reported TCSERVICE_RESULT_SUCCESS)), s') \<and>
      map_of (proc_table s') k = Some e' \<and> m_vm_launch_policy e' = ''Enforce'' \<and>
      \<not> m_vm_verfication_status e' \<and> m_vm_status e' = st \<and> st \<noteq> VM_STATUS_CANCELLED) \<and>
    (\<exists>s' e'. run_threads H (([i, i, i] @ [i, i]) @ [j, j]) (T, s) =
        (T(i := Ended (Reported TCSERVICE_RESULT_SUCCESS), j := Ended (Registered k)), s') \<and>
      map_of (proc_table s') k = Some e' \<and> m_vm_status e' = VM_STATUS_CANCELLED) \<and>
    (\<exists>s' e'. run_threads H ([j, j] @ [i, i, i]) (T, s) =
        (T(j := Ended (Registered k), i := Ended (Reported TCSERVICE_RESULT_SUCCESS)), s') \<and>
      map_of (proc_table s') k = Some e' \<and> m_vm_status e' = VM_STATUS_CANCELLED)"
  using relaunch_between [OF assms(1-8,10-12)] report_first [OF assms(1-8,10-12)]
    relaunch_first [OF assms(1-3,5,6,10-12)] assms(9) by simp

theorem report_undoes_refusal_witness:
  "\<exists>s' e'. run_threads ref_host [0, 0, 0, 1, 1, 0, 0]
       ((\<lambda>i. if i = 0 then St_start ''u1'' VM_STATUS_STARTED else Rg_start demo_run 6 ''cd34'' False),
        (demo_core [] [] [] [])\<lparr>proc_table := [(5, demo_entry ''Enforce'' ''ab12'' True VM_STATUS_STOPPED)]\<rparr>) =
       ((\<lambda>i. if i = 0 then St_start ''u1'' VM_STATUS_STARTED else Rg_start demo_run 6 ''cd34'' False)
          (1 := Ended (Registered 5), 0 := Ended (Reported TCSERVICE_RESULT_SUCCESS)), s') \<and>
     map_of (proc_table s') 5 = Some e' \<and> m_vm_launch_policy e' = ''Enforce'' \<and>
     \<not> m_vm_verfication_status e' \<and> m_vm_status e' = VM_STATUS_STARTED"
  using report_undoes_refusal [of demo_run
      "(demo_core [] [] [] [])\<lparr>proc_table := [(5, demo_entry ''Enforce'' ''ab12'' True VM_STATUS_STOPPED)]\<rparr>"
      5 "demo_entry ''Enforce'' ''ab12'' True VM_STATUS_STOPPED" ref_host VM_STATUS_STARTED 0 1
      "\<lambda>i. if i = 0 then St_start ''u1'' VM_STATUS_STARTED else Rg_start demo_run 6 ''cd34'' False" 6 "''cd34''"]
  by (simp add: demo_run_def demo_entry_def args_wf_def ref_host_def)

text \<open>
  Two starts of one unknown UUID that both look before either adds its entry leave two entries
  with that UUID.
\<close>

lemma two_starts_two_entries:
  assumes new: "getprocIdfromuuid u (proc_table s) = 0" "map_of (proc_table s) p = None" "map_of (proc_table s) q = None"
    and t: "map_ok (proc_table s)" "p \<noteq> q"
    and r: "args_wf (r_args r)" "a_uuid (r_args r) = u" "args_wf (r_args r')" "a_uuid (r_args r') = u"
    and T: "i \<noteq> j" "T i = Rg_start r p h v" "T j = Rg_start r' q h' v'"
  shows "\<exists>s' e e'. run_threads H [i, j, i, j] (T, s) = (T(i := Rg_update p r h v, j := Rg_update q r' h' v'), s') \<and>
    map_of (proc_table s') p = Some e \<and> m_uuid e = u \<and> map_of (proc_table s') q = Some e' \<and> m_uuid e' = u"
proof -
  obtain s1 where s1: "addprocEntry H Linux p (a_kernel (r_args r)) u 32 (replicate 32 0) (a_type (r_args r)) s = (True, s1)"
    "\<exists>now. proc_table s1 = map_insert p (fresh_entry Linux now (a_kernel (r_args r)) u 32 (replicate 32 0) (a_type (r_args r))) (proc_table s)"
    using add_table by (metis (full_types) prod.collapse)
  obtain s2 where s2: "addprocEntry H Linux q (a_kernel (r_args r')) u 32 (replicate 32 0) (a_type (r_args r')) s1 = (True, s2)"
    "\<exists>now. proc_table s2 = map_insert q (fresh_entry Linux now (a_kernel (r_args r')) u 32 (replicate 32 0) (a_type (r_args r'))) (proc_table s1)"
    using add_table by (metis (full_types) prod.collapse)
  have "run_threads H [i, j, i, j] (T, s) = (T(i := Rg_update p r h v, j := Rg_update q r' h' v'), s2)"
    using T new(1) r s1(1) s2(1) by (simp add: run_threads_steps move_def fun_upd_twist)
  moreover have "length u < UUID_SIZE" using r by (auto simp: args_wf_def)
  ultimately show ?thesis
    using s1(2) s2(2) new(2,3) t by (fastforce simp: map_of_insert_ok map_ok_insert fresh_entry_uuid)
qed

lemma two_starts_two_entries_example:
  "\<exists>s' e e'. run_threads ref_host [0, 1, 0, 1]
       ((\<lambda>i. Rg_start demo_run (if i = 0 then 5 else 6) ''ab12'' True), demo_core [] [] [] []) =
       ((\<lambda>i. Rg_start demo_run (if i = 0 then 5 else 6) ''ab12'' True)
          (0 := Rg_update 5 demo_run ''ab12'' True, 1 := Rg_update 6 demo_run ''ab12'' True), s') \<and>
     map_of (proc_table s') 5 = Some e \<and> m_uuid e = ''u1'' \<and> map_of (proc_table s') 6 = Some e' \<and> m_uuid e' = ''u1''"
  by (rule two_starts_two_entries)
    (simp_all add: demo_run_def demo_core_def args_wf_def)

text \<open>
  For one VM it is different: when a report of DELETED comes between the look and the write of
  another report, the write goes to memory that was freed with the entry.
\<close>

lemma report_after_removal:
  "fst (run_threads ref_host [0, 0, 1, 1, 1, 1, 1, 0]
     ((\<lambda>i. if i = 0 then St_start ''u1'' VM_STATUS_STARTED else St_start ''u1'' VM_STATUS_DELETED),
      (demo_core [] [] [] [])\<lparr>proc_table := [(5, demo_entry ''Enforce'' ''ab12'' True VM_STATUS_STOPPED)]\<rparr>)) 0 =
   Ended Freed"
  by code_simp

end
