(* ===== verification/Utilities.thy ===== *)
theory Utilities
  imports Vrtm_Prelude "HOL-Library.Word"
begin

text \<open>
  The small helpers: \<open>util/logging.cpp\<close> with \<open>vrtmchannel/log_vrtmchannel.cpp\<close>, the trimming of
  system messages in \<open>printError\<close> (\<open>vrtmcore/modtcService.cpp\<close>, Windows), the wrappers of
  \<open>util/vrtmsockets.cpp\<close>, and \<open>openserver\<close> of \<open>vrtmcore/vrtminterface.cpp\<close>, which nothing calls.
\<close>

section \<open>Loggers\<close>

text \<open>
  The two \<open>rootLogger\<close> pointers, of the program and of the channel library, by the name of the
  category they point to.  \<open>configure\<close> is log4cpp's, which may throw; \<open>set_logger\<close> initialises a
  local reference of the same name and changes nothing.
\<close>

record loggers =
  rootLogger :: "cstr option"
  channel_rootLogger :: "cstr option"

definition initLog :: "(cstr \<Rightarrow> bool) \<Rightarrow> cstr \<Rightarrow> cstr \<Rightarrow> loggers \<Rightarrow> bool \<times> loggers" where
  "initLog configure log_properties_file instance_name l =
     (if configure log_properties_file then (False, l\<lparr>rootLogger := Some instance_name\<rparr>) else (True, l))"

definition set_logger :: "cstr \<Rightarrow> loggers \<Rightarrow> loggers" where
  "set_logger root l = l"

definition set_logger_vrtmchannel :: "cstr option \<Rightarrow> loggers \<Rightarrow> loggers" where
  "set_logger_vrtmchannel root l = l\<lparr>channel_rootLogger := root\<rparr>"

text \<open>The programs' start: both libraries log to the same category, or the program ends.\<close>

lemma loggers_started:
  assumes "initLog configure f name l = (failed, l')"
  shows "failed = (\<not> configure f)"
    and "\<not> failed \<Longrightarrow> set_logger_vrtmchannel (rootLogger l') l' = \<lparr>rootLogger = Some name, channel_rootLogger = Some name\<rparr>"
  using assms by (auto simp: initLog_def set_logger_vrtmchannel_def split: if_splits)

text \<open>
  \<open>PrintBytes\<close>: the messages it logs.  Reading behind the data and dividing by a \<open>col\<close> of 0 are
  undefined; \<open>i\<close> is not negative, so C's remainder is that by the absolute value.
\<close>

definition hex_digit :: "nat \<Rightarrow> char" where
  "hex_digit n = (if n < 10 then char_of (48 + n) else char_of (87 + n))"

definition hex_byte :: "8 word \<Rightarrow> string" where
  "hex_byte b = [hex_digit (unat b div 16), hex_digit (unat b mod 16)]"

function print_bytes_from :: "8 word list \<Rightarrow> int \<Rightarrow> int \<Rightarrow> int \<Rightarrow> string list option" where
  "print_bytes_from pbData i iSize col =
     (if iSize \<le> i then Some []
      else if int (length pbData) \<le> i \<or> col = 0 then None
      else map_option (\<lambda>ls. hex_byte (pbData ! nat i) #
             (if i mod \<bar>col\<bar> = col - 1 then [newline] # ls else ls))
           (print_bytes_from pbData (i + 1) iSize col))"
  by auto
termination
  by (relation "measure (\<lambda>(d, i, n, c). nat (n - i))") auto

declare print_bytes_from.simps [simp del]

definition PrintBytes :: "cstr \<Rightarrow> 8 word list \<Rightarrow> int \<Rightarrow> int \<Rightarrow> string list option" where
  "PrintBytes szMsg pbData iSize col = map_option ((#) szMsg) (print_bytes_from pbData 0 iSize col)"

lemma print_bytes_from_length:
  assumes "0 < col" "0 \<le> i" "i \<le> n" "n \<le> int (length d)"
  shows "\<exists>ls. print_bytes_from d i n col = Some ls \<and> int (length ls) = n - i + (n div col - i div col)"
  using assms
proof (induction d i n col rule: print_bytes_from.induct)
  case (1 d i n col)
  show ?case
  proof (cases "n \<le> i")
    case True
    with "1.prems" show ?thesis by (auto simp: print_bytes_from.simps [of d n n col])
  next
    case False
    with "1.prems" have c: "\<not> (int (length d) \<le> i \<or> col = 0)" by auto
    from "1.IH" [OF False c] "1.prems" False obtain ls where
      ls: "print_bytes_from d (i + 1) n col = Some ls" "int (length ls) = n - (i + 1) + (n div col - (i + 1) div col)"
      by auto
    have "(i + 1) div col = (if i mod col = col - 1 then i div col + 1 else i div col)"
    proof (cases "i mod col = col - 1")
      case True
      then have "i + 1 = col * (i div col) + col" using mult_div_mod_eq [of col i] by linarith
      moreover have "(col * (i div col) + col) div col = i div col + 1" using "1.prems"(1) by simp
      ultimately have "(i + 1) div col = i div col + 1" by simp
      with True show ?thesis by simp
    next
      case False
      then have "i mod col + 1 < col" using pos_mod_bound [OF "1.prems"(1), of i] by simp
      then have z: "(i mod col + 1) div col = 0"
        using pos_mod_sign [OF "1.prems"(1), of i] by (intro div_pos_pos_trivial) simp_all
      have "i + 1 = i mod col + 1 + col * (i div col)" using mult_div_mod_eq [of col i] by linarith
      also have "\<dots> div col = i div col + (i mod col + 1) div col"
        using "1.prems"(1) by (intro div_mult_self2) simp
      finally have "(i + 1) div col = i div col" using z by simp
      with False show ?thesis by simp
    qed
    with ls c False "1.prems"(1) show ?thesis
      by (auto simp: print_bytes_from.simps [of d i n col] simp del: print_bytes_from.simps)
  qed
qed

text \<open>One message for the heading, one for each byte and one for each full row.\<close>

lemma PrintBytes_messages:
  "0 < col \<Longrightarrow> n \<le> length d \<Longrightarrow>
   \<exists>ls. PrintBytes m d (int n) col = Some ls \<and> int (length ls) = 1 + int n + int n div col"
  using print_bytes_from_length [of col 0 "int n" d] by (auto simp: PrintBytes_def)

section \<open>Messages of the system\<close>

text \<open>
  \<open>TCHAR\<close> is a signed character.  \<open>sysMsg\<close> is the array as \<open>FormatMessage\<close> leaves it; without a
  character that ends the first line the search runs behind it (\<open>None\<close>).
\<close>

definition tchar :: "char \<Rightarrow> int" where
  "tchar c = (let n = of_char c in if n < 128 then n else n - 256)"

fun line_end :: "string \<Rightarrow> nat \<Rightarrow> nat option" where
  "line_end [] p = None"
| "line_end (c # s) p = (if 31 < tchar c \<or> tchar c = 9 then line_end s (Suc p) else Some p)"

definition trimmed :: "char \<Rightarrow> bool" where
  "trimmed c \<longleftrightarrow> c = CHR ''.'' \<or> tchar c < 33"

fun trim_back :: "string \<Rightarrow> nat \<Rightarrow> string" where
  "trim_back msg 0 = msg[0 := nul]"
| "trim_back msg (Suc p) =
     (let msg = msg[Suc p := nul] in if trimmed (msg ! p) then trim_back msg p else msg)"

definition printError :: "string \<Rightarrow> cstr option" where
  "printError sysMsg = map_option (\<lambda>p. cstr_of (trim_back sysMsg p)) (line_end sysMsg 0)"

lemma line_end_bound: "line_end s p = Some q \<Longrightarrow> p \<le> q \<and> q < p + length s \<and> nul \<notin> set (take (q - p) s)"
proof (induction s p rule: line_end.induct)
  case (2 c s p)
  have "tchar nul = 0" by (simp add: tchar_def)
  with 2 show ?case by (auto simp: take_Cons' Suc_diff_Suc split: if_splits)
qed simp

lemma trim_back_cstr:
  assumes "p < length msg" "nul \<notin> set (take p msg)"
  shows "cstr_of (trim_back msg p) = rev (dropWhile trimmed (rev (take p msg)))"
  using assms
proof (induction msg p rule: trim_back.induct)
  case (1 msg)
  then show ?case by (cases msg) (simp_all add: cstr_of_def)
next
  case (2 msg p)
  have t: "take (Suc p) msg = take p msg @ [msg ! p]"
    using "2.prems"(1) by (simp add: take_Suc_conv_app_nth)
  have n: "msg[Suc p := nul] ! p = msg ! p" by simp
  show ?case
  proof (cases "trimmed (msg ! p)")
    case True
    with "2.IH" "2.prems" t show ?thesis by (simp add: Let_def)
  next
    case False
    have "msg[Suc p := nul] = take (Suc p) msg @ nul # drop (Suc (Suc p)) msg"
      using "2.prems"(1) by (simp add: upd_conv_take_nth_drop)
    moreover have "cstr_of (take (Suc p) msg @ nul # drop (Suc (Suc p)) msg) = take (Suc p) msg"
      using "2.prems"(2) by (intro cstr_of_append_nul) (auto simp: nul_free_def)
    ultimately show ?thesis using False t n by (simp add: Let_def)
  qed
qed

text \<open>
  The loops stay in the array whenever the first one finds its end, also for a message of dots and
  blanks alone, and what is logged is the first line without the dots and blanks at its end.
\<close>

lemma printError_trims:
  "line_end msg 0 = Some p \<Longrightarrow>
   p < length msg \<and> printError msg = Some (rev (dropWhile trimmed (rev (take p msg))))"
  using line_end_bound [of msg 0 p] trim_back_cstr [of p msg] by (simp add: printError_def)

section \<open>\<open>openserver\<close>\<close>

text \<open>
  The socket functions, with their results.  The caller's \<open>sockaddr\<close> has 16 bytes, 14 of them for
  the path.  Clearing more than that is undefined.
\<close>

record 'w unix_sockets =
  us_unlink :: "cstr \<Rightarrow> 'w \<Rightarrow> 'w"
  us_socket :: "'w \<Rightarrow> int \<times> 'w"
  us_bind :: "int \<Rightarrow> cstr \<Rightarrow> nat \<Rightarrow> 'w \<Rightarrow> int \<times> 'w"
  us_listen :: "int \<Rightarrow> 'w \<Rightarrow> int \<times> 'w"
  us_close :: "int \<Rightarrow> 'w \<Rightarrow> 'w"

definition openserver :: "'w unix_sockets \<Rightarrow> cstr \<Rightarrow> 'w \<Rightarrow> (int option \<times> 'w) option" where
  "openserver U szunixPath w =
     (case us_socket U (us_unlink U szunixPath w) of
        (fd, w) \<Rightarrow>
          if fd = - 1 then Some (None, w)
          else let slen = strnlen_s szunixPath MAX_LEN + 2 + 1
               in if 16 < slen then None
                  else let (iError, w) = us_bind U fd (strcpy_s 14 szunixPath) slen w
                       in if iError < 0 then Some (None, us_close U fd w)
                          else let (r, w) = us_listen U fd w
                               in if r = - 1 then Some (None, us_close U fd w) else Some (Some fd, w))"

text \<open>A path of 14 characters is written behind the address; a shorter one is bound as it is.\<close>

lemma openserver_path:
  assumes "us_socket U (us_unlink U path w) = (fd, w')" "fd \<noteq> - 1"
  shows "openserver U path w = None \<longleftrightarrow> 14 \<le> length path"
    and "openserver U path w = Some (Some k, w'') \<Longrightarrow> k = fd \<and> (\<exists>w1 i. us_bind U fd path (Suc (Suc (Suc (length path)))) w' = (i, w1) \<and> 0 \<le> i)"
  using assms
  by (fastforce simp: openserver_def strnlen_s_def strcpy_s_def Let_def split: prod.splits if_splits)+

end
