(* ===== verification/Spec2Isabelle.thy ===== *)
theory Spec2Isabelle
  imports Registry Core_Process Request_Numbers Kvm_Listener Windows_Report Hyperv_Query Vm_Isolation Utilities
begin

text \<open>
  A verification development for vRTM, the measurement service for virtual machines and
  containers of this repository (sources under \<open>vrtm/src\<close>).

  \<^bold>\<open>The program.\<close>  The core (\<open>vrtmcore\<close>) keeps a table of the instances it has measured.  A
  client connects over TCP, sends one request (a 12 byte header and an XML-RPC document with
  Base64 parameters) and gets one answer; every connection has a thread and a number of its
  own.  A STARTAPP request makes the core read the trust policy next to the disk image, mount
  and measure the image, compare the measurement with the policy's golden hash, and enter the
  verdict in the table.  Other requests read the table, change the status of an instance, or
  ask for a signed report.  The KVM proxy (\<open>vrtmproxy/kvm_proxy\<close>) stands in the place of
  QEMU and launches a measured VM only after the core's verdict; the libvirt listener
  (\<open>vrtmcore/vrtm_listener.cpp\<close>) reports what becomes of the VMs; clean-up threads remove
  entries of refused instances.

  \<^bold>\<open>Theories and sources.\<close>
  \<^item> \<open>Vrtm_Prelude\<close>, \<open>Std_Map\<close>: the C string and number functions and \<open>std::map\<close> as the code
    uses them (a key-sorted list with unique keys; locale \<open>std_map\<close>, interpreted on it).
  \<^item> \<open>Host\<close>: the operating system as a parameter (a record of functions over a world \<open>'w\<close>);
    \<open>util/vrtmCommon.cpp\<close>; the configuration globals; a small executable host for witnesses.
  \<^item> \<open>Proc_Table\<close>: \<open>serviceprocEnt\<close> and \<open>serviceprocTable\<close> (\<open>vrtmcore/modtcService.h\<close> and
    \<open>.cpp\<close>), \<open>cleanupService\<close>.  The record \<open>core\<close> is the shared state: the table, the flag of the
    clean-up thread and the number of its threads, the world.  \<open>Proc_Invariants\<close>: the locale
    \<open>entry_invariant\<close> (what a predicate on entries must satisfy to be kept by every method),
    its two interpretations, and the invariant \<open>table_inv\<close>.
  \<^item> \<open>Tc_Service\<close>: the methods of \<open>tcServiceInterface\<close> on the table, \<open>CleanVrtmTable\<close>, the
    Hyper-V synchronisation with \<open>util/hypervWMIcaller.cpp\<close>.
  \<^item> \<open>Base64\<close>, \<open>Xml_Rpc\<close>, \<open>Channel_Coding\<close>, \<open>Tcp_Channel\<close>: \<open>util/base64.cpp\<close>,
    \<open>vrtmchannel/parser.cpp\<close>, \<open>channelcoding.cpp\<close> and \<open>tcpchan.cpp\<close>.  \<open>Ref_Xml\<close> has a reference
    XML printer and reader that satisfies the law asked of libxml2.  The locales \<open>byte_source\<close>
    and \<open>byte_sink\<close> say what a stream socket promises; they are interpreted on sockets that
    deliver and accept any part of a message.  \<open>full_duplex\<close> extends both to a connection, and
    \<open>closing_end\<close> adds the call that closes it; a session, the exchanges of the clients and the
    runs of client and core together are verified in them, and they are interpreted on the
    reference socket of \<open>Session\<close>.
  \<^item> \<open>Xpath_Parser\<close>, \<open>Start_App\<close>, \<open>Start_App_Props\<close>, \<open>Start_App_Spec\<close>: \<open>xpathparser.cpp\<close> and
    \<open>StartApp\<close>, one definition per phase of the function.
  \<^item> \<open>Load_Config\<close>, \<open>Vrtm_Main\<close>, \<open>Core_Process\<close>: \<open>util/loadconfig.cpp\<close>, \<open>vrtmcoremain.cpp\<close>, and
    the process from \<open>main\<close> to the end of the interface it starts.
  \<^item> \<open>Saml_Report\<close>, \<open>Saml_Props\<close>: the signed report, \<open>GenerateSAMLAndGetDir\<close> and its helpers.
  \<^item> \<open>Requests\<close>, \<open>Request_Props\<close>, \<open>Session\<close>: \<open>serviceRequest\<close> and \<open>vrtminterface.cpp\<close>.
    \<open>Request_Numbers\<close> has \<open>generate_req_id\<close> again, line by line as a step relation of the
    threads that call it.
  \<^item> \<open>Core_Steps\<close>, \<open>Core_Safety\<close>: the clean-up threads, the step relation \<open>core_step\<close> of all
    interleavings of the locked operations, and \<open>service_step\<close>, requests served one by one.
    \<open>Vm_Isolation\<close>: registrations, status reports and verdicts as threads with one step for each
    locked section and each access without the lock, and the locale \<open>unwinding\<close>, which turns facts
    about single steps into noninterference of the threads of different VMs.
  \<^item> \<open>Proxy\<close>, \<open>Listener\<close>, \<open>Client_Props\<close>: \<open>vrtm_proxy.cpp\<close> and \<open>vrtmcore/vrtm_listener.cpp\<close>.
    \<open>Kvm_Listener\<close>: the listener as a program (\<open>vrtmlistener/kvm_listener\<close>), which takes the
    call-backs of \<open>Listener\<close> and adds the signal handler, the lock and \<open>main\<close>.
  \<^item> \<open>Resources\<close>, \<open>Windows_Build\<close>, \<open>Windows_Start\<close>, \<open>Windows_Report\<close>, \<open>Hyperv_Query\<close>: the Windows
    build where it differs.  \<open>Resources\<close> has the multiset of what is held (locale \<open>ledger\<close>);
    \<open>Windows_Build\<close> the file helpers, the drive letter, hashing with CNG and the start of the Hyper-V
    thread; \<open>Windows_Start\<close> and \<open>Windows_Report\<close> have \<open>StartApp\<close> and the signed report, with copies
    that end the process when a text does not fit; \<open>Hyperv_Query\<close> the COM side of
    \<open>util/hypervWMIcaller.cpp\<close>.
  \<^item> \<open>Utilities\<close>: \<open>util/logging.cpp\<close>, the trimming of system messages, and \<open>openserver\<close>.
  \<^item> \<open>Wire_Spec\<close>: properties of the wire format from a client to \<open>StartApp\<close>.
  \<^item> \<open>End_To_End\<close>: a client and a session of the core as the two ends of one connection: the
    proxy's launch request and the listener's report.
  \<^item> \<open>Registry\<close>: the abstract specification of the core, a registry of instances by UUID, the
    locale \<open>simulation\<close>, and its interpretations on all operations of the service and on requests
    alone; \<open>op_log\<close> computes the events of an operation.

  \<^bold>\<open>Conventions.\<close>  An \<open>int\<close> of the code is an \<open>int\<close> here, with the wrap-around written out
  where it matters (\<open>generate_req_id\<close>, \<open>atoi\<close>); fields of the wire header and the age of an
  entry are words of 32 and 64 bits.  A character array is the C string it holds, and every
  bounded copy names its capacity.  Undefined behaviour is a value: \<open>None\<close>, \<open>Undefined\<close>,
  \<open>Saml_undef\<close>, \<open>Io_overrun\<close> or \<open>Win_undefined\<close>, the end of the process by the Windows library is
  \<open>Win_terminates\<close>; an exception nothing catches is \<open>Load_throws\<close>,
  \<open>Saml_throw\<close> or \<open>Uncaught\<close>.  Error codes and early returns are branches of the definitions.
  The world is threaded through all calls in the order of the source.

  Code that is not part of the sources is a parameter: the operating system, sockets, OpenSSL,
  libxml2, libvirt, Hyper-V.  What a theorem needs of it is a named hypothesis (\<open>b64_law\<close>,
  \<open>xml_law\<close>, \<open>env_law\<close>, \<open>file_law\<close>, \<open>hash_law\<close>, \<open>commands_keep\<close>, \<open>windows_keep\<close>, \<open>clock_law\<close>,
  \<open>stable_clock\<close>), and a reference instance satisfies each of them in the witnesses.

  \<^bold>\<open>Loops.\<close>  Loops over data recurse on it or have a measure (the rest of the file, of the
  arguments, of the buffer).  Loops that may go on for ever are partial functions, for which
  \<open>None\<close> means that they do not return: sending, waiting for an answer, waiting for the
  interface, accepting connections, the clean-up threads.  The theorems that these return say so
  (\<open>= Some\<close>), and the accept loop is shown to end only with the process.  The
  listeners' loops take the list of events still to come, up to the one that closes the
  connection.  No fuel is used.

  \<^bold>\<open>What is shown.\<close>  A VM that the proxy launches was measured by the core, or its policy asks
  for no measurement, from the proxy's command line to the entry in the table; every launch
  comes to its end, and an accepted one as QEMU.  The entry is the VM's own unless its request
  got a number that another entry still has as its key, which the statements name.  An event of
  libvirt changes exactly the entry of its VM.  The service refines a registry that changes by
  starts, reports and removals, exactly those that its operations ask for, and requests that are
  served to their end leave the entry of a cancelled VM in the table and CANCELLED; a start of
  such a VM that is accepted is answered with its number all the same, so that the proxy launches
  it.  The table keeps its invariant under every request and every clean-up pass, and the
  enforcement of refusals under every interleaving in which a status update is one step; the
  race that breaks it as the code is has a run of its own.  \<open>StartApp\<close> accepts only measured and,
  under Enforce, matching instances, and a refusal cancels the entry; the proxy launches only on
  a positive answer of the core.  Each request's answer, a whole session on the level of bytes,
  and the content of the report, with its signature and certificate, are given exactly.  The wire
  format, Base64 and the configuration file have round trips with their limits.  The clean-up
  thread ends when left alone.  The core's process ends when its start fails or its socket
  cannot be opened, and with the interface up only when a session or a signal ends it; the
  stand-alone listener ends at a signal.  The listeners report exactly the events they are told.
  Concurrent sessions can get one request number, and could not with a mutex initialised once.
  Requests about different VMs, with numbers of their own, do not disturb each other under any
  interleaving.  In the Windows build a start decides as in the Linux build, but for an instance
  that was refused before, and an overlong text from a client ends the core; hashing gives back
  all it takes and agrees with the Linux build, the report has the same text, and the Hyper-V
  query does not give back all.  The remaining properties state what happens at the limits:
  request numbers that come around, malformed and oversized requests, a missing golden hash, a
  stuck clean-up flag, a lost report directory.

  \<^bold>\<open>Not modelled.\<close>  The log macros and printing; the wrappers of the socket library, which are
  operations of the network parameter; the release of memory outside the CNG and COM
  functions, and failing allocations; the proxy's failing \<open>initLog\<close> and an \<open>execve\<close> that returns;
  failing calls of \<open>Get\<close> on a row of Hyper-V's answer; files with several names; what the ending copies of the Windows library do in the channel
  and in the other requests (their properties are about the Linux build); the Windows service in C#, the scripts and the packaging; the
  test programs under STANDALONE; the headers of third parties.  \<open>generate_req_id\<close> is one step in the
  sessions and in the interleavings of the table; \<open>Request_Numbers\<close> shows what that leaves out.
\<close>

end
